theory Spec2Isabelle
  imports Complex_Main
begin

section \<open>Shared data: exceptions, coordinates, arrays\<close>

text \<open>
  Every \<^verbatim>\<open>raise\<close> and every failing \<^verbatim>\<open>assert\<close> of the Python sources is a value of
  \<open>error\<close>; a function that can raise returns \<open>error + 'a\<close> with \<open>Inl\<close> for the
  exception. \<open>ExternalError\<close> stands for an exception raised inside a collaborator whose
  code is not part of the sources (the BAR estimator, the plotting calls, the energy
  decomposition helper).
\<close>

datatype error =
    AssertionError string
  | IndexError
  | AxisError
  | ValueError
  | TypeError
  | NameError
  | ZeroDivisionError
  | ExternalError string

text \<open>
  A coordinate is a floating point number as far as \<^verbatim>\<open>np.isfinite\<close> can tell them
  apart: a finite value, one of the two infinities, or NaN. A frame (N x 3) and a box
  (3 x 3) are two-dimensional arrays of coordinates.
\<close>

datatype coord = Finite real | PosInf | NegInf | NaN

fun isfinite :: "coord \<Rightarrow> bool" where
  "isfinite (Finite _) = True"
| "isfinite PosInf = False"
| "isfinite NegInf = False"
| "isfinite NaN = False"

type_synonym ndarray = "coord list list"

text \<open>\<^verbatim>\<open>np.all(np.isfinite(x))\<close> for a two-dimensional array \<open>x\<close>.\<close>

definition all_isfinite :: "ndarray \<Rightarrow> bool" where
  "all_isfinite x = list_all (list_all isfinite) x"

section \<open>free\_energy.py: protocol, initial state, engine\<close>

record MDParams =
  n_frames :: int
  n_eq_steps :: int
  steps_per_frame :: int

text \<open>
  \<^verbatim>\<open>LangevinIntegrator\<close> and \<^verbatim>\<open>MonteCarloBarostat\<close> are configuration objects of
  \<^verbatim>\<open>timemachine.lib\<close>; their fields are the constructor arguments that
  \<^verbatim>\<open>setup_initial_states\<close> passes.
\<close>

record LangevinIntegrator =
  temperature :: real
  dt :: real
  friction :: real
  masses :: "real list"
  seed :: int

record MonteCarloBarostat =
  N :: nat
  pressure :: real
  temperature :: real
  group_idxs :: "nat list list"
  interval :: int
  seed :: int

record 'p InitialState =
  potentials :: "'p list"
  integrator :: LangevinIntegrator
  barostat :: "MonteCarloBarostat option"
  x0 :: ndarray
  v0 :: ndarray
  box0 :: ndarray
  lamb :: real
  ligand_idxs :: "nat list"

text \<open>
  The simulation engine (\<^verbatim>\<open>custom_ops\<close> and the potentials' \<^verbatim>\<open>bound_impl\<close>) is compiled
  code outside the sources, so it is a parameter: \<open>'p\<close> is a potential, \<open>'u\<close> a bound
  implementation of one, \<open>'c\<close> the state of a \<^verbatim>\<open>custom_ops.Context\<close>. A call that
  advances the context returns the advanced context together with what Python gets back.
  \<^verbatim>\<open>integrator.impl()\<close> and \<^verbatim>\<open>barostat.impl(bound_impls)\<close> wrap a configuration for the
  engine; the wrapped integrator is represented by its configuration and the wrapped
  barostat by its configuration paired with the bound potentials it was given.

  \<open>multiple_steps_U ctxt n_steps store_u_interval store_x_interval\<close> is the call of
  free\_energy.py, \<open>multiple_steps_U_lamb ctxt lamb n_steps lambda_windows
  store_u_interval store_x_interval\<close> the older call of rbfe.py; both return energies,
  coordinate frames and boxes. \<open>execute u x box lamb\<close> returns \<open>(du_dx, du_dl, U)\<close>.
\<close>

record ('p, 'u, 'c) custom_ops =
  bound_impl :: "'p \<Rightarrow> 'u"
  Context :: "ndarray \<Rightarrow> ndarray \<Rightarrow> ndarray \<Rightarrow> LangevinIntegrator \<Rightarrow> 'u list
                \<Rightarrow> (MonteCarloBarostat \<times> 'u list) option \<Rightarrow> 'c"
  multiple_steps_U :: "'c \<Rightarrow> int \<Rightarrow> int \<Rightarrow> int \<Rightarrow> 'c \<times> real list \<times> ndarray list \<times> ndarray list"
  multiple_steps_U_lamb :: "'c \<Rightarrow> real \<Rightarrow> int \<Rightarrow> real list \<Rightarrow> int \<Rightarrow> int
                \<Rightarrow> 'c \<times> real list \<times> ndarray list \<times> ndarray list"
  get_x_t :: "'c \<Rightarrow> ndarray"
  execute :: "'u \<Rightarrow> ndarray \<Rightarrow> ndarray \<Rightarrow> real \<Rightarrow> ndarray \<times> real \<times> real"

section \<open>free\_energy.py: batches\<close>

text \<open>The loop \<^verbatim>\<open>for _ in range(quot): yield batch_size\<close>.\<close>

primrec yield_range :: "nat \<Rightarrow> int \<Rightarrow> int list" where
  "yield_range 0 batch_size = []"
| "yield_range (Suc k) batch_size = batch_size # yield_range k batch_size"

text \<open>
  \<^verbatim>\<open>batches\<close> is a generator; its body has no effect besides the values it yields, so
  it is the list of yielded values, or the assertion failure its first step raises.
  Python's \<^verbatim>\<open>divmod\<close> on integers rounds the quotient down, as \<open>div\<close> and \<open>mod\<close> on
  \<open>int\<close> do.
\<close>

definition batches :: "int \<Rightarrow> int \<Rightarrow> error + int list" where
  "batches n batch_size =
     (if \<not> n \<ge> 0 then Inl (AssertionError [])
      else if \<not> batch_size > 0 then Inl (AssertionError [])
      else
        let quot = n div batch_size;
            rem = n mod batch_size
        in Inr (yield_range (nat quot) batch_size @ (if rem \<noteq> 0 then [rem] else [])))"

section \<open>free\_energy.py: sample\<close>

text \<open>The inner function \<^verbatim>\<open>run_production_steps\<close>; \<^verbatim>\<open>ctxt\<close> is its closure variable.\<close>

definition run_production_steps ::
  "('p, 'u, 'c) custom_ops \<Rightarrow> MDParams \<Rightarrow> 'c \<Rightarrow> int \<Rightarrow> 'c \<times> ndarray list \<times> ndarray list" where
  "run_production_steps ops md_params ctxt n_steps =
     (case multiple_steps_U ops ctxt n_steps 0 (steps_per_frame md_params) of
        (ctxt', _, coords, boxes) \<Rightarrow> (ctxt', coords, boxes))"

text \<open>
  The loop over the batches of the streaming path.

  Modelled from the spec: \<^verbatim>\<open>StoredArrays\<close> (timemachine.fe.stored\_arrays is not among the
  sources) is an append-only container with indexed reads and a length; it is the list of
  the frames appended so far, \<^verbatim>\<open>extend\<close> appends at the end.
\<close>

fun production_batches ::
  "('p, 'u, 'c) custom_ops \<Rightarrow> MDParams \<Rightarrow> int list \<Rightarrow> 'c \<Rightarrow> ndarray list \<Rightarrow> ndarray list
     \<Rightarrow> 'c \<times> ndarray list \<times> ndarray list" where
  "production_batches ops md_params [] ctxt all_coords all_boxes = (ctxt, all_coords, all_boxes)"
| "production_batches ops md_params (n # ns) ctxt all_coords all_boxes =
     (case run_production_steps ops md_params ctxt (n * steps_per_frame md_params) of
        (ctxt', batch_coords, batch_boxes) \<Rightarrow>
          production_batches ops md_params ns ctxt' (all_coords @ batch_coords) (all_boxes @ batch_boxes))"

text \<open>\<^verbatim>\<open>if max_buffer_frames:\<close> holds for an integer other than zero, not for \<^verbatim>\<open>None\<close>.\<close>

fun truthy :: "int option \<Rightarrow> bool" where
  "truthy None = False"
| "truthy (Some m) = (m \<noteq> 0)"

definition production ::
  "('p, 'u, 'c) custom_ops \<Rightarrow> MDParams \<Rightarrow> int option \<Rightarrow> 'c
     \<Rightarrow> error + ('c \<times> ndarray list \<times> ndarray list)" where
  "production ops md_params max_buffer_frames ctxt =
     (if truthy max_buffer_frames then
        (case batches (n_frames md_params) (the max_buffer_frames) of
           Inl e \<Rightarrow> Inl e
         | Inr bs \<Rightarrow> Inr (production_batches ops md_params bs ctxt [] []))
      else Inr (run_production_steps ops md_params ctxt (n_frames md_params * steps_per_frame md_params)))"

text \<open>
  The first statements of \<^verbatim>\<open>sample\<close>, up to \<^verbatim>\<open>ctxt = custom_ops.Context(...)\<close>: the
  context the simulation starts from.
\<close>

definition sample_context :: "('p, 'u, 'c) custom_ops \<Rightarrow> 'p InitialState \<Rightarrow> 'c" where
  "sample_context ops initial_state =
     (let bound_impls = map (bound_impl ops) (potentials initial_state);
          intg_impl = integrator initial_state;
          baro_impl = (case barostat initial_state of
                         Some b \<Rightarrow> Some (b, bound_impls)
                       | None \<Rightarrow> None)
      in Context ops (x0 initial_state) (v0 initial_state) (box0 initial_state)
           intg_impl bound_impls baro_impl)"

text \<open>
  The rest of \<^verbatim>\<open>sample\<close>: burn-in, the first finiteness assertion, production, the two
  length assertions and the finiteness assertion on \<^verbatim>\<open>all_coords[-1]\<close>, which raises
  \<^verbatim>\<open>IndexError\<close> on an empty trajectory.
\<close>

definition sample ::
  "('p, 'u, 'c) custom_ops \<Rightarrow> 'p InitialState \<Rightarrow> MDParams \<Rightarrow> int option
     \<Rightarrow> error + (ndarray list \<times> ndarray list)" where
  "sample ops initial_state md_params max_buffer_frames =
     (let ctxt = sample_context ops initial_state;
          ctxt1 = fst (multiple_steps_U ops ctxt (n_eq_steps md_params) 0 0)
      in
        if \<not> all_isfinite (get_x_t ops ctxt1)
        then Inl (AssertionError ''Equilibration resulted in a nan'')
        else
          (case production ops md_params max_buffer_frames ctxt1 of
             Inl e \<Rightarrow> Inl e
           | Inr (ctxt2, all_coords, all_boxes) \<Rightarrow>
               if int (length all_coords) \<noteq> n_frames md_params then Inl (AssertionError [])
               else if int (length all_boxes) \<noteq> n_frames md_params then Inl (AssertionError [])
               else if all_coords = [] then Inl IndexError
               else if \<not> all_isfinite (last all_coords)
               then Inl (AssertionError ''Production resulted in a nan'')
               else Inr (all_coords, all_boxes)))"

section \<open>rbfe.py: protocol, initial state, sample\<close>

record SimulationProtocol =
  n_frames :: int
  burn_in :: int
  steps_per_frame :: int

text \<open>The \<^verbatim>\<open>InitialState\<close> of rbfe.py: the barostat is not optional, there are no ligand indices.\<close>

record 'p rbfe_InitialState =
  potentials :: "'p list"
  integrator :: LangevinIntegrator
  barostat :: MonteCarloBarostat
  x0 :: ndarray
  v0 :: ndarray
  box0 :: ndarray
  lamb :: real

text \<open>\<^verbatim>\<open>all_coords.shape[0]\<close> is the number of frames returned by the engine.\<close>

definition rbfe_sample ::
  "('p, 'u, 'c) custom_ops \<Rightarrow> 'p rbfe_InitialState \<Rightarrow> SimulationProtocol
     \<Rightarrow> error + (ndarray list \<times> ndarray list)" where
  "rbfe_sample ops initial_state protocol =
     (let bound_impls = map (bound_impl ops) (rbfe_InitialState.potentials initial_state);
          intg_impl = rbfe_InitialState.integrator initial_state;
          baro_impl = (rbfe_InitialState.barostat initial_state, bound_impls);
          ctxt = Context ops (rbfe_InitialState.x0 initial_state) (rbfe_InitialState.v0 initial_state)
                   (rbfe_InitialState.box0 initial_state) intg_impl bound_impls (Some baro_impl);
          ctxt1 = fst (multiple_steps_U_lamb ops ctxt (rbfe_InitialState.lamb initial_state)
                   (burn_in protocol) [rbfe_InitialState.lamb initial_state] 0 0);
          n_steps = SimulationProtocol.n_frames protocol * SimulationProtocol.steps_per_frame protocol
      in
        (case multiple_steps_U_lamb ops ctxt1 (rbfe_InitialState.lamb initial_state) n_steps
                [rbfe_InitialState.lamb initial_state]
                (SimulationProtocol.steps_per_frame protocol)
                (SimulationProtocol.steps_per_frame protocol) of
           (ctxt2, all_nrgs, all_coords, all_boxes) \<Rightarrow>
             if int (length all_coords) \<noteq> SimulationProtocol.n_frames protocol
             then Inl (AssertionError [])
             else if int (length all_boxes) \<noteq> SimulationProtocol.n_frames protocol
             then Inl (AssertionError [])
             else Inr (all_coords, all_boxes)))"

section \<open>numpy arrays of energies\<close>

text \<open>
  An array of floating point energies is its shape together with its items, read by a
  list of indices, one per axis. Energies are real numbers: the claims about them are
  about which entries are combined, not about rounding. Only the operations the
  sources apply are defined, each with the exception numpy raises.
\<close>

record nparray =
  shape :: "nat list"
  item :: "nat list \<Rightarrow> real"

text \<open>\<^verbatim>\<open>np.array(us)\<close> for a list of numbers.\<close>

definition array1 :: "real list \<Rightarrow> nparray" where
  "array1 us =
     \<lparr> shape = [length us],
       item = (\<lambda>idx. case idx of [i] \<Rightarrow> (if i < length us then us ! i else 0) | _ \<Rightarrow> 0) \<rparr>"

text \<open>
  \<^verbatim>\<open>np.array(arrays)\<close> for a list of arrays stacks them along a new first axis; the
  empty list gives an array of shape \<open>(0,)\<close>, arrays of different shapes are refused.
\<close>

definition np_array :: "nparray list \<Rightarrow> error + nparray" where
  "np_array as =
     (case as of
        [] \<Rightarrow> Inr \<lparr> shape = [0], item = (\<lambda>idx. 0) \<rparr>
      | a # _ \<Rightarrow>
          if list_all (\<lambda>b. shape b = shape a) as
          then Inr \<lparr> shape = length as # shape a,
                     item = (\<lambda>idx. case idx of
                                [] \<Rightarrow> 0
                              | i # rest \<Rightarrow> (if i < length as then item (as ! i) rest else 0)) \<rparr>
          else Inl ValueError)"

text \<open>\<^verbatim>\<open>a.sum(0)\<close>, \<^verbatim>\<open>a.sum(axis=0)\<close> and \<^verbatim>\<open>np.sum(a, axis=0)\<close>.\<close>

definition sum_axis0 :: "nparray \<Rightarrow> error + nparray" where
  "sum_axis0 a =
     (case shape a of
        [] \<Rightarrow> Inl AxisError
      | n # rest \<Rightarrow>
          Inr \<lparr> shape = rest, item = (\<lambda>idx. sum_list (map (\<lambda>c. item a (c # idx)) [0..<n])) \<rparr>)"

text \<open>\<^verbatim>\<open>a[i, j]\<close> for non-negative \<open>i\<close> and \<open>j\<close>.\<close>

definition getitem2 :: "nparray \<Rightarrow> nat \<Rightarrow> nat \<Rightarrow> error + nparray" where
  "getitem2 a i j =
     (case shape a of
        n # m # rest \<Rightarrow>
          if i < n \<and> j < m
          then Inr \<lparr> shape = rest, item = (\<lambda>idx. item a (i # j # idx)) \<rparr>
          else Inl IndexError
      | _ \<Rightarrow> Inl IndexError)"

text \<open>
  \<^verbatim>\<open>a - b\<close> and \<^verbatim>\<open>beta * a\<close>. The sources subtract two arrays of one shape only (two
  slices of one array, or the energies of one trajectory under two potentials), so no
  broadcasting is modelled: arrays of different shapes are refused.
\<close>

definition np_minus :: "nparray \<Rightarrow> nparray \<Rightarrow> error + nparray" where
  "np_minus a b =
     (if shape a = shape b
      then Inr \<lparr> shape = shape a, item = (\<lambda>idx. item a idx - item b idx) \<rparr>
      else Inl ValueError)"

definition np_scale :: "real \<Rightarrow> nparray \<Rightarrow> nparray" where
  "np_scale beta a = \<lparr> shape = shape a, item = (\<lambda>idx. beta * item a idx) \<rparr>"

text \<open>\<^verbatim>\<open>a.swapaxes(0, 1)\<close>.\<close>

definition swapaxes01 :: "nparray \<Rightarrow> error + nparray" where
  "swapaxes01 a =
     (case shape a of
        n # m # rest \<Rightarrow>
          Inr \<lparr> shape = m # n # rest,
                item = (\<lambda>idx. case idx of
                           i # j # tail \<Rightarrow> item a (j # i # tail)
                         | _ \<Rightarrow> 0) \<rparr>
      | _ \<Rightarrow> Inl AxisError)"

text \<open>The sub-arrays \<^verbatim>\<open>for x in a\<close> runs over (none for an empty first axis).\<close>

definition rows :: "nparray \<Rightarrow> nparray list" where
  "rows a =
     (case shape a of
        [] \<Rightarrow> []
      | n # rest \<Rightarrow> map (\<lambda>i. \<lparr> shape = rest, item = (\<lambda>idx. item a (i # idx)) \<rparr>) [0..<n])"

text \<open>A list comprehension over a function that may raise stops at the first exception.\<close>

fun map_err :: "('a \<Rightarrow> error + 'b) \<Rightarrow> 'a list \<Rightarrow> error + 'b list" where
  "map_err f [] = Inr []"
| "map_err f (x # xs) =
     (case f x of
        Inl e \<Rightarrow> Inl e
      | Inr y \<Rightarrow> (case map_err f xs of Inl e \<Rightarrow> Inl e | Inr ys \<Rightarrow> Inr (y # ys)))"

section \<open>free\_energy.py: run\_sequential\_sims\_given\_initial\_states\<close>

text \<open>
  A trajectory or a box sequence is a Python object. The sources never write into one,
  so an object is its identity together with its contents: two names are references to
  one object when the identities agree, and a copy would be an object with the same
  contents and an identity of its own. Each call of a sampler creates two objects, the
  trajectory and the box sequence of its window.
\<close>

datatype obj_id = FramesOf nat | BoxesOf nat

record array_obj =
  obj_id :: obj_id
  obj_val :: "ndarray list"

text \<open>A batch energy function maps a trajectory and its boxes to one energy per frame.\<close>

type_synonym batch_u_fn = "ndarray list \<Rightarrow> ndarray list \<Rightarrow> nparray"

text \<open>
  Chaining calls that may raise: the first exception ends the computation.
\<close>

definition on_success :: "error + 'a \<Rightarrow> ('a \<Rightarrow> error + 'b) \<Rightarrow> error + 'b" where
  "on_success r f = (case r of Inl e \<Rightarrow> Inl e | Inr x \<Rightarrow> f x)"

text \<open>
  The result objects of the two modules and the local variables of the loop of rbfe.py
  are declared here, before the records of the sequential runner, whose field names
  they share; their fields are always written with the record's name.

  \<^verbatim>\<open>SimulationResult\<close> of rbfe.py.
\<close>

record 'p rbfe_SimulationResult =
  all_dGs :: "real list"
  all_errs :: "real list"
  plot_png :: "nat list"
  frames :: "array_obj list"
  boxes :: "array_obj list"
  initial_states :: "'p rbfe_InitialState list"
  protocol :: SimulationProtocol

text \<open>
  The variables the loop of \<^verbatim>\<open>estimate_free_energy_given_initial_states\<close> of rbfe.py
  writes; \<open>figure\<close> is the state of the matplotlib figure, of a type \<open>'f\<close> left open.
  \<open>u_idx\<close> is the variable of the inner loop over the energy terms, which the code reads
  after that loop: it is unbound (\<open>None\<close>) until the inner loop has run once, and keeps
  its last value from then on.
\<close>

record 'f rbfe_locals =
  all_dGs :: "real list"
  all_errs :: "real list"
  stored_frames :: "array_obj list"
  stored_boxes :: "array_obj list"
  prev_frames :: "array_obj option"
  prev_boxes :: "array_obj option"
  prev_batch_U_fns :: "batch_u_fn list option"
  u_idx :: "nat option"
  figure :: 'f

text \<open>
  What rbfe.py imports and the sources do not contain: the constants, \<^verbatim>\<open>pymbar.BAR\<close>
  and matplotlib. \<open>subplots num_rows num_cols\<close> is \<^verbatim>\<open>plt.subplots\<close>;
  \<open>all_axes_getitem fig row col\<close> is \<^verbatim>\<open>all_axes[row][col]\<close>, an axes object named by
  its position; \<open>plot_BAR fig axes df df_err fwd rev title\<close> is the function
  \<^verbatim>\<open>plot_BAR\<close>, which only calls matplotlib; \<open>savefig\<close> is the layout, saving and
  reading back of the figure; \<open>repr_name\<close> is \<^verbatim>\<open>repr(U_fn).split(".")[-1].split()[0]\<close>.
  Each matplotlib call may raise.
\<close>

record ('p, 'f) rbfe_imports =
  BOLTZ :: real
  DEFAULT_TEMP :: real
  BAR :: "nparray \<Rightarrow> nparray \<Rightarrow> error + (real \<times> real)"
  subplots :: "int \<Rightarrow> int \<Rightarrow> error + 'f"
  all_axes_getitem :: "'f \<Rightarrow> int \<Rightarrow> int \<Rightarrow> error + (int \<times> int)"
  plot_BAR :: "'f \<Rightarrow> int \<times> int \<Rightarrow> real \<Rightarrow> real \<Rightarrow> nparray \<Rightarrow> nparray \<Rightarrow> string \<Rightarrow> error + 'f"
  savefig :: "'f \<Rightarrow> error + nat list"
  repr_name :: "'p \<Rightarrow> string"

text \<open>\<^verbatim>\<open>SimulationResult\<close> of free\_energy.py.\<close>

record 'p SimulationResult =
  all_dGs :: "real list"
  all_errs :: "real list"
  dG_errs_by_lambda_by_component :: "real list list"
  overlaps_by_lambda :: "real list"
  overlaps_by_lambda_by_component :: "real list list"
  dG_errs_png :: "nat list"
  overlap_summary_png :: "nat list"
  overlap_detail_png :: "nat list"
  frames :: "array_obj list"
  boxes :: "array_obj list"
  initial_states :: "'p InitialState list"
  md_params :: MDParams

text \<open>
  Modelled from the spec: \<^verbatim>\<open>EnergyDecomposedState\<close> (timemachine.fe.energy\_decomposition
  is not among the sources) is a trajectory plus a list of per-potential-term energy
  evaluators; its fields are the three constructor arguments, held by reference.
\<close>

record EnergyDecomposedState =
  frames :: array_obj
  boxes :: array_obj
  batch_u_fns :: "batch_u_fn list"

text \<open>
  What free\_energy.py imports and the sources do not contain: the constant
  \<^verbatim>\<open>BOLTZ\<close>, the two functions of the energy decomposition module, the estimators of
  timemachine.fe.bar and the three plotting functions. \<open>type_name\<close> is
  \<^verbatim>\<open>type(U_fn).__name__\<close>. A figure is the bytes of a PNG.
\<close>

record ('p, 'u) fe_imports =
  BOLTZ :: real
  get_batch_u_fns :: "'u list \<Rightarrow> real \<Rightarrow> batch_u_fn list"
  compute_energy_decomposed_u_kln :: "EnergyDecomposedState option list \<Rightarrow> error + nparray"
  bar_with_bootstrapped_uncertainty :: "nparray \<Rightarrow> nparray \<Rightarrow> error + (real \<times> real)"
  df_err_from_ukln :: "nparray \<Rightarrow> error + real"
  pair_overlap_from_ukln :: "nparray \<Rightarrow> error + real"
  type_name :: "'p \<Rightarrow> string"
  make_overlap_detail_figure ::
    "string list \<Rightarrow> real list \<Rightarrow> real list \<Rightarrow> nparray \<Rightarrow> real \<Rightarrow> string \<Rightarrow> error + nat list"
  make_dG_errs_figure ::
    "string list \<Rightarrow> real list \<Rightarrow> real list \<Rightarrow> real list list \<Rightarrow> error + nat list"
  make_overlap_summary_figure ::
    "string list \<Rightarrow> real list \<Rightarrow> real list \<Rightarrow> real list list \<Rightarrow> error + nat list"

text \<open>
  The local variables of \<^verbatim>\<open>run_sequential_sims_given_initial_states\<close> that the loop
  writes. \<open>tmp_states_log\<close> is not a variable of the source: it records \<open>tmp_states\<close>
  at the places where the source has just written it or decided not to (after the
  initialisation, after the statement \<^verbatim>\<open>if lamb_idx >= 2: tmp_states[lamb_idx - 2] = None\<close>
  and after \<^verbatim>\<open>tmp_states[lamb_idx] = EnergyDecomposedState(...)\<close>), so that a property can
  speak about every point of the loop. Nothing reads it.
\<close>

datatype log_point = Initialised | Freed nat | Constructed nat

record seq_state =
  stored_frames :: "array_obj list"
  stored_boxes :: "array_obj list"
  tmp_states :: "EnergyDecomposedState option list"
  u_kln_by_component_by_lambda :: "nparray list"
  tmp_states_log :: "(log_point \<times> EnergyDecomposedState option list) list"

text \<open>\<^verbatim>\<open>xs[i] = v\<close> for a non-negative index: \<^verbatim>\<open>IndexError\<close> beyond the end.\<close>

definition setitem :: "'a list \<Rightarrow> nat \<Rightarrow> 'a \<Rightarrow> error + 'a list" where
  "setitem xs i v = (if i < length xs then Inr (xs[i := v]) else Inl IndexError)"

definition getitem :: "'a list \<Rightarrow> nat \<Rightarrow> error + 'a" where
  "getitem xs i = (if i < length xs then Inr (xs ! i) else Inl IndexError)"

text \<open>
  One iteration of \<^verbatim>\<open>for lamb_idx, initial_state in enumerate(initial_states)\<close>, in
  the four parts that follow the call of \<^verbatim>\<open>sample\<close>.

  \<open>keep_samples\<close>: \<^verbatim>\<open>if lamb_idx in keep_idxs:\<close> append the two objects just sampled.
\<close>

definition keep_samples :: "int list \<Rightarrow> nat \<Rightarrow> array_obj \<Rightarrow> array_obj \<Rightarrow> seq_state \<Rightarrow> seq_state" where
  "keep_samples keep_idxs lamb_idx cur_frames cur_boxes st =
     (if int lamb_idx \<in> set keep_idxs
      then st \<lparr> stored_frames := stored_frames st @ [cur_frames],
                stored_boxes := stored_boxes st @ [cur_boxes] \<rparr>
      else st)"

text \<open>\<open>free_previous\<close>: \<^verbatim>\<open>if lamb_idx >= 2: tmp_states[lamb_idx - 2] = None\<close>.\<close>

definition free_previous :: "nat \<Rightarrow> seq_state \<Rightarrow> error + seq_state" where
  "free_previous lamb_idx st =
     (case (if lamb_idx \<ge> 2 then setitem (tmp_states st) (lamb_idx - 2) None
            else Inr (tmp_states st)) of
        Inl e \<Rightarrow> Inl e
      | Inr freed \<Rightarrow>
          Inr (st \<lparr> tmp_states := freed,
                    tmp_states_log := tmp_states_log st @ [(Freed lamb_idx, freed)] \<rparr>))"

text \<open>\<open>construct_state\<close>: \<^verbatim>\<open>tmp_states[lamb_idx] = EnergyDecomposedState(...)\<close>.\<close>

definition construct_state :: "nat \<Rightarrow> EnergyDecomposedState \<Rightarrow> seq_state \<Rightarrow> error + seq_state" where
  "construct_state lamb_idx eds st =
     (case setitem (tmp_states st) lamb_idx (Some eds) of
        Inl e \<Rightarrow> Inl e
      | Inr built \<Rightarrow>
          Inr (st \<lparr> tmp_states := built,
                    tmp_states_log := tmp_states_log st @ [(Constructed lamb_idx, built)] \<rparr>))"

text \<open>
  \<open>pair_analysis\<close>: \<^verbatim>\<open>if lamb_idx > 0:\<close> the decomposed energies of the previous and
  the current state. Both entries of \<^verbatim>\<open>tmp_states\<close> are read at indices below its
  length whenever the assignment before it went through.
\<close>

definition pair_analysis ::
  "('p, 'u) fe_imports \<Rightarrow> nat \<Rightarrow> seq_state \<Rightarrow> seq_state \<times> error option" where
  "pair_analysis imp lamb_idx st =
     (if lamb_idx > 0 then
        (let state_pair = [tmp_states st ! (lamb_idx - 1), tmp_states st ! lamb_idx]
         in case compute_energy_decomposed_u_kln imp state_pair of
              Inl e \<Rightarrow> (st, Some e)
            | Inr u_kln_by_component \<Rightarrow>
                (st \<lparr> u_kln_by_component_by_lambda :=
                        u_kln_by_component_by_lambda st @ [u_kln_by_component] \<rparr>,
                 None))
      else (st, None))"

text \<open>
  The whole iteration. The result is the state the iteration ends in and the exception
  that ended it, if any.
\<close>

definition seq_body ::
  "('p, 'u) fe_imports \<Rightarrow> ('p, 'u, 'c) custom_ops \<Rightarrow> MDParams \<Rightarrow> real \<Rightarrow> int list
     \<Rightarrow> nat \<Rightarrow> 'p InitialState \<Rightarrow> seq_state \<Rightarrow> seq_state \<times> error option" where
  "seq_body imp ops md temp keep_idxs lamb_idx initial_state st =
     (case sample ops initial_state md None of
        Inl e \<Rightarrow> (st, Some e)
      | Inr (coords, bxs) \<Rightarrow>
          let cur_frames = \<lparr> obj_id = FramesOf lamb_idx, obj_val = coords \<rparr>;
              cur_boxes = \<lparr> obj_id = BoxesOf lamb_idx, obj_val = bxs \<rparr>;
              st1 = keep_samples keep_idxs lamb_idx cur_frames cur_boxes st
          in
            (case free_previous lamb_idx st1 of
               Inl e \<Rightarrow> (st1, Some e)
             | Inr st2 \<Rightarrow>
                 let bound_impls = map (bound_impl ops) (InitialState.potentials initial_state);
                     cur_batch_U_fns = get_batch_u_fns imp bound_impls temp
                 in
                   (case construct_state lamb_idx
                           \<lparr> frames = cur_frames, boxes = cur_boxes,
                             batch_u_fns = cur_batch_U_fns \<rparr> st2 of
                      Inl e \<Rightarrow> (st2, Some e)
                    | Inr st3 \<Rightarrow> pair_analysis imp lamb_idx st3)))"

fun seq_loop ::
  "('p, 'u) fe_imports \<Rightarrow> ('p, 'u, 'c) custom_ops \<Rightarrow> MDParams \<Rightarrow> real \<Rightarrow> int list
     \<Rightarrow> nat \<Rightarrow> 'p InitialState list \<Rightarrow> seq_state \<Rightarrow> seq_state \<times> error option" where
  "seq_loop imp ops md temp keep_idxs lamb_idx [] st = (st, None)"
| "seq_loop imp ops md temp keep_idxs lamb_idx (initial_state # rest) st =
     (case seq_body imp ops md temp keep_idxs lamb_idx initial_state st of
        (st', Some e) \<Rightarrow> (st', Some e)
      | (st', None) \<Rightarrow> seq_loop imp ops md temp keep_idxs (Suc lamb_idx) rest st')"

text \<open>The state before the loop: \<^verbatim>\<open>tmp_states = [None] * len(initial_states)\<close>.\<close>

definition seq_init :: "nat \<Rightarrow> seq_state" where
  "seq_init n =
     \<lparr> stored_frames = [], stored_boxes = [], tmp_states = replicate n None,
       u_kln_by_component_by_lambda = [],
       tmp_states_log = [(Initialised, replicate n None)] \<rparr>"

text \<open>\<^verbatim>\<open>keep_idxs = keep_idxs or []\<close> and the assertion that follows it.\<close>

definition checked_keep_idxs :: "int list option \<Rightarrow> error + int list" where
  "checked_keep_idxs keep_idxs =
     (let ks = (case keep_idxs of None \<Rightarrow> [] | Some l \<Rightarrow> l)
      in if ks \<noteq> [] \<and> \<not> list_all (\<lambda>k. k \<ge> 0) ks then Inl (AssertionError []) else Inr ks)"

definition run_sequential_sims_given_initial_states ::
  "('p, 'u) fe_imports \<Rightarrow> ('p, 'u, 'c) custom_ops \<Rightarrow> 'p InitialState list \<Rightarrow> MDParams \<Rightarrow> real
     \<Rightarrow> int list option \<Rightarrow> error + (nparray \<times> array_obj list \<times> array_obj list)" where
  "run_sequential_sims_given_initial_states imp ops states md temp keep_idxs =
     (case checked_keep_idxs keep_idxs of
        Inl e \<Rightarrow> Inl e
      | Inr ks \<Rightarrow>
          (case seq_loop imp ops md temp ks 0 states
                  (seq_init (length states)) of
             (st, Some e) \<Rightarrow> Inl e
           | (st, None) \<Rightarrow>
               (case np_array (u_kln_by_component_by_lambda st) of
                  Inl e \<Rightarrow> Inl e
                | Inr u \<Rightarrow> Inr (u, stored_frames st, stored_boxes st))))"

section \<open>free\_energy.py: estimate\_free\_energy\_given\_initial\_states\<close>

text \<open>
  The two statements \<^verbatim>\<open>w_fwd = u_kln[1, 0] - u_kln[0, 0]\<close> and
  \<^verbatim>\<open>w_rev = u_kln[0, 1] - u_kln[1, 1]\<close>, evaluated left to right.
\<close>

definition reduced_works :: "nparray \<Rightarrow> error + (nparray \<times> nparray)" where
  "reduced_works u_kln =
     on_success (getitem2 u_kln 1 0) (\<lambda>u10.
     on_success (getitem2 u_kln 0 0) (\<lambda>u00.
     on_success (np_minus u10 u00) (\<lambda>w_fwd.
     on_success (getitem2 u_kln 0 1) (\<lambda>u01.
     on_success (getitem2 u_kln 1 1) (\<lambda>u11.
     on_success (np_minus u01 u11) (\<lambda>w_rev.
     Inr (w_fwd, w_rev)))))))"

text \<open>
  The body of the loop \<^verbatim>\<open>for lamb_idx, u_kln_by_component in enumerate(...)\<close>: the pair
  \<open>(dG, dG_err)\<close> it appends to \<^verbatim>\<open>all_dGs\<close> and \<^verbatim>\<open>all_errs\<close>. The printed message is
  left out.
\<close>

definition pair_bar :: "('p, 'u) fe_imports \<Rightarrow> real \<Rightarrow> nparray \<Rightarrow> error + (real \<times> real)" where
  "pair_bar imp beta u_kln_by_component =
     on_success (sum_axis0 u_kln_by_component) (\<lambda>u_kln.
     on_success (reduced_works u_kln) (\<lambda>(w_fwd, w_rev).
     on_success (bar_with_bootstrapped_uncertainty imp w_fwd w_rev) (\<lambda>(df, df_err).
     Inr (df / beta, df_err / beta))))"

text \<open>
  The whole function. \<^verbatim>\<open>beta = 1 / kBT\<close> raises \<^verbatim>\<open>ZeroDivisionError\<close> for \<open>kBT = 0\<close>;
  \<^verbatim>\<open>initial_states[0]\<close> raises \<^verbatim>\<open>IndexError\<close> on an empty ladder. An exception in the
  loop over the pairs ends the function, so the loop is a comprehension over
  \<open>pair_bar\<close>.
\<close>

definition estimate_free_energy_given_initial_states ::
  "('p, 'u) fe_imports \<Rightarrow> ('p, 'u, 'c) custom_ops \<Rightarrow> 'p InitialState list \<Rightarrow> MDParams \<Rightarrow> real
     \<Rightarrow> string \<Rightarrow> int list option \<Rightarrow> error + 'p SimulationResult" where
  "estimate_free_energy_given_initial_states imp ops states md temp prefix keep_idxs =
     on_success (run_sequential_sims_given_initial_states imp ops states md temp keep_idxs)
       (\<lambda>(u_klns, kept_frames, kept_boxes).
     let kBT = fe_imports.BOLTZ imp * temp in
     if kBT = 0 then Inl ZeroDivisionError
     else
       let beta = 1 / kBT in
       on_success (map_err (pair_bar imp beta) (rows u_klns)) (\<lambda>pairs.
       on_success (swapaxes01 u_klns) (\<lambda>ukln_by_lambda_by_component.
       on_success (sum_axis0 ukln_by_lambda_by_component) (\<lambda>summed.
       on_success (map_err (pair_overlap_from_ukln imp) (rows summed)) (\<lambda>overlaps.
       on_success (map_err (\<lambda>ukln_by_lambda.
                      map_err (\<lambda>u_kln. on_success (df_err_from_ukln imp u_kln) (\<lambda>d. Inr (d / beta)))
                        (rows ukln_by_lambda))
                    (rows ukln_by_lambda_by_component)) (\<lambda>dG_errs.
       on_success (map_err (\<lambda>ukln_by_lambda. map_err (pair_overlap_from_ukln imp) (rows ukln_by_lambda))
                    (rows ukln_by_lambda_by_component)) (\<lambda>overlaps_by_component.
       on_success (getitem states 0) (\<lambda>first_state.
       let U_names = map (type_name imp) (InitialState.potentials first_state);
           lambdas = map InitialState.lamb states
       in
       on_success (make_overlap_detail_figure imp U_names (map fst pairs) (map snd pairs)
                     u_klns temp prefix) (\<lambda>detail_png.
       on_success (make_dG_errs_figure imp U_names lambdas (map snd pairs) dG_errs) (\<lambda>errs_png.
       on_success (make_overlap_summary_figure imp U_names lambdas overlaps overlaps_by_component)
         (\<lambda>summary_png.
       Inr \<lparr> SimulationResult.all_dGs = map fst pairs,
             SimulationResult.all_errs = map snd pairs,
             dG_errs_by_lambda_by_component = dG_errs,
             overlaps_by_lambda = overlaps,
             overlaps_by_lambda_by_component = overlaps_by_component,
             dG_errs_png = errs_png,
             overlap_summary_png = summary_png,
             overlap_detail_png = detail_png,
             SimulationResult.frames = kept_frames,
             SimulationResult.boxes = kept_boxes,
             SimulationResult.initial_states = states,
             md_params = md \<rparr>)))))))))))"

section \<open>rbfe.py: estimate\_free\_energy\_given\_initial\_states\<close>

text \<open>
  \<^verbatim>\<open>get_batch_U_fns\<close>: one function per bound potential, which evaluates the potential
  on every frame of \<^verbatim>\<open>zip(xs, boxes)\<close> and keeps the energy \<open>U\<close>.
\<close>

definition get_batch_U_fns :: "('p, 'u, 'c) custom_ops \<Rightarrow> 'u list \<Rightarrow> real \<Rightarrow> batch_u_fn list" where
  "get_batch_U_fns ops bps lam =
     map (\<lambda>bp xs bxs.
            array1 (map (\<lambda>(x, box). case execute ops bp x box lam of (_, _, U) \<Rightarrow> U) (zip xs bxs)))
       bps"

text \<open>The decimal digits of a natural number, for the title of a plot.\<close>

function str_nat :: "nat \<Rightarrow> string" where
  "str_nat n =
     (if n < 10 then [char_of (48 + n)]
      else str_nat (n div 10) @ [char_of (48 + n mod 10)])"
  by pat_completeness auto
termination
  by (relation "measure id") auto

declare str_nat.simps [simp del]

text \<open>
  The two works of one energy term between the previous and the current window:
  \<^verbatim>\<open>fwd_delta_u = beta * (cur_U_fn(prev_frames, prev_boxes) - prev_U_fn(prev_frames, prev_boxes))\<close>
  and
  \<^verbatim>\<open>rev_delta_u = beta * (prev_U_fn(cur_frames, cur_boxes) - cur_U_fn(cur_frames, cur_boxes))\<close>.
\<close>

definition delta_us ::
  "real \<Rightarrow> ndarray list \<Rightarrow> ndarray list \<Rightarrow> ndarray list \<Rightarrow> ndarray list
     \<Rightarrow> batch_u_fn \<times> batch_u_fn \<Rightarrow> error + (nparray \<times> nparray)" where
  "delta_us beta pf pb cf cb fns =
     (case fns of
        (prev_U_fn, cur_U_fn) \<Rightarrow>
          on_success (np_minus (cur_U_fn pf pb) (prev_U_fn pf pb)) (\<lambda>d_fwd.
          on_success (np_minus (prev_U_fn cf cb) (cur_U_fn cf cb)) (\<lambda>d_rev.
          Inr (np_scale beta d_fwd, np_scale beta d_rev))))"

text \<open>
  The inner loop \<^verbatim>\<open>for u_idx, (prev_U_fn, cur_U_fn) in enumerate(zip(...))\<close>. It threads
  the figure and the two lists of works; \<open>row\<close> is \<^verbatim>\<open>lamb_idx - 1\<close>.
\<close>

fun component_loop ::
  "('p, 'f) rbfe_imports \<Rightarrow> real \<Rightarrow> int \<Rightarrow> string list
     \<Rightarrow> ndarray list \<Rightarrow> ndarray list \<Rightarrow> ndarray list \<Rightarrow> ndarray list
     \<Rightarrow> nat \<Rightarrow> (batch_u_fn \<times> batch_u_fn) list
     \<Rightarrow> 'f \<times> nparray list \<times> nparray list \<Rightarrow> error + ('f \<times> nparray list \<times> nparray list)" where
  "component_loop imp beta row U_names pf pb cf cb k [] acc = Inr acc"
| "component_loop imp beta row U_names pf pb cf cb k (fns # rest) acc =
     (case acc of
        (fig, all_fwd_delta_us, all_rev_delta_us) \<Rightarrow>
          on_success (delta_us beta pf pb cf cb fns) (\<lambda>(fwd_delta_u, rev_delta_u).
          on_success (BAR imp fwd_delta_u rev_delta_u) (\<lambda>(df, df_err).
          on_success (all_axes_getitem imp fig row (int k)) (\<lambda>plot_axis.
          on_success (getitem U_names k) (\<lambda>name.
          on_success (plot_BAR imp fig plot_axis df df_err fwd_delta_u rev_delta_u name) (\<lambda>fig'.
          component_loop imp beta row U_names pf pb cf cb (Suc k) rest
            (fig', all_fwd_delta_us @ [fwd_delta_u], all_rev_delta_us @ [rev_delta_u])))))))"

text \<open>\<^verbatim>\<open>np.sum(arrays, axis=0)\<close> for a list of arrays.\<close>

definition np_sum0 :: "nparray list \<Rightarrow> error + nparray" where
  "np_sum0 as = on_success (np_array as) sum_axis0"

text \<open>
  The block \<^verbatim>\<open>if lamb_idx > 0:\<close> of the loop, from the inner loop to the two appends.
  \<^verbatim>\<open>zip\<close> of an unset \<^verbatim>\<open>prev_batch_U_fns\<close> raises \<^verbatim>\<open>TypeError\<close>; reading an unbound
  \<^verbatim>\<open>u_idx\<close> raises \<^verbatim>\<open>NameError\<close>.
\<close>

definition pair_step ::
  "('p, 'f) rbfe_imports \<Rightarrow> real \<Rightarrow> string \<Rightarrow> string list \<Rightarrow> nat
     \<Rightarrow> array_obj \<Rightarrow> array_obj \<Rightarrow> batch_u_fn list \<Rightarrow> 'f rbfe_locals \<Rightarrow> error + 'f rbfe_locals" where
  "pair_step imp beta prefix U_names lamb_idx cur_frames cur_boxes cur_batch_U_fns loc =
     (case (prev_batch_U_fns loc, prev_frames loc, prev_boxes loc) of
        (Some prev_fns, Some pf, Some pb) \<Rightarrow>
          on_success (component_loop imp beta (int lamb_idx - 1) U_names
                        (obj_val pf) (obj_val pb) (obj_val cur_frames) (obj_val cur_boxes)
                        0 (zip prev_fns cur_batch_U_fns) (figure loc, [], []))
            (\<lambda>(fig1, all_fwd_delta_us, all_rev_delta_us).
          let last_u_idx = (if zip prev_fns cur_batch_U_fns = [] then u_idx loc
                            else Some (length (zip prev_fns cur_batch_U_fns) - 1))
          in
          on_success (np_sum0 all_fwd_delta_us) (\<lambda>total_fwd_delta_us.
          on_success (np_sum0 all_rev_delta_us) (\<lambda>total_rev_delta_us.
          on_success (BAR imp total_fwd_delta_us total_rev_delta_us) (\<lambda>(total_df, total_df_err).
          (case last_u_idx of
             None \<Rightarrow> Inl NameError
           | Some k \<Rightarrow>
               on_success (all_axes_getitem imp fig1 (int lamb_idx - 1) (int k + 1)) (\<lambda>plot_axis.
               on_success (plot_BAR imp fig1 plot_axis total_df total_df_err
                             total_fwd_delta_us total_rev_delta_us
                             (prefix @ ''_'' @ str_nat (lamb_idx - 1) @ ''_to_'' @ str_nat lamb_idx))
                 (\<lambda>fig2.
               Inr (loc \<lparr> rbfe_locals.all_dGs := rbfe_locals.all_dGs loc @ [total_df / beta],
                          rbfe_locals.all_errs := rbfe_locals.all_errs loc @ [total_df_err / beta],
                          u_idx := last_u_idx,
                          figure := fig2 \<rparr>))))))))
      | _ \<Rightarrow> Inl TypeError)"

text \<open>One iteration of the loop over the windows.\<close>

definition rbfe_body ::
  "('p, 'f) rbfe_imports \<Rightarrow> ('p, 'u, 'c) custom_ops \<Rightarrow> SimulationProtocol \<Rightarrow> real \<Rightarrow> string
     \<Rightarrow> int list \<Rightarrow> string list \<Rightarrow> nat \<Rightarrow> 'p rbfe_InitialState \<Rightarrow> 'f rbfe_locals
     \<Rightarrow> error + 'f rbfe_locals" where
  "rbfe_body imp ops proto beta prefix keep_idxs U_names lamb_idx initial_state loc =
     on_success (rbfe_sample ops initial_state proto) (\<lambda>(coords, bxs).
     let cur_frames = \<lparr> obj_id = FramesOf lamb_idx, obj_val = coords \<rparr>;
         cur_boxes = \<lparr> obj_id = BoxesOf lamb_idx, obj_val = bxs \<rparr>;
         bound_impls = map (bound_impl ops) (rbfe_InitialState.potentials initial_state);
         cur_batch_U_fns = get_batch_U_fns ops bound_impls (rbfe_InitialState.lamb initial_state);
         loc1 = (if int lamb_idx \<in> set keep_idxs
                 then loc \<lparr> rbfe_locals.stored_frames := rbfe_locals.stored_frames loc @ [cur_frames],
                            rbfe_locals.stored_boxes := rbfe_locals.stored_boxes loc @ [cur_boxes] \<rparr>
                 else loc)
     in
     on_success (if lamb_idx > 0
                 then pair_step imp beta prefix U_names lamb_idx cur_frames cur_boxes cur_batch_U_fns loc1
                 else Inr loc1) (\<lambda>loc2.
     Inr (loc2 \<lparr> prev_frames := Some cur_frames,
                 prev_boxes := Some cur_boxes,
                 prev_batch_U_fns := Some cur_batch_U_fns \<rparr>)))"

fun rbfe_loop ::
  "('p, 'f) rbfe_imports \<Rightarrow> ('p, 'u, 'c) custom_ops \<Rightarrow> SimulationProtocol \<Rightarrow> real \<Rightarrow> string
     \<Rightarrow> int list \<Rightarrow> string list \<Rightarrow> nat \<Rightarrow> 'p rbfe_InitialState list \<Rightarrow> 'f rbfe_locals
     \<Rightarrow> error + 'f rbfe_locals" where
  "rbfe_loop imp ops proto beta prefix keep_idxs U_names lamb_idx [] loc = Inr loc"
| "rbfe_loop imp ops proto beta prefix keep_idxs U_names lamb_idx (initial_state # rest) loc =
     on_success (rbfe_body imp ops proto beta prefix keep_idxs U_names lamb_idx initial_state loc)
       (rbfe_loop imp ops proto beta prefix keep_idxs U_names (Suc lamb_idx) rest)"

text \<open>The variables before the loop, on the figure \<^verbatim>\<open>plt.subplots\<close> returned.\<close>

definition rbfe_init :: "'f \<Rightarrow> 'f rbfe_locals" where
  "rbfe_init fig =
     \<lparr> rbfe_locals.all_dGs = [], rbfe_locals.all_errs = [],
       rbfe_locals.stored_frames = [], rbfe_locals.stored_boxes = [],
       prev_frames = None, prev_boxes = None, prev_batch_U_fns = None,
       u_idx = None, figure = fig \<rparr>"

definition rbfe_estimate_free_energy_given_initial_states ::
  "('p, 'f) rbfe_imports \<Rightarrow> ('p, 'u, 'c) custom_ops \<Rightarrow> 'p rbfe_InitialState list
     \<Rightarrow> SimulationProtocol \<Rightarrow> real \<Rightarrow> string \<Rightarrow> int list \<Rightarrow> error + 'p rbfe_SimulationResult" where
  "rbfe_estimate_free_energy_given_initial_states imp ops states proto temp prefix keep_idxs =
     (let kT = rbfe_imports.BOLTZ imp * temp in
      if kT = 0 then Inl ZeroDivisionError
      else
        let beta = 1 / kT in
        on_success (getitem states 0) (\<lambda>first_state.
        let U_names = map (repr_name imp) (rbfe_InitialState.potentials first_state);
            num_rows = int (length states) - 1;
            num_cols = int (length U_names) + 1
        in
        on_success (subplots imp num_rows num_cols) (\<lambda>fig.
        on_success (rbfe_loop imp ops proto beta prefix keep_idxs U_names 0 states (rbfe_init fig))
          (\<lambda>loc.
        on_success (savefig imp (figure loc)) (\<lambda>img_as_bytes.
        Inr \<lparr> rbfe_SimulationResult.all_dGs = rbfe_locals.all_dGs loc,
              rbfe_SimulationResult.all_errs = rbfe_locals.all_errs loc,
              plot_png = img_as_bytes,
              rbfe_SimulationResult.frames = rbfe_locals.stored_frames loc,
              rbfe_SimulationResult.boxes = rbfe_locals.stored_boxes loc,
              rbfe_SimulationResult.initial_states = states,
              protocol = proto \<rparr>)))))"

section \<open>rbfe.py: setup\_initial\_states, estimate\_relative\_free\_energy\<close>

text \<open>
  What \<^verbatim>\<open>setup_initial_states\<close> and \<^verbatim>\<open>estimate_relative_free_energy\<close> obtain from the
  single topology, the host configuration and the molecules, none of whose code is in
  the sources: the host's masses and minimised coordinates, the potentials and the
  barostat groups of the combined system at a lambda, the ligand's coordinates and
  masses, the box and the two molecule names.
\<close>

record 'p rbfe_system =
  host_masses :: "real list"
  host_conf :: ndarray
  get_U_fns :: "real \<Rightarrow> 'p list"
  bond_group_indices :: "real \<Rightarrow> nat list list"
  ligand_conf :: ndarray
  combine_masses :: "real list"
  box :: ndarray
  mol_a_name :: string
  mol_b_name :: string

definition setup_initial_states ::
  "'p rbfe_system \<Rightarrow> real \<Rightarrow> real list \<Rightarrow> int \<Rightarrow> 'p rbfe_InitialState list" where
  "setup_initial_states sys temp lambda_schedule sd =
     map (\<lambda>(lamb_idx, lam).
            let combined_conf = host_conf sys @ ligand_conf sys;
                run_seed = sd + int lamb_idx;
                combined_masses = host_masses sys @ combine_masses sys;
                intg = \<lparr> LangevinIntegrator.temperature = temp, dt = 1 / 1000, friction = 1,
                         masses = combined_masses, LangevinIntegrator.seed = run_seed \<rparr>;
                baro = \<lparr> N = length combined_masses, pressure = 1,
                         MonteCarloBarostat.temperature = temp,
                         group_idxs = bond_group_indices sys lam, interval = 15,
                         MonteCarloBarostat.seed = run_seed + 1 \<rparr>
            in \<lparr> rbfe_InitialState.potentials = get_U_fns sys lam,
                 rbfe_InitialState.integrator = intg,
                 rbfe_InitialState.barostat = baro,
                 rbfe_InitialState.x0 = combined_conf,
                 rbfe_InitialState.v0 = map (map (\<lambda>c. Finite 0)) combined_conf,
                 rbfe_InitialState.box0 = box sys,
                 rbfe_InitialState.lamb = lam \<rparr>)
       (zip [0..<length lambda_schedule] lambda_schedule)"

text \<open>The default lambda schedule: eleven values and their mirror images \<open>1 - lambda\<close>.\<close>

definition default_lambda_schedule :: "real list" where
  "default_lambda_schedule =
     (let half = [0, 1/100, 2/100, 4/100, 6/100, 8/100, 11/100, 15/100, 20/100, 32/100, 42/100]
      in half @ map (\<lambda>l. 1 - l) (rev half))"

text \<open>
  An exception of \<^verbatim>\<open>estimate_relative_free_energy\<close> is one of the exceptions above or a
  \<^verbatim>\<open>SimulationException\<close> with its three attributes and the exception it was raised from.
\<close>

datatype 'p exception =
    Exc error
  | SimulationException "'p rbfe_InitialState list" SimulationProtocol string error

definition estimate_relative_free_energy ::
  "('p, 'f) rbfe_imports \<Rightarrow> ('p, 'u, 'c) custom_ops \<Rightarrow> 'p rbfe_system \<Rightarrow> int \<Rightarrow> int \<Rightarrow> string
     \<Rightarrow> real list option \<Rightarrow> int list option \<Rightarrow> 'p exception + 'p rbfe_SimulationResult" where
  "estimate_relative_free_energy imp ops sys sd frames_per_window prefix lambda_schedule keep_idxs =
     (let schedule = (case lambda_schedule of None \<Rightarrow> default_lambda_schedule | Some l \<Rightarrow> l);
          temp = DEFAULT_TEMP imp;
          states = setup_initial_states sys temp schedule sd;
          proto = \<lparr> SimulationProtocol.n_frames = frames_per_window, burn_in = 10000,
                    SimulationProtocol.steps_per_frame = 1000 \<rparr>;
          keep = (case keep_idxs of None \<Rightarrow> [0, -1] | Some l \<Rightarrow> l)
      in
        if \<not> length keep \<le> length schedule then Inl (Exc (AssertionError []))
        else
          let combined_prefix = mol_a_name sys @ ''_'' @ mol_b_name sys @ ''_'' @ prefix
          in case rbfe_estimate_free_energy_given_initial_states imp ops states proto temp
                    combined_prefix keep of
               Inr result \<Rightarrow> Inr result
             | Inl old_exc \<Rightarrow> Inl (SimulationException states proto combined_prefix old_exc))"

section \<open>The engine's contract, and an engine to run the definitions on\<close>

text \<open>
  What the sources expect of the engine: a call that advances \<open>n \<ge> 0\<close> steps and stores
  coordinates every \<open>k > 0\<close> steps returns \<open>n div k\<close> frames and as many boxes
  (\<open>records_strided\<close>, \<open>records_strided_lamb\<close> for the two call signatures).
  \<open>stays_finite ops good\<close> says that the simulation does not blow up from the contexts
  that satisfy \<open>good\<close>: a call from such a context ends in such a context, whose
  coordinates are finite, and returns finite frames. These are hypotheses of the
  theorems that say a sampler returns, never of those that say what it returns.
\<close>

definition records_strided :: "('p, 'u, 'c) custom_ops \<Rightarrow> bool" where
  "records_strided ops =
     (\<forall>c n su k. 0 \<le> n \<and> 0 < k \<longrightarrow>
        (case multiple_steps_U ops c n su k of
           (_, _, xs, bs) \<Rightarrow> int (length xs) = n div k \<and> int (length bs) = n div k))"

definition records_strided_lamb :: "('p, 'u, 'c) custom_ops \<Rightarrow> bool" where
  "records_strided_lamb ops =
     (\<forall>c l n ws su k. 0 \<le> n \<and> 0 < k \<longrightarrow>
        (case multiple_steps_U_lamb ops c l n ws su k of
           (_, _, xs, bs) \<Rightarrow> int (length xs) = n div k \<and> int (length bs) = n div k))"

definition stays_finite :: "('p, 'u, 'c) custom_ops \<Rightarrow> ('c \<Rightarrow> bool) \<Rightarrow> bool" where
  "stays_finite ops good =
     (\<forall>c n su k. good c \<longrightarrow>
        (case multiple_steps_U ops c n su k of
           (c', _, xs, _) \<Rightarrow> good c' \<and> all_isfinite (get_x_t ops c') \<and> list_all all_isfinite xs))"

text \<open>
  \<open>demo_ops blows_up\<close> is an engine for one particle. Its context is the current
  coordinate array; a call of either stepping function moves the particle by the number
  of steps (or to NaN when \<open>blows_up\<close> holds) and records the coordinates reached and a
  unit box \<open>n div k\<close> times. The energy of bound potential \<open>u\<close> is \<open>u\<close> times the
  number of rows of the frame, plus \<open>lamb\<close>. \<open>demo_state k\<close> and \<open>demo_rbfe_state k\<close>
  are the initial states of window \<open>k\<close> of a ladder with \<open>lamb = k / 2\<close>.
\<close>

definition demo_box :: ndarray where
  "demo_box = [[Finite 1, Finite 0, Finite 0], [Finite 0, Finite 1, Finite 0], [Finite 0, Finite 0, Finite 1]]"

fun demo_move :: "bool \<Rightarrow> int \<Rightarrow> coord \<Rightarrow> coord" where
  "demo_move True n _ = NaN"
| "demo_move False n (Finite r) = Finite (r + of_int n)"
| "demo_move False n c = c"

definition demo_steps :: "bool \<Rightarrow> ndarray \<Rightarrow> int \<Rightarrow> int \<Rightarrow> ndarray \<times> real list \<times> ndarray list \<times> ndarray list" where
  "demo_steps blows_up c n k =
     (let c' = map (map (demo_move blows_up n)) c;
          m = (if 0 < k then nat (n div k) else 0)
      in (c', [], replicate m c', replicate m demo_box))"

definition demo_ops :: "bool \<Rightarrow> (nat, nat, ndarray) custom_ops" where
  "demo_ops blows_up =
     \<lparr> bound_impl = (\<lambda>p. p),
       Context = (\<lambda>x v b i us ba. x),
       multiple_steps_U = (\<lambda>c n su k. demo_steps blows_up c n k),
       multiple_steps_U_lamb = (\<lambda>c l n ws su k. demo_steps blows_up c n k),
       get_x_t = (\<lambda>c. c),
       execute = (\<lambda>u x b l. ([], 0, real u * real (length x) + l)) \<rparr>"

definition demo_integrator :: LangevinIntegrator where
  "demo_integrator =
     \<lparr> LangevinIntegrator.temperature = 300, dt = 1 / 1000, friction = 1, masses = [1],
       LangevinIntegrator.seed = 2022 \<rparr>"

definition demo_barostat :: MonteCarloBarostat where
  "demo_barostat =
     \<lparr> N = 1, pressure = 1, MonteCarloBarostat.temperature = 300, group_idxs = [[0]],
       interval = 15, MonteCarloBarostat.seed = 2023 \<rparr>"

definition demo_state :: "nat \<Rightarrow> nat InitialState" where
  "demo_state k =
     \<lparr> InitialState.potentials = [k + 1, 2 * k + 1], InitialState.integrator = demo_integrator,
       InitialState.barostat = Some demo_barostat,
       InitialState.x0 = [[Finite 0, Finite 0, Finite 0]],
       InitialState.v0 = [[Finite 0, Finite 0, Finite 0]],
       InitialState.box0 = demo_box, InitialState.lamb = real k / 2, ligand_idxs = [0] \<rparr>"

definition demo_rbfe_state :: "nat \<Rightarrow> nat rbfe_InitialState" where
  "demo_rbfe_state k =
     \<lparr> rbfe_InitialState.potentials = [k + 1, 2 * k + 1], rbfe_InitialState.integrator = demo_integrator,
       rbfe_InitialState.barostat = demo_barostat,
       rbfe_InitialState.x0 = [[Finite 0, Finite 0, Finite 0]],
       rbfe_InitialState.v0 = [[Finite 0, Finite 0, Finite 0]],
       rbfe_InitialState.box0 = demo_box, rbfe_InitialState.lamb = real k / 2 \<rparr>"

definition demo_md_params :: MDParams where
  "demo_md_params = \<lparr> MDParams.n_frames = 3, n_eq_steps = 4, MDParams.steps_per_frame = 2 \<rparr>"

definition demo_protocol :: SimulationProtocol where
  "demo_protocol =
     \<lparr> SimulationProtocol.n_frames = 3, burn_in = 4, SimulationProtocol.steps_per_frame = 2 \<rparr>"

text \<open>
  Modelled from the spec: \<^verbatim>\<open>compute_energy_decomposed_u_kln\<close> (timemachine.fe.energy\_decomposition
  is not among the sources). Given the previous and the current state it evaluates, for every
  term and every frame of each state, the term's energy under both states' evaluators; the
  result has the layout [component] x [energy function index] x [sampled-state index] x
  [frame]. Anything but a pair of constructed states is refused.
\<close>

definition energy_decomposed_u_kln :: "EnergyDecomposedState option list \<Rightarrow> error + nparray" where
  "energy_decomposed_u_kln states =
     (case states of
        [Some a, Some b] \<Rightarrow>
          Inr \<lparr> shape = [length (batch_u_fns a), 2, 2, length (obj_val (frames a))],
                item = (\<lambda>idx. case idx of
                          [c, k, l, f] \<Rightarrow>
                            (if c < length (batch_u_fns a) \<and> k < 2 \<and> l < 2
                             then item ((batch_u_fns ([a, b] ! k) ! c)
                                          (obj_val (frames ([a, b] ! l)))
                                          (obj_val (boxes ([a, b] ! l)))) [f]
                             else 0)
                        | _ \<Rightarrow> 0) \<rparr>
      | _ \<Rightarrow> Inl (ExternalError ''compute_energy_decomposed_u_kln''))"

text \<open>
  Imports to run the definitions on: reduced energies of the engine above, the
  decomposition just defined, and an estimator that returns half the difference of the
  first forward and the first reverse work with a fixed error.
\<close>

definition demo_imports :: "(nat, nat) fe_imports" where
  "demo_imports =
     \<lparr> BOLTZ = 1 / 100,
       get_batch_u_fns =
         (\<lambda>us temp. map (\<lambda>u xs bs. array1 (map (\<lambda>x. real u * real (length x) / (temp / 100)) xs)) us),
       compute_energy_decomposed_u_kln = energy_decomposed_u_kln,
       bar_with_bootstrapped_uncertainty = (\<lambda>w_fwd w_rev. Inr ((item w_fwd [0] - item w_rev [0]) / 2, 1 / 10)),
       df_err_from_ukln = (\<lambda>u. Inr (1 / 10)),
       pair_overlap_from_ukln = (\<lambda>u. Inr (1 / 2)),
       type_name = (\<lambda>p. ''Potential''),
       make_overlap_detail_figure = (\<lambda>names dGs errs u temp prefix. Inr []),
       make_dG_errs_figure = (\<lambda>names lambdas errs by_component. Inr []),
       make_overlap_summary_figure = (\<lambda>names lambdas overlaps by_component. Inr []) \<rparr>"

definition demo_ladder :: "nat InitialState list" where
  "demo_ladder = [demo_state 0, demo_state 1, demo_state 2]"

section \<open>What the sliding window holds\<close>

text \<open>The number of \<^verbatim>\<open>EnergyDecomposedState\<close> instances a value of \<^verbatim>\<open>tmp_states\<close> holds.\<close>

definition held :: "'a option list \<Rightarrow> nat" where
  "held ts = length (filter (\<lambda>t. t \<noteq> None) ts)"

text \<open>
  What is expected of \<^verbatim>\<open>tmp_states\<close> at a logged point: nothing is held after the
  initialisation; after the statement that frees, index \<open>i - 2\<close> is \<^verbatim>\<open>None\<close> (for
  \<open>i \<ge> 2\<close>) and at most one state is held; after the construction for window \<open>i\<close> that
  state is there and at most two are held.
\<close>

fun point_ok :: "log_point \<times> EnergyDecomposedState option list \<Rightarrow> bool" where
  "point_ok (Initialised, snap) = (held snap = 0)"
| "point_ok (Freed i, snap) = (held snap \<le> 1 \<and> (2 \<le> i \<longrightarrow> snap ! (i - 2) = None))"
| "point_ok (Constructed i, snap) = (held snap \<le> 2 \<and> snap ! i \<noteq> None)"

text \<open>\<^verbatim>\<open>tmp_states\<close> after the statement that frees, and the state constructed for a window.\<close>

definition freed_states :: "nat \<Rightarrow> 'a option list \<Rightarrow> 'a option list" where
  "freed_states i ts = (if 2 \<le> i then ts[i - 2 := None] else ts)"

definition built_state ::
  "('p, 'u) fe_imports \<Rightarrow> ('p, 'u, 'c) custom_ops \<Rightarrow> real \<Rightarrow> nat \<Rightarrow> 'p InitialState
    \<Rightarrow> ndarray list \<Rightarrow> ndarray list \<Rightarrow> EnergyDecomposedState" where
  "built_state imp ops temp i s coords bxs =
     \<lparr> frames = \<lparr> obj_id = FramesOf i, obj_val = coords \<rparr>,
       boxes = \<lparr> obj_id = BoxesOf i, obj_val = bxs \<rparr>,
       batch_u_fns = get_batch_u_fns imp (map (bound_impl ops) (InitialState.potentials s)) temp \<rparr>"

text \<open>
  The loop invariant at the head of iteration \<open>i\<close>: only the entries \<open>i - 2\<close> and
  \<open>i - 1\<close> of \<^verbatim>\<open>tmp_states\<close> can hold a state, every logged point was as expected, and
  the last logged value is the current value of \<^verbatim>\<open>tmp_states\<close>.
\<close>

definition live_within :: "nat \<Rightarrow> 'a option list \<Rightarrow> bool" where
  "live_within i ts = (\<forall>j < length ts. ts ! j \<noteq> None \<longrightarrow> j < i \<and> i \<le> j + 2)"

definition win_inv :: "nat \<Rightarrow> seq_state \<Rightarrow> bool" where
  "win_inv i st =
     (live_within i (tmp_states st) \<and> list_all point_ok (tmp_states_log st)
      \<and> tmp_states_log st \<noteq> [] \<and> tmp_states st = snd (last (tmp_states_log st)))"

text \<open>
  Imports and a system to run rbfe.py on: the figure is the list of the axes drawn so
  far, the estimator is the one of \<open>demo_imports\<close>, and the potentials of the system are
  those of \<open>demo_rbfe_state\<close> at \<open>lamb = 0, 1/2, 1\<close>.
\<close>

definition demo_rbfe_imports :: "(nat, (int \<times> int) list) rbfe_imports" where
  "demo_rbfe_imports =
     \<lparr> rbfe_imports.BOLTZ = 1 / 100,
       DEFAULT_TEMP = 300,
       BAR = (\<lambda>w_fwd w_rev. Inr ((item w_fwd [0] - item w_rev [0]) / 2, 1 / 10)),
       subplots = (\<lambda>num_rows num_cols. Inr []),
       all_axes_getitem = (\<lambda>fig row col. Inr (row, col)),
       plot_BAR = (\<lambda>fig ax df df_err fwd rev title. Inr (fig @ [ax])),
       savefig = (\<lambda>fig. Inr (map (\<lambda>(row, col). nat (row + col)) fig)),
       repr_name = (\<lambda>p. ''Potential'') \<rparr>"

definition demo_system :: "nat rbfe_system" where
  "demo_system =
     \<lparr> host_masses = [1],
       host_conf = [[Finite 0, Finite 0, Finite 0]],
       get_U_fns = (\<lambda>l. [nat \<lfloor>2 * l\<rfloor> + 1, nat \<lfloor>4 * l\<rfloor> + 1]),
       bond_group_indices = (\<lambda>l. [[0], [1]]),
       ligand_conf = [[Finite 1, Finite 1, Finite 1]],
       combine_masses = [12],
       box = demo_box,
       mol_a_name = ''a'',
       mol_b_name = ''b'' \<rparr>"

section \<open>The claims' words as definitions\<close>

text \<open>
  The total energy of a state at one frame: the sum over its bound potentials of the
  energy \<open>U\<close> the engine returns.
\<close>

definition U_total :: "('p, 'u, 'c) custom_ops \<Rightarrow> 'u list \<Rightarrow> real \<Rightarrow> ndarray \<Rightarrow> ndarray \<Rightarrow> real" where
  "U_total ops bps lam x bx =
     sum_list (map (\<lambda>bp. case execute ops bp x bx lam of (_, _, U) \<Rightarrow> U) bps)"

text \<open>
  The reported total of a pair in the words of the claim: BAR applied to the works
  summed over the energy terms, divided by \<open>beta\<close>. There is no estimate per term and no
  plot in it.
\<close>

definition summed_work_bar ::
  "('p, 'f) rbfe_imports \<Rightarrow> real \<Rightarrow> ndarray list \<Rightarrow> ndarray list \<Rightarrow> ndarray list \<Rightarrow> ndarray list
     \<Rightarrow> batch_u_fn list \<Rightarrow> batch_u_fn list \<Rightarrow> error + (real \<times> real)" where
  "summed_work_bar imp beta pf pb cf cb prev_fns cur_fns =
     on_success (map_err (delta_us beta pf pb cf cb) (zip prev_fns cur_fns)) (\<lambda>works.
     on_success (np_sum0 (map fst works)) (\<lambda>total_fwd.
     on_success (np_sum0 (map snd works)) (\<lambda>total_rev.
     on_success (BAR imp total_fwd total_rev) (\<lambda>(total_df, total_df_err).
     Inr (total_df / beta, total_df_err / beta)))))"

text \<open>
  The frames, boxes and batch energy functions of window \<open>i\<close> in a run of rbfe.py that
  gets that far.
\<close>

definition rbfe_window_frames ::
  "('p, 'u, 'c) custom_ops \<Rightarrow> SimulationProtocol \<Rightarrow> 'p rbfe_InitialState list \<Rightarrow> nat \<Rightarrow> array_obj" where
  "rbfe_window_frames ops proto states i =
     \<lparr> obj_id = FramesOf i, obj_val = fst (projr (rbfe_sample ops (states ! i) proto)) \<rparr>"

definition rbfe_window_boxes ::
  "('p, 'u, 'c) custom_ops \<Rightarrow> SimulationProtocol \<Rightarrow> 'p rbfe_InitialState list \<Rightarrow> nat \<Rightarrow> array_obj" where
  "rbfe_window_boxes ops proto states i =
     \<lparr> obj_id = BoxesOf i, obj_val = snd (projr (rbfe_sample ops (states ! i) proto)) \<rparr>"

definition rbfe_window_fns ::
  "('p, 'u, 'c) custom_ops \<Rightarrow> 'p rbfe_InitialState list \<Rightarrow> nat \<Rightarrow> batch_u_fn list" where
  "rbfe_window_fns ops states i =
     get_batch_U_fns ops (map (bound_impl ops) (rbfe_InitialState.potentials (states ! i)))
       (rbfe_InitialState.lamb (states ! i))"

text \<open>
  The two objects the sampler call of window \<open>i\<close> returns in a run that gets that far:
  \<open>projr\<close> reads the result of a call that did not raise.
\<close>

definition sampled_frames ::
  "('p, 'u, 'c) custom_ops \<Rightarrow> MDParams \<Rightarrow> 'p InitialState list \<Rightarrow> nat \<Rightarrow> array_obj" where
  "sampled_frames ops md states i =
     \<lparr> obj_id = FramesOf i, obj_val = fst (projr (sample ops (states ! i) md None)) \<rparr>"

definition sampled_boxes ::
  "('p, 'u, 'c) custom_ops \<Rightarrow> MDParams \<Rightarrow> 'p InitialState list \<Rightarrow> nat \<Rightarrow> array_obj" where
  "sampled_boxes ops md states i =
     \<lparr> obj_id = BoxesOf i, obj_val = snd (projr (sample ops (states ! i) md None)) \<rparr>"

text \<open>
  The invariant of the loop over the windows in rbfe.py at the head of iteration \<open>i\<close>:
  the stored frames and boxes are those of the windows below \<open>i\<close> whose index is in
  \<^verbatim>\<open>keep_idxs\<close>, the three \<^verbatim>\<open>prev_\<close> variables hold the objects of window \<open>i - 1\<close>,
  there is one reported total per adjacent pair below \<open>i\<close>, each the summed-work BAR
  estimate of its pair, and every window below \<open>i\<close> was sampled without an exception.
\<close>

definition rbfe_inv ::
  "('p, 'f) rbfe_imports \<Rightarrow> ('p, 'u, 'c) custom_ops \<Rightarrow> SimulationProtocol \<Rightarrow> real \<Rightarrow> int list
     \<Rightarrow> 'p rbfe_InitialState list \<Rightarrow> nat \<Rightarrow> 'f rbfe_locals \<Rightarrow> bool" where
  "rbfe_inv imp ops proto beta keep states i loc =
     (rbfe_locals.stored_frames loc
        = map (rbfe_window_frames ops proto states) (filter (\<lambda>j. int j \<in> set keep) [0..<i])
      \<and> rbfe_locals.stored_boxes loc
        = map (rbfe_window_boxes ops proto states) (filter (\<lambda>j. int j \<in> set keep) [0..<i])
      \<and> (0 < i \<longrightarrow> prev_frames loc = Some (rbfe_window_frames ops proto states (i - 1))
                 \<and> prev_boxes loc = Some (rbfe_window_boxes ops proto states (i - 1))
                 \<and> prev_batch_U_fns loc = Some (rbfe_window_fns ops states (i - 1)))
      \<and> length (rbfe_locals.all_dGs loc) = i - 1 \<and> length (rbfe_locals.all_errs loc) = i - 1
      \<and> (\<forall>j. Suc j < i \<longrightarrow>
            summed_work_bar imp beta
              (obj_val (rbfe_window_frames ops proto states j)) (obj_val (rbfe_window_boxes ops proto states j))
              (obj_val (rbfe_window_frames ops proto states (Suc j)))
              (obj_val (rbfe_window_boxes ops proto states (Suc j)))
              (rbfe_window_fns ops states j) (rbfe_window_fns ops states (Suc j))
            = Inr (rbfe_locals.all_dGs loc ! j, rbfe_locals.all_errs loc ! j))
      \<and> (\<forall>j < i. \<exists>c b. rbfe_sample ops (states ! j) proto = Inr (c, b)))"

text \<open>
  The \<^verbatim>\<open>EnergyDecomposedState\<close> the sequential runner constructs for window \<open>i\<close> in a run
  that gets that far, and the call of \<^verbatim>\<open>compute_energy_decomposed_u_kln\<close> on the states of
  the windows \<open>j\<close> and \<open>j + 1\<close>.
\<close>

definition window_state ::
  "('p, 'u) fe_imports \<Rightarrow> ('p, 'u, 'c) custom_ops \<Rightarrow> MDParams \<Rightarrow> real \<Rightarrow> 'p InitialState list
     \<Rightarrow> nat \<Rightarrow> EnergyDecomposedState" where
  "window_state imp ops md temp states i =
     \<lparr> frames = sampled_frames ops md states i,
       boxes = sampled_boxes ops md states i,
       batch_u_fns = get_batch_u_fns imp (map (bound_impl ops) (InitialState.potentials (states ! i))) temp \<rparr>"

definition pair_tensor ::
  "('p, 'u) fe_imports \<Rightarrow> ('p, 'u, 'c) custom_ops \<Rightarrow> MDParams \<Rightarrow> real \<Rightarrow> 'p InitialState list
     \<Rightarrow> nat \<Rightarrow> error + nparray" where
  "pair_tensor imp ops md temp states j =
     compute_energy_decomposed_u_kln imp
       [Some (window_state imp ops md temp states j), Some (window_state imp ops md temp states (Suc j))]"

section \<open>Properties of batches\<close>

lemma yield_range_replicate: "yield_range k b = replicate k b"
  by (induction k) simp_all

lemma batches_Inr:
  assumes "0 \<le> n" and "0 < b"
  shows "batches n b = Inr (replicate (nat (n div b)) b @ (if n mod b \<noteq> 0 then [n mod b] else []))"
  using assms by (simp add: batches_def Let_def yield_range_replicate)

lemma sum_list_replicate_int: "sum_list (replicate k (b::int)) = int k * b"
  by (induction k) (simp_all add: algebra_simps)

lemma batches_sum:
  assumes "0 \<le> n" and "0 < b" and "batches n b = Inr xs"
  shows "sum_list xs = n"
proof -
  have q: "0 \<le> n div b" using assms by (simp add: pos_imp_zdiv_nonneg_iff)
  have "xs = replicate (nat (n div b)) b @ (if n mod b \<noteq> 0 then [n mod b] else [])"
    using assms batches_Inr by simp
  then have "sum_list xs = int (nat (n div b)) * b + n mod b"
    by (simp add: sum_list_replicate_int)
  also have "\<dots> = n div b * b + n mod b" using q by simp
  also have "\<dots> = n" by simp
  finally show ?thesis .
qed

lemma batches_all_but_last:
  assumes "0 \<le> n" and "0 < b" and "batches n b = Inr xs" and "Suc i < length xs"
  shows "xs ! i = b"
proof -
  have xs: "xs = replicate (nat (n div b)) b @ (if n mod b \<noteq> 0 then [n mod b] else [])"
    using assms batches_Inr by simp
  have "i < nat (n div b)" using assms(4) unfolding xs by (simp split: if_splits)
  then show ?thesis unfolding xs by (simp add: nth_append)
qed

lemma batches_last:
  assumes "0 \<le> n" and "0 < b" and "batches n b = Inr xs" and "xs \<noteq> []"
  shows "1 \<le> last xs \<and> last xs \<le> b"
proof -
  have xs: "xs = replicate (nat (n div b)) b @ (if n mod b \<noteq> 0 then [n mod b] else [])"
    using assms batches_Inr by simp
  show ?thesis
  proof (cases "n mod b = 0")
    case True
    then have "xs = replicate (nat (n div b)) b" using xs by simp
    moreover from this assms(4) have "nat (n div b) \<noteq> 0" by auto
    ultimately have "last xs = b" by simp
    then show ?thesis using assms(2) by simp
  next
    case False
    then have "last xs = n mod b" using xs by simp
    moreover have "0 \<le> n mod b" "n mod b < b" using assms(2) by simp_all
    ultimately show ?thesis using False by simp
  qed
qed

text \<open>
  Claim C3. For \<open>n \<ge> 0\<close> and \<open>batch_size > 0\<close>, \<open>batches n batch_size\<close> yields integers
  that sum to \<open>n\<close>; every yielded value but possibly the last is \<open>batch_size\<close> and the
  last one lies in \<open>[1, batch_size]\<close>. \<open>batches 0 k\<close> yields nothing. A
  \<open>batch_size \<le> 0\<close> fails the assertion and yields nothing.
\<close>

theorem batches_split:
  "(0 \<le> n \<and> 0 < batch_size \<longrightarrow>
      (\<exists>xs. batches n batch_size = Inr xs \<and> sum_list xs = n
            \<and> (\<forall>i. Suc i < length xs \<longrightarrow> xs ! i = batch_size)
            \<and> (xs \<noteq> [] \<longrightarrow> 1 \<le> last xs \<and> last xs \<le> batch_size)))
   \<and> (0 < k \<longrightarrow> batches 0 k = Inr [])
   \<and> (batch_size \<le> 0 \<longrightarrow> (\<exists>msg. batches n batch_size = Inl (AssertionError msg)))"
proof (intro conjI impI)
  assume h: "0 \<le> n \<and> 0 < batch_size"
  then obtain xs where xs: "batches n batch_size = Inr xs"
    using batches_Inr by blast
  have "sum_list xs = n" using h xs batches_sum by blast
  moreover have "\<forall>i. Suc i < length xs \<longrightarrow> xs ! i = batch_size"
    using h xs batches_all_but_last by blast
  moreover have "xs \<noteq> [] \<longrightarrow> 1 \<le> last xs \<and> last xs \<le> batch_size"
    using h xs batches_last by blast
  ultimately show "\<exists>xs. batches n batch_size = Inr xs \<and> sum_list xs = n
            \<and> (\<forall>i. Suc i < length xs \<longrightarrow> xs ! i = batch_size)
            \<and> (xs \<noteq> [] \<longrightarrow> 1 \<le> last xs \<and> last xs \<le> batch_size)"
    using xs by blast
next
  assume "0 < k"
  then show "batches 0 k = Inr []" by (simp add: batches_def)
next
  assume "batch_size \<le> 0"
  then show "\<exists>msg. batches n batch_size = Inl (AssertionError msg)"
    by (simp add: batches_def)
qed

theorem batches_split_witness:
  "(0::int) \<le> 7 \<and> (0::int) < 3 \<and> batches 7 3 = Inr [3, 3, 1] \<and> sum_list [3, 3, 1 :: int] = 7
   \<and> batches 0 3 = Inr []
   \<and> (-1::int) \<le> 0 \<and> batches 7 (-1) = Inl (AssertionError [])"
  using batches_split [of 7 3 3] batches_split [of 7 "-1" 3]
  by (simp add: batches_def Let_def eval_nat_numeral)

section \<open>Properties of the samplers\<close>

lemma sample_post:
  assumes "sample ops s md mb = Inr (xs, bs)"
  shows "int (length xs) = MDParams.n_frames md \<and> int (length bs) = MDParams.n_frames md
         \<and> xs \<noteq> [] \<and> all_isfinite (last xs)"
  using assms
  by (auto simp: sample_def Let_def split: sum.splits prod.splits if_splits)

lemma rbfe_sample_post:
  assumes "rbfe_sample ops s p = Inr (xs, bs)"
  shows "int (length xs) = SimulationProtocol.n_frames p \<and> int (length bs) = SimulationProtocol.n_frames p"
  using assms
  by (auto simp: rbfe_sample_def Let_def split: sum.splits prod.splits if_splits)

lemma run_production_steps_length:
  assumes "records_strided ops" and "0 \<le> n" and "0 < MDParams.steps_per_frame md"
    and "run_production_steps ops md c (n * MDParams.steps_per_frame md) = (c', xs, bs)"
  shows "int (length xs) = n \<and> int (length bs) = n"
proof -
  obtain c1 us xs1 bs1 where m: "multiple_steps_U ops c (n * MDParams.steps_per_frame md) 0 (MDParams.steps_per_frame md) = (c1, us, xs1, bs1)"
    by (metis prod_cases4)
  have "0 \<le> n * MDParams.steps_per_frame md" using assms(2,3) by simp
  with assms(1,3) m have "int (length xs1) = n * MDParams.steps_per_frame md div MDParams.steps_per_frame md
        \<and> int (length bs1) = n * MDParams.steps_per_frame md div MDParams.steps_per_frame md"
    unfolding records_strided_def by (metis (mono_tags, lifting) case_prod_conv)
  moreover have "xs = xs1" "bs = bs1" using assms(4) m by (simp_all add: run_production_steps_def)
  ultimately show ?thesis using assms(3) by simp
qed

lemma run_production_steps_finite:
  assumes "stays_finite ops good" and "good c" and "run_production_steps ops md c n = (c', xs, bs)"
  shows "good c' \<and> list_all all_isfinite xs"
proof -
  obtain c1 us xs1 bs1 where m: "multiple_steps_U ops c n 0 (MDParams.steps_per_frame md) = (c1, us, xs1, bs1)"
    by (metis prod_cases4)
  with assms(1,2) have "good c1 \<and> list_all all_isfinite xs1"
    unfolding stays_finite_def by (metis (mono_tags, lifting) case_prod_conv)
  moreover have "xs = xs1" "c' = c1" using assms(3) m by (simp_all add: run_production_steps_def)
  ultimately show ?thesis by simp
qed

lemma production_batches_length:
  assumes "records_strided ops" and "0 < MDParams.steps_per_frame md" and "\<forall>n\<in>set ns. 0 \<le> n"
    and "production_batches ops md ns c xs bs = (c', xs', bs')"
  shows "int (length xs') = int (length xs) + sum_list ns \<and> int (length bs') = int (length bs) + sum_list ns"
  using assms(3,4)
proof (induction ns arbitrary: c xs bs)
  case Nil
  then show ?case by simp
next
  case (Cons n ns)
  obtain c1 bx bb where r: "run_production_steps ops md c (n * MDParams.steps_per_frame md) = (c1, bx, bb)"
    by (metis prod_cases3)
  have n: "0 \<le> n" using Cons.prems(1) by simp
  have l: "int (length bx) = n \<and> int (length bb) = n"
    using run_production_steps_length [OF assms(1) n assms(2) r] .
  have "production_batches ops md ns c1 (xs @ bx) (bs @ bb) = (c', xs', bs')"
    using Cons.prems(2) r by simp
  moreover have "\<forall>n\<in>set ns. 0 \<le> n" using Cons.prems(1) by simp
  ultimately have "int (length xs') = int (length (xs @ bx)) + sum_list ns
       \<and> int (length bs') = int (length (bs @ bb)) + sum_list ns"
    using Cons.IH by blast
  then show ?case using l by simp
qed

lemma production_batches_finite:
  assumes "stays_finite ops good" and "good c" and "list_all all_isfinite xs"
    and "production_batches ops md ns c xs bs = (c', xs', bs')"
  shows "list_all all_isfinite xs'"
  using assms(2,3,4)
proof (induction ns arbitrary: c xs bs)
  case Nil
  then show ?case by simp
next
  case (Cons n ns)
  obtain c1 bx bb where r: "run_production_steps ops md c (n * MDParams.steps_per_frame md) = (c1, bx, bb)"
    by (metis prod_cases3)
  have g: "good c1 \<and> list_all all_isfinite bx"
    using run_production_steps_finite [OF assms(1) Cons.prems(1) r] .
  then have "list_all all_isfinite (xs @ bx)" using Cons.prems(2) by simp
  moreover have "production_batches ops md ns c1 (xs @ bx) (bs @ bb) = (c', xs', bs')"
    using Cons.prems(3) r by simp
  ultimately show ?case using Cons.IH g by blast
qed

lemma batches_nonneg:
  assumes "0 \<le> n" and "0 < b" and "batches n b = Inr xs"
  shows "\<forall>x\<in>set xs. 0 \<le> x"
proof -
  have xs: "xs = replicate (nat (n div b)) b @ (if n mod b \<noteq> 0 then [n mod b] else [])"
    using assms batches_Inr by simp
  have "0 \<le> n mod b" using assms(2) by simp
  then show ?thesis unfolding xs using assms(2) by auto
qed

lemma production_ok:
  assumes "records_strided ops" and "stays_finite ops good" and "good c"
    and "0 \<le> MDParams.n_frames md" and "0 < MDParams.steps_per_frame md"
    and "mb = None \<or> (\<exists>m. mb = Some m \<and> 0 \<le> m)"
  shows "\<exists>c' xs bs. production ops md mb c = Inr (c', xs, bs)
           \<and> int (length xs) = MDParams.n_frames md \<and> int (length bs) = MDParams.n_frames md
           \<and> list_all all_isfinite xs"
proof (cases "truthy mb")
  case True
  then obtain m where m: "mb = Some m" "0 < m" using assms(6) by (cases mb) auto
  obtain ns where ns: "batches (MDParams.n_frames md) m = Inr ns"
    using batches_Inr [OF assms(4) m(2)] by blast
  obtain c' xs bs where p: "production_batches ops md ns c [] [] = (c', xs, bs)"
    by (metis prod_cases3)
  have "int (length xs) = int (length ([]::ndarray list)) + sum_list ns
      \<and> int (length bs) = int (length ([]::ndarray list)) + sum_list ns"
    using production_batches_length [OF assms(1) assms(5) batches_nonneg [OF assms(4) m(2) ns] p] .
  moreover have "sum_list ns = MDParams.n_frames md" using batches_sum [OF assms(4) m(2) ns] .
  moreover have "list_all all_isfinite xs"
    using production_batches_finite [OF assms(2) assms(3) _ p] by simp
  moreover have "production ops md mb c = Inr (c', xs, bs)"
    using True m ns p by (simp add: production_def)
  ultimately show ?thesis by simp
next
  case False
  obtain c' xs bs where r: "run_production_steps ops md c (MDParams.n_frames md * MDParams.steps_per_frame md) = (c', xs, bs)"
    by (metis prod_cases3)
  have "int (length xs) = MDParams.n_frames md \<and> int (length bs) = MDParams.n_frames md"
    using run_production_steps_length [OF assms(1) assms(4) assms(5) r] .
  moreover have "list_all all_isfinite xs"
    using run_production_steps_finite [OF assms(2) assms(3) r] by simp
  moreover have "production ops md mb c = Inr (c', xs, bs)"
    using False r by (simp add: production_def)
  ultimately show ?thesis by simp
qed

lemma sample_returns:
  assumes "records_strided ops" and "stays_finite ops good" and "good (sample_context ops s)"
    and "1 \<le> MDParams.n_frames md" and "1 \<le> MDParams.steps_per_frame md"
    and "mb = None \<or> (\<exists>m. mb = Some m \<and> 0 \<le> m)"
  shows "\<exists>xs bs. sample ops s md mb = Inr (xs, bs)"
proof -
  define c1 where "c1 = fst (multiple_steps_U ops (sample_context ops s) (n_eq_steps md) 0 0)"
  obtain us xs0 bs0 where b: "multiple_steps_U ops (sample_context ops s) (n_eq_steps md) 0 0 = (c1, us, xs0, bs0)"
    unfolding c1_def by (metis fst_conv prod_cases4)
  have f: "good c1 \<and> all_isfinite (get_x_t ops c1)"
    using assms(2,3) b unfolding stays_finite_def by (metis (mono_tags, lifting) case_prod_conv)
  have "0 \<le> MDParams.n_frames md" "0 < MDParams.steps_per_frame md" using assms(4,5) by simp_all
  then obtain c' xs bs where p: "production ops md mb c1 = Inr (c', xs, bs)"
      and l: "int (length xs) = MDParams.n_frames md" "int (length bs) = MDParams.n_frames md"
      and fin: "list_all all_isfinite xs"
    using production_ok [OF assms(1,2) _ _ _ assms(6), of c1 md] f by blast
  have ne: "xs \<noteq> []" using l(1) assms(4) by auto
  then have "all_isfinite (last xs)" using fin by (simp add: list_all_iff)
  then have "sample ops s md mb = Inr (xs, bs)"
    using f p l ne unfolding sample_def Let_def c1_def [symmetric] by simp
  then show ?thesis by blast
qed

lemma rbfe_sample_returns:
  assumes "records_strided_lamb ops"
    and "0 \<le> SimulationProtocol.n_frames p" and "1 \<le> SimulationProtocol.steps_per_frame p"
  shows "\<exists>xs bs. rbfe_sample ops s p = Inr (xs, bs)"
proof -
  define c1 where "c1 = fst (multiple_steps_U_lamb ops
      (Context ops (rbfe_InitialState.x0 s) (rbfe_InitialState.v0 s) (rbfe_InitialState.box0 s)
         (rbfe_InitialState.integrator s) (map (bound_impl ops) (rbfe_InitialState.potentials s))
         (Some (rbfe_InitialState.barostat s, map (bound_impl ops) (rbfe_InitialState.potentials s))))
      (rbfe_InitialState.lamb s) (burn_in p) [rbfe_InitialState.lamb s] 0 0)"
  let ?k = "SimulationProtocol.steps_per_frame p"
  let ?n = "SimulationProtocol.n_frames p"
  obtain c2 us xs bs where m: "multiple_steps_U_lamb ops c1 (rbfe_InitialState.lamb s) (?n * ?k)
       [rbfe_InitialState.lamb s] ?k ?k = (c2, us, xs, bs)"
    by (metis prod_cases4)
  have "0 \<le> ?n * ?k" "0 < ?k" using assms(2,3) by simp_all
  with assms(1) m have "int (length xs) = ?n * ?k div ?k \<and> int (length bs) = ?n * ?k div ?k"
    unfolding records_strided_lamb_def by (metis (mono_tags, lifting) case_prod_conv)
  then have "int (length xs) = ?n" "int (length bs) = ?n" using assms(3) by simp_all
  then have "rbfe_sample ops s p = Inr (xs, bs)"
    using m unfolding rbfe_sample_def Let_def c1_def [symmetric] by simp
  then show ?thesis by blast
qed

lemma demo_strided: "records_strided (demo_ops b)"
  by (simp add: records_strided_def demo_ops_def demo_steps_def Let_def pos_imp_zdiv_nonneg_iff)

lemma demo_strided_lamb: "records_strided_lamb (demo_ops b)"
  by (simp add: records_strided_lamb_def demo_ops_def demo_steps_def Let_def pos_imp_zdiv_nonneg_iff)

lemma demo_move_finite: "isfinite x \<Longrightarrow> isfinite (demo_move False n x)"
  by (cases x) simp_all

lemma demo_finite: "stays_finite (demo_ops False) all_isfinite"
  by (auto simp: stays_finite_def demo_ops_def demo_steps_def Let_def all_isfinite_def
        list_all_iff demo_move_finite)

lemma demo_context_finite: "all_isfinite (sample_context (demo_ops False) (demo_state l))"
  by (simp add: sample_context_def demo_ops_def demo_state_def all_isfinite_def)


lemma sample_burn_in_assert:
  assumes "\<not> all_isfinite (get_x_t ops (fst (multiple_steps_U ops (sample_context ops s) (n_eq_steps md) 0 0)))"
  shows "sample ops s md mb = Inl (AssertionError ''Equilibration resulted in a nan'')"
  using assms by (simp add: sample_def Let_def)

text \<open>
  Claim C2. Whatever the engine does, a trajectory and a box sequence returned by
  \<open>sample\<close> (with or without \<open>max_buffer_frames\<close>) or by the \<open>sample\<close> of rbfe.py
  have exactly \<open>n_frames\<close> elements each. And the samplers do return for \<open>n_frames \<ge> 1\<close>
  and \<open>steps_per_frame \<ge> 1\<close> when the engine records one frame every
  \<open>steps_per_frame\<close> steps and the simulation does not blow up, on the in-memory path
  (\<open>max_buffer_frames\<close> is \<open>None\<close> or 0) and on the streaming path
  (\<open>max_buffer_frames > 0\<close>), where the batches add up to \<open>n_frames\<close>.
\<close>

theorem sample_frame_count:
  "(\<forall>xs bs. sample ops s md mb = Inr (xs, bs) \<longrightarrow>
        int (length xs) = MDParams.n_frames md \<and> int (length bs) = MDParams.n_frames md)
   \<and> (\<forall>xs bs. rbfe_sample ops rs p = Inr (xs, bs) \<longrightarrow>
        int (length xs) = SimulationProtocol.n_frames p \<and> int (length bs) = SimulationProtocol.n_frames p)
   \<and> (records_strided ops \<and> stays_finite ops good \<and> good (sample_context ops s)
        \<and> 1 \<le> MDParams.n_frames md \<and> 1 \<le> MDParams.steps_per_frame md
        \<and> (mb = None \<or> (\<exists>m. mb = Some m \<and> 0 \<le> m))
      \<longrightarrow> (\<exists>xs bs. sample ops s md mb = Inr (xs, bs)))
   \<and> (records_strided_lamb ops
        \<and> 1 \<le> SimulationProtocol.n_frames p \<and> 1 \<le> SimulationProtocol.steps_per_frame p
      \<longrightarrow> (\<exists>xs bs. rbfe_sample ops rs p = Inr (xs, bs)))"
proof (intro conjI allI impI)
  fix xs bs assume "sample ops s md mb = Inr (xs, bs)"
  then show "int (length xs) = MDParams.n_frames md" "int (length bs) = MDParams.n_frames md"
    using sample_post by blast+
next
  fix xs bs assume "rbfe_sample ops rs p = Inr (xs, bs)"
  then show "int (length xs) = SimulationProtocol.n_frames p"
    "int (length bs) = SimulationProtocol.n_frames p"
    using rbfe_sample_post by blast+
next
  assume "records_strided ops \<and> stays_finite ops good \<and> good (sample_context ops s)
        \<and> 1 \<le> MDParams.n_frames md \<and> 1 \<le> MDParams.steps_per_frame md
        \<and> (mb = None \<or> (\<exists>m. mb = Some m \<and> 0 \<le> m))"
  then show "\<exists>xs bs. sample ops s md mb = Inr (xs, bs)"
    using sample_returns by blast
next
  assume "records_strided_lamb ops
        \<and> 1 \<le> SimulationProtocol.n_frames p \<and> 1 \<le> SimulationProtocol.steps_per_frame p"
  then show "\<exists>xs bs. rbfe_sample ops rs p = Inr (xs, bs)"
    using rbfe_sample_returns [of ops p rs] by simp
qed

theorem sample_frame_count_witness:
  "records_strided (demo_ops False) \<and> stays_finite (demo_ops False) all_isfinite
   \<and> all_isfinite (sample_context (demo_ops False) (demo_state 0))
   \<and> records_strided_lamb (demo_ops False)
   \<and> (\<exists>xs bs. sample (demo_ops False) (demo_state 0) demo_md_params (Some 2) = Inr (xs, bs)
         \<and> length xs = 3 \<and> length bs = 3)
   \<and> (\<exists>xs bs. rbfe_sample (demo_ops False) (demo_rbfe_state 0) demo_protocol = Inr (xs, bs)
         \<and> length xs = 3 \<and> length bs = 3)"
  using sample_frame_count [of "demo_ops False" "demo_state 0" demo_md_params "Some 2"
      "demo_rbfe_state 0" demo_protocol all_isfinite]
    demo_strided [of False] demo_strided_lamb [of False] demo_finite demo_context_finite [of 0]
  by (auto simp: demo_md_params_def demo_protocol_def)

text \<open>
  Claim C6. \<open>sample\<close> of free\_energy.py asserts finite coordinates after burn-in and a
  finite last frame (\<open>sample_burn_in_assert\<close>, \<open>sample_post\<close>). The \<open>sample\<close> of
  rbfe.py, which \<open>estimate_free_energy_given_initial_states\<close> of rbfe.py calls, makes
  neither assertion: on an engine whose coordinates are NaN from the first step it
  returns the NaN trajectory.
\<close>

theorem rbfe_sample_returns_nan:
  "rbfe_sample (demo_ops True) (demo_rbfe_state 0) demo_protocol =
     Inr ([[[NaN, NaN, NaN]], [[NaN, NaN, NaN]], [[NaN, NaN, NaN]]], [demo_box, demo_box, demo_box])"
  by (simp add: rbfe_sample_def demo_ops_def demo_steps_def demo_rbfe_state_def demo_protocol_def
      Let_def eval_nat_numeral)

section \<open>Properties of the sequential runner\<close>

lemma keep_samples_fields:
  "tmp_states (keep_samples keep i f b st) = tmp_states st"
  "tmp_states_log (keep_samples keep i f b st) = tmp_states_log st"
  "u_kln_by_component_by_lambda (keep_samples keep i f b st) = u_kln_by_component_by_lambda st"
  "stored_frames (keep_samples keep i f b st) = stored_frames st @ (if int i \<in> set keep then [f] else [])"
  "stored_boxes (keep_samples keep i f b st) = stored_boxes st @ (if int i \<in> set keep then [b] else [])"
  by (simp_all add: keep_samples_def)

lemma free_previous_ok:
  assumes "i < length (tmp_states st)"
  shows "free_previous i st =
           Inr (st \<lparr> tmp_states := freed_states i (tmp_states st),
                     tmp_states_log := tmp_states_log st @ [(Freed i, freed_states i (tmp_states st))] \<rparr>)"
  using assms by (auto simp: free_previous_def setitem_def freed_states_def)

lemma construct_state_ok:
  assumes "i < length (tmp_states st)"
  shows "construct_state i eds st =
           Inr (st \<lparr> tmp_states := (tmp_states st)[i := Some eds],
                     tmp_states_log := tmp_states_log st @ [(Constructed i, (tmp_states st)[i := Some eds])] \<rparr>)"
  using assms by (simp add: construct_state_def setitem_def)

lemma pair_analysis_fields:
  "tmp_states (fst (pair_analysis imp i st)) = tmp_states st"
  "tmp_states_log (fst (pair_analysis imp i st)) = tmp_states_log st"
  "stored_frames (fst (pair_analysis imp i st)) = stored_frames st"
  "stored_boxes (fst (pair_analysis imp i st)) = stored_boxes st"
  by (simp_all add: pair_analysis_def Let_def split: sum.splits)

lemma length_freed_states: "length (freed_states i ts) = length ts"
  by (simp add: freed_states_def)

lemma seq_body_Inl:
  assumes "sample ops s md None = Inl e"
  shows "seq_body imp ops md temp keep i s st = (st, Some e)"
  using assms by (simp add: seq_body_def)

lemma seq_body_Inr:
  assumes "sample ops s md None = Inr (coords, bxs)" and "i < length (tmp_states st)"
  shows "seq_body imp ops md temp keep i s st =
           pair_analysis imp i
             (keep_samples keep i \<lparr> obj_id = FramesOf i, obj_val = coords \<rparr>
                  \<lparr> obj_id = BoxesOf i, obj_val = bxs \<rparr> st
                \<lparr> tmp_states := (freed_states i (tmp_states st))[i := Some (built_state imp ops temp i s coords bxs)],
                  tmp_states_log := tmp_states_log st @
                    [(Freed i, freed_states i (tmp_states st)),
                     (Constructed i, (freed_states i (tmp_states st))[i := Some (built_state imp ops temp i s coords bxs)])] \<rparr>)"
  using assms
  by (simp add: seq_body_def Let_def free_previous_ok construct_state_ok keep_samples_fields
      length_freed_states built_state_def)

lemma seq_body_fields:
  assumes "sample ops s md None = Inr (coords, bxs)" and "i < length (tmp_states st)"
  shows "tmp_states (fst (seq_body imp ops md temp keep i s st))
           = (freed_states i (tmp_states st))[i := Some (built_state imp ops temp i s coords bxs)]"
    and "tmp_states_log (fst (seq_body imp ops md temp keep i s st))
           = tmp_states_log st @
              [(Freed i, freed_states i (tmp_states st)),
               (Constructed i, (freed_states i (tmp_states st))[i := Some (built_state imp ops temp i s coords bxs)])]"
    and "stored_frames (fst (seq_body imp ops md temp keep i s st))
           = stored_frames st @ (if int i \<in> set keep then [\<lparr> obj_id = FramesOf i, obj_val = coords \<rparr>] else [])"
    and "stored_boxes (fst (seq_body imp ops md temp keep i s st))
           = stored_boxes st @ (if int i \<in> set keep then [\<lparr> obj_id = BoxesOf i, obj_val = bxs \<rparr>] else [])"
  by (simp_all add: seq_body_Inr [OF assms] pair_analysis_fields keep_samples_fields)


lemma held_le_card:
  assumes "\<forall>j < length ts. ts ! j \<noteq> None \<longrightarrow> j \<in> S" and "finite S"
  shows "held ts \<le> card S"
proof -
  have "held ts = card {j. j < length ts \<and> ts ! j \<noteq> None}"
    by (simp add: held_def length_filter_conv_card)
  moreover have "{j. j < length ts \<and> ts ! j \<noteq> None} \<subseteq> S" using assms(1) by auto
  ultimately show ?thesis using assms(2) by (simp add: card_mono)
qed

lemma freed_nth:
  assumes "j < length ts" and "freed_states i ts ! j \<noteq> None"
  shows "ts ! j \<noteq> None \<and> \<not> (2 \<le> i \<and> j = i - 2)"
proof (cases "2 \<le> i \<and> j = i - 2")
  case True
  then have "freed_states i ts ! j = None" using assms(1) by (simp add: freed_states_def)
  then show ?thesis using assms(2) by simp
next
  case False
  then have "freed_states i ts ! j = ts ! j" by (auto simp: freed_states_def)
  then show ?thesis using assms(2) False by simp
qed

lemma freed_live:
  assumes "live_within i ts"
  shows "\<forall>j < length (freed_states i ts). freed_states i ts ! j \<noteq> None \<longrightarrow> j \<in> {i - 1}"
proof (intro allI impI)
  fix j assume j: "j < length (freed_states i ts)" and n: "freed_states i ts ! j \<noteq> None"
  have jl: "j < length ts" using j by (simp add: freed_states_def split: if_splits)
  have f: "ts ! j \<noteq> None \<and> \<not> (2 \<le> i \<and> j = i - 2)" using freed_nth [OF jl n] .
  then have "j < i \<and> i \<le> j + 2" using assms jl by (simp add: live_within_def)
  then show "j \<in> {i - 1}" using f by auto
qed

lemma freed_held: "live_within i ts \<Longrightarrow> held (freed_states i ts) \<le> 1"
  using held_le_card [OF freed_live, of i ts] by simp

lemma freed_none: "2 \<le> i \<Longrightarrow> i < length ts \<Longrightarrow> freed_states i ts ! (i - 2) = None"
  by (simp add: freed_states_def)

lemma built_live:
  assumes "live_within i ts" and "i < length ts"
  shows "live_within (Suc i) ((freed_states i ts)[i := Some e])"
  unfolding live_within_def
proof (intro allI impI)
  fix j assume j: "j < length ((freed_states i ts)[i := Some e])"
    and n: "(freed_states i ts)[i := Some e] ! j \<noteq> None"
  show "j < Suc i \<and> Suc i \<le> j + 2"
  proof (cases "j = i")
    case True then show ?thesis by simp
  next
    case False
    then have "freed_states i ts ! j \<noteq> None" using n j by simp
    moreover have "j < length (freed_states i ts)" using j by simp
    ultimately have "j \<in> {i - 1}" using freed_live [OF assms(1)] by blast
    moreover have "j < length ts" using j by (simp add: freed_states_def split: if_splits)
    ultimately show ?thesis
      using freed_nth [of j ts i] \<open>freed_states i ts ! j \<noteq> None\<close> assms(1)
      by (auto simp: live_within_def)
  qed
qed

lemma built_held:
  assumes "live_within i ts" and "i < length ts"
  shows "held ((freed_states i ts)[i := Some e]) \<le> 2"
proof -
  have "\<forall>j < length ((freed_states i ts)[i := Some e]).
          (freed_states i ts)[i := Some e] ! j \<noteq> None \<longrightarrow> j \<in> {i - 1, i}"
    using built_live [OF assms, of e] by (auto simp: live_within_def)
  from held_le_card [OF this] have "held ((freed_states i ts)[i := Some e]) \<le> card {i - 1, i}"
    by simp
  moreover have "card {i - 1, i} \<le> 2" by (simp add: card_insert_if)
  ultimately show ?thesis by simp
qed


lemma seq_body_win_inv:
  assumes "win_inv i st" and "i < length (tmp_states st)"
    and "sample ops s md None = Inr (coords, bxs)"
  shows "win_inv (Suc i) (fst (seq_body imp ops md temp keep i s st))"
    and "length (tmp_states (fst (seq_body imp ops md temp keep i s st))) = length (tmp_states st)"
proof -
  let ?st' = "fst (seq_body imp ops md temp keep i s st)"
  let ?e = "built_state imp ops temp i s coords bxs"
  have lw: "live_within i (tmp_states st)" and lg: "list_all point_ok (tmp_states_log st)"
    using assms(1) unfolding win_inv_def by blast+
  have t: "tmp_states ?st' = (freed_states i (tmp_states st))[i := Some ?e]"
    using seq_body_fields(1) [OF assms(3,2)] .
  have l: "tmp_states_log ?st' = tmp_states_log st @
              [(Freed i, freed_states i (tmp_states st)),
               (Constructed i, (freed_states i (tmp_states st))[i := Some ?e])]"
    using seq_body_fields(2) [OF assms(3,2)] .
  have p1: "point_ok (Freed i, freed_states i (tmp_states st))"
    using freed_held [OF lw] freed_none [of i "tmp_states st"] assms(2) by simp
  have p2: "point_ok (Constructed i, (freed_states i (tmp_states st))[i := Some ?e])"
    using built_held [OF lw assms(2)] assms(2) by (simp add: length_freed_states)
  show "win_inv (Suc i) ?st'"
    unfolding win_inv_def t l using built_live [OF lw assms(2)] lg p1 p2 by simp
  show "length (tmp_states ?st') = length (tmp_states st)"
    unfolding t by (simp add: length_freed_states)
qed

lemma seq_init_inv: "win_inv 0 (seq_init n)"
  by (simp add: win_inv_def live_within_def seq_init_def held_def)

lemma seq_loop_inv:
  assumes "win_inv i st" and "i + length ss = length (tmp_states st)"
  shows "\<exists>k. win_inv k (fst (seq_loop imp ops md temp keep i ss st))"
  using assms
proof (induction ss arbitrary: i st)
  case Nil
  then show ?case by auto
next
  case (Cons s ss)
  have i: "i < length (tmp_states st)" using Cons.prems(2) by simp
  show ?case
  proof (cases "sample ops s md None")
    case (Inl e)
    then show ?thesis using Cons.prems(1) by (auto simp: seq_body_Inl)
  next
    case (Inr r)
    obtain coords bxs where r: "r = (coords, bxs)" by (cases r)
    let ?b = "seq_body imp ops md temp keep i s st"
    have w: "win_inv (Suc i) (fst ?b)" and len: "length (tmp_states (fst ?b)) = length (tmp_states st)"
      using seq_body_win_inv [OF Cons.prems(1) i] Inr r by simp_all
    show ?thesis
    proof (cases "snd ?b")
      case None
      then have "seq_loop imp ops md temp keep i (s # ss) st
                   = seq_loop imp ops md temp keep (Suc i) ss (fst ?b)"
        by (cases ?b) simp
      moreover have "Suc i + length ss = length (tmp_states (fst ?b))"
        using Cons.prems(2) len by simp
      ultimately show ?thesis using Cons.IH [OF w] by simp
    next
      case (Some e)
      then have "seq_loop imp ops md temp keep i (s # ss) st = (fst ?b, Some e)"
        by (cases ?b) simp
      then show ?thesis using w by auto
    qed
  qed
qed

lemma seq_loop_points:
  assumes "i + length ss = length (tmp_states st)"
    and "snd (seq_loop imp ops md temp keep i ss st) = None"
  shows "map fst (tmp_states_log (fst (seq_loop imp ops md temp keep i ss st)))
           = map fst (tmp_states_log st) @ concat (map (\<lambda>j. [Freed j, Constructed j]) [i..<i + length ss])"
  using assms
proof (induction ss arbitrary: i st)
  case Nil
  then show ?case by simp
next
  case (Cons s ss)
  have i: "i < length (tmp_states st)" using Cons.prems(1) by simp
  let ?b = "seq_body imp ops md temp keep i s st"
  show ?case
  proof (cases "sample ops s md None")
    case (Inl e)
    then show ?thesis using Cons.prems(2) by (simp add: seq_body_Inl)
  next
    case (Inr r)
    obtain coords bxs where r: "sample ops s md None = Inr (coords, bxs)" using Inr by (cases r) simp
    have len: "length (tmp_states (fst ?b)) = length (tmp_states st)"
      using seq_body_fields(1) [OF r i, of imp temp keep] by (simp add: length_freed_states)
    have lg: "map fst (tmp_states_log (fst ?b)) = map fst (tmp_states_log st) @ [Freed i, Constructed i]"
      using seq_body_fields(2) [OF r i, of imp temp keep] by simp
    show ?thesis
    proof (cases "snd ?b")
      case None
      then have eq: "seq_loop imp ops md temp keep i (s # ss) st
                   = seq_loop imp ops md temp keep (Suc i) ss (fst ?b)"
        by (cases ?b) simp
      have u: "[i..<i + length (s # ss)] = i # [Suc i..<Suc i + length ss]"
        by (subst upt_rec) simp
      have "map fst (tmp_states_log (fst (seq_loop imp ops md temp keep (Suc i) ss (fst ?b))))
           = map fst (tmp_states_log (fst ?b)) @ concat (map (\<lambda>j. [Freed j, Constructed j]) [Suc i..<Suc i + length ss])"
        using Cons.IH [of "Suc i" "fst ?b"] Cons.prems len eq by simp
      then show ?thesis unfolding eq lg u by simp
    next
      case (Some e)
      then have "seq_loop imp ops md temp keep i (s # ss) st = (fst ?b, Some e)"
        by (cases ?b) simp
      then show ?thesis using Cons.prems(2) by simp
    qed
  qed
qed

lemma point_ok_held: "point_ok p \<Longrightarrow> held (snd p) \<le> 2"
  by (cases p, cases "fst p") auto

lemma demo_ladder_length: "length demo_ladder = 3"
  by (simp add: demo_ladder_def)

lemma demo_run_ok:
  "snd (seq_loop demo_imports (demo_ops False) demo_md_params 300 [0] 0 demo_ladder (seq_init 3)) = None"
  by code_simp

text \<open>
  Claim C1. In every run of the loop of \<^verbatim>\<open>run_sequential_sims_given_initial_states\<close>,
  whatever the ladder, the engine and the imports do and whether or not the run ends in
  an exception: every value \<^verbatim>\<open>tmp_states\<close> takes holds at most two states; after the
  statement that frees, at most one state is held and entry \<open>i - 2\<close> is \<^verbatim>\<open>None\<close> when
  \<open>i \<ge> 2\<close>, and that is before the state of window \<open>i\<close> is constructed; the logged values
  end with the current one; and a run without exception passes the freeing and the
  constructing point of every window, in ladder order.
\<close>

theorem sliding_window_bound:
  "(\<forall>p \<in> set (tmp_states_log (fst (seq_loop imp ops md temp keep 0 states (seq_init (length states))))).
       held (snd p) \<le> 2)
   \<and> (\<forall>i snap. (Freed i, snap) \<in> set (tmp_states_log
           (fst (seq_loop imp ops md temp keep 0 states (seq_init (length states)))))
        \<longrightarrow> held snap \<le> 1 \<and> (2 \<le> i \<longrightarrow> snap ! (i - 2) = None))
   \<and> (\<forall>i snap. (Constructed i, snap) \<in> set (tmp_states_log
           (fst (seq_loop imp ops md temp keep 0 states (seq_init (length states)))))
        \<longrightarrow> snap ! i \<noteq> None)
   \<and> tmp_states (fst (seq_loop imp ops md temp keep 0 states (seq_init (length states))))
       = snd (last (tmp_states_log (fst (seq_loop imp ops md temp keep 0 states (seq_init (length states))))))
   \<and> (snd (seq_loop imp ops md temp keep 0 states (seq_init (length states))) = None \<longrightarrow>
        map fst (tmp_states_log (fst (seq_loop imp ops md temp keep 0 states (seq_init (length states)))))
          = Initialised # concat (map (\<lambda>i. [Freed i, Constructed i]) [0..<length states]))"
proof -
  let ?run = "seq_loop imp ops md temp keep 0 states (seq_init (length states))"
  have len: "0 + length states = length (tmp_states (seq_init (length states)))"
    by (simp add: seq_init_def)
  obtain k where w: "win_inv k (fst ?run)"
    using seq_loop_inv [OF seq_init_inv len] by blast
  then have ok: "\<forall>p \<in> set (tmp_states_log (fst ?run)). point_ok p"
    by (simp add: win_inv_def list_all_iff)
  have a: "\<forall>p \<in> set (tmp_states_log (fst ?run)). held (snd p) \<le> 2"
    using ok point_ok_held by blast
  have b: "\<forall>i snap. (Freed i, snap) \<in> set (tmp_states_log (fst ?run))
        \<longrightarrow> held snap \<le> 1 \<and> (2 \<le> i \<longrightarrow> snap ! (i - 2) = None)"
    using ok by fastforce
  have c: "\<forall>i snap. (Constructed i, snap) \<in> set (tmp_states_log (fst ?run)) \<longrightarrow> snap ! i \<noteq> None"
    using ok by fastforce
  have d: "tmp_states (fst ?run) = snd (last (tmp_states_log (fst ?run)))"
    using w by (simp add: win_inv_def)
  have e: "snd ?run = None \<longrightarrow>
        map fst (tmp_states_log (fst ?run))
          = Initialised # concat (map (\<lambda>i. [Freed i, Constructed i]) [0..<length states])"
  proof
    assume "snd ?run = None"
    from seq_loop_points [OF len this] show "map fst (tmp_states_log (fst ?run))
          = Initialised # concat (map (\<lambda>i. [Freed i, Constructed i]) [0..<length states])"
      by (simp add: seq_init_def)
  qed
  from a b c d e show ?thesis by blast
qed

theorem sliding_window_bound_witness:
  "snd (seq_loop demo_imports (demo_ops False) demo_md_params 300 [0] 0 demo_ladder
          (seq_init (length demo_ladder))) = None
   \<and> list_all (\<lambda>p. held (snd p) \<le> 2)
       (tmp_states_log (fst (seq_loop demo_imports (demo_ops False) demo_md_params 300 [0] 0
          demo_ladder (seq_init (length demo_ladder)))))
   \<and> map fst (tmp_states_log (fst (seq_loop demo_imports (demo_ops False) demo_md_params 300 [0] 0
          demo_ladder (seq_init (length demo_ladder)))))
       = [Initialised, Freed 0, Constructed 0, Freed 1, Constructed 1, Freed 2, Constructed 2]"
  using sliding_window_bound [of demo_imports "demo_ops False" demo_md_params 300 "[0]" demo_ladder]
    demo_run_ok
  by (simp add: list_all_iff demo_ladder_length eval_nat_numeral)

lemma seq_body_None:
  assumes "snd (seq_body imp ops md temp keep i s st) = None"
  shows "\<exists>coords bxs. sample ops s md None = Inr (coords, bxs)"
proof (cases "sample ops s md None")
  case (Inl e)
  then show ?thesis using assms by (simp add: seq_body_Inl)
next
  case (Inr r)
  then show ?thesis by (cases r) simp
qed

lemma seq_loop_stored:
  assumes "seq_loop imp ops md temp keep (length pre) ss st = (st', None)"
    and "length pre + length ss = length (tmp_states st)"
    and "stored_frames st = map (sampled_frames ops md (pre @ ss)) (filter (\<lambda>i. int i \<in> set keep) [0..<length pre])"
    and "stored_boxes st = map (sampled_boxes ops md (pre @ ss)) (filter (\<lambda>i. int i \<in> set keep) [0..<length pre])"
    and "\<forall>j snap. (Constructed j, snap) \<in> set (tmp_states_log st) \<longrightarrow>
            j < length pre \<and> (\<exists>e. snap ! j = Some e \<and> frames e = sampled_frames ops md (pre @ ss) j
                                  \<and> boxes e = sampled_boxes ops md (pre @ ss) j)"
  shows "stored_frames st' = map (sampled_frames ops md (pre @ ss)) (filter (\<lambda>i. int i \<in> set keep) [0..<length pre + length ss])
       \<and> stored_boxes st' = map (sampled_boxes ops md (pre @ ss)) (filter (\<lambda>i. int i \<in> set keep) [0..<length pre + length ss])
       \<and> (\<forall>j snap. (Constructed j, snap) \<in> set (tmp_states_log st') \<longrightarrow>
            j < length pre + length ss \<and> (\<exists>e. snap ! j = Some e \<and> frames e = sampled_frames ops md (pre @ ss) j
                                  \<and> boxes e = sampled_boxes ops md (pre @ ss) j))"
  using assms
proof (induction ss arbitrary: pre st)
  case Nil
  then show ?case by simp
next
  case (Cons s ss)
  let ?i = "length pre"
  let ?b = "seq_body imp ops md temp keep ?i s st"
  have i: "?i < length (tmp_states st)" using Cons.prems(2) by simp
  have sn: "snd ?b = None" using Cons.prems(1) by (cases ?b; cases "snd ?b") auto
  then obtain coords bxs where r: "sample ops s md None = Inr (coords, bxs)"
    using seq_body_None by blast
  have eq: "seq_loop imp ops md temp keep (length (pre @ [s])) ss (fst ?b) = (st', None)"
    using Cons.prems(1) sn by (cases ?b) simp
  have nth: "(pre @ s # ss) ! ?i = s" by simp
  have sf: "sampled_frames ops md (pre @ s # ss) ?i = \<lparr> obj_id = FramesOf ?i, obj_val = coords \<rparr>"
    and sb: "sampled_boxes ops md (pre @ s # ss) ?i = \<lparr> obj_id = BoxesOf ?i, obj_val = bxs \<rparr>"
    using r by (simp_all add: sampled_frames_def sampled_boxes_def)
  have len: "length (pre @ [s]) + length ss = length (tmp_states (fst ?b))"
    using seq_body_fields(1) [OF r i, of imp temp keep] Cons.prems(2) by (simp add: length_freed_states)
  have f1: "stored_frames (fst ?b) = map (sampled_frames ops md ((pre @ [s]) @ ss))
              (filter (\<lambda>i. int i \<in> set keep) [0..<length (pre @ [s])])"
    using seq_body_fields(3) [OF r i, of imp temp keep] Cons.prems(3) sf by simp
  have f2: "stored_boxes (fst ?b) = map (sampled_boxes ops md ((pre @ [s]) @ ss))
              (filter (\<lambda>i. int i \<in> set keep) [0..<length (pre @ [s])])"
    using seq_body_fields(4) [OF r i, of imp temp keep] Cons.prems(4) sb by simp
  have lg: "tmp_states_log (fst ?b) = tmp_states_log st @
              [(Freed ?i, freed_states ?i (tmp_states st)),
               (Constructed ?i, (freed_states ?i (tmp_states st))[?i := Some (built_state imp ops temp ?i s coords bxs)])]"
    using seq_body_fields(2) [OF r i] .
  have f3: "\<forall>j snap. (Constructed j, snap) \<in> set (tmp_states_log (fst ?b)) \<longrightarrow>
            j < length (pre @ [s]) \<and> (\<exists>e. snap ! j = Some e \<and> frames e = sampled_frames ops md ((pre @ [s]) @ ss) j
                                  \<and> boxes e = sampled_boxes ops md ((pre @ [s]) @ ss) j)"
  proof (intro allI impI)
    fix j snap assume m: "(Constructed j, snap) \<in> set (tmp_states_log (fst ?b))"
    then consider (old) "(Constructed j, snap) \<in> set (tmp_states_log st)"
      | (new) "j = ?i" "snap = (freed_states ?i (tmp_states st))[?i := Some (built_state imp ops temp ?i s coords bxs)]"
      unfolding lg by auto
    then show "j < length (pre @ [s]) \<and> (\<exists>e. snap ! j = Some e \<and> frames e = sampled_frames ops md ((pre @ [s]) @ ss) j
                                  \<and> boxes e = sampled_boxes ops md ((pre @ [s]) @ ss) j)"
    proof cases
      case old
      then show ?thesis using Cons.prems(5) by fastforce
    next
      case new
      have "snap ! j = Some (built_state imp ops temp ?i s coords bxs)"
        using new i by (simp add: length_freed_states)
      then show ?thesis using new sf sb by (simp add: built_state_def)
    qed
  qed
  from Cons.IH [OF eq len f1 f2 f3] show ?case by simp
qed

lemma seq_loop_samples:
  assumes "seq_loop imp ops md temp keep i ss st = (st', None)"
    and "i + length ss = length (tmp_states st)"
  shows "\<forall>s \<in> set ss. \<exists>coords bxs. sample ops s md None = Inr (coords, bxs)"
  using assms
proof (induction ss arbitrary: i st)
  case Nil
  then show ?case by simp
next
  case (Cons s ss)
  let ?b = "seq_body imp ops md temp keep i s st"
  have i: "i < length (tmp_states st)" using Cons.prems(2) by simp
  have sn: "snd ?b = None" using Cons.prems(1) by (cases ?b; cases "snd ?b") auto
  then obtain coords bxs where r: "sample ops s md None = Inr (coords, bxs)"
    using seq_body_None by blast
  have eq: "seq_loop imp ops md temp keep (Suc i) ss (fst ?b) = (st', None)"
    using Cons.prems(1) sn by (cases ?b) simp
  have len: "Suc i + length ss = length (tmp_states (fst ?b))"
    using seq_body_fields(1) [OF r i, of imp temp keep] Cons.prems(2) by (simp add: length_freed_states)
  from Cons.IH [OF eq len] r show ?case by auto
qed

lemma run_sequential_Inr:
  assumes "run_sequential_sims_given_initial_states imp ops states md temp keep_idxs = Inr (u, sf, sb)"
  shows "\<exists>st. seq_loop imp ops md temp (case keep_idxs of None \<Rightarrow> [] | Some l \<Rightarrow> l) 0 states
                 (seq_init (length states)) = (st, None)
              \<and> np_array (u_kln_by_component_by_lambda st) = Inr u
              \<and> sf = stored_frames st \<and> sb = stored_boxes st"
  using assms
  by (auto simp: run_sequential_sims_given_initial_states_def checked_keep_idxs_def Let_def
      split: sum.splits prod.splits option.splits if_splits)

lemma demo_run_returns:
  "(case run_sequential_sims_given_initial_states demo_imports (demo_ops False) demo_ladder
           demo_md_params 300 (Some [0, 2]) of Inl _ \<Rightarrow> False | Inr _ \<Rightarrow> True)"
  by code_simp

text \<open>
  Claim C9, as amended. When \<^verbatim>\<open>run_sequential_sims_given_initial_states\<close> returns, the
  returned \<^verbatim>\<open>stored_frames\<close> and \<^verbatim>\<open>stored_boxes\<close> are, in ladder order, the trajectory and
  box objects that the sampler returned for the windows whose index is in \<^verbatim>\<open>keep_idxs\<close>,
  and nothing else; every window's sampler call returned; and the
  \<^verbatim>\<open>EnergyDecomposedState\<close> constructed for a window holds those same two objects. So a kept
  window is retained by reference, not as a copy.
\<close>

theorem keep_idxs_retention:
  assumes "run_sequential_sims_given_initial_states imp ops states md temp keep_idxs = Inr (u, sf, sb)"
  shows "sf = map (sampled_frames ops md states)
               (filter (\<lambda>i. int i \<in> set (case keep_idxs of None \<Rightarrow> [] | Some l \<Rightarrow> l)) [0..<length states])
       \<and> sb = map (sampled_boxes ops md states)
               (filter (\<lambda>i. int i \<in> set (case keep_idxs of None \<Rightarrow> [] | Some l \<Rightarrow> l)) [0..<length states])
       \<and> (\<forall>i < length states. \<exists>coords bxs. sample ops (states ! i) md None = Inr (coords, bxs))
       \<and> (\<forall>i < length states. \<exists>snap e.
             (Constructed i, snap) \<in> set (tmp_states_log (fst (seq_loop imp ops md temp
                 (case keep_idxs of None \<Rightarrow> [] | Some l \<Rightarrow> l) 0 states (seq_init (length states)))))
             \<and> snap ! i = Some e
             \<and> frames e = sampled_frames ops md states i \<and> boxes e = sampled_boxes ops md states i)"
proof -
  let ?ks = "case keep_idxs of None \<Rightarrow> [] | Some l \<Rightarrow> l"
  let ?run = "seq_loop imp ops md temp ?ks 0 states (seq_init (length states))"
  obtain st where run: "?run = (st, None)" and sf: "sf = stored_frames st" and sb: "sb = stored_boxes st"
    using run_sequential_Inr [OF assms] by blast
  have len: "0 + length states = length (tmp_states (seq_init (length states)))"
    by (simp add: seq_init_def)
  have run': "seq_loop imp ops md temp ?ks (length ([]::'a InitialState list)) states (seq_init (length states)) = (st, None)"
    using run by simp
  have st: "stored_frames st = map (sampled_frames ops md states) (filter (\<lambda>i. int i \<in> set ?ks) [0..<length states])
       \<and> stored_boxes st = map (sampled_boxes ops md states) (filter (\<lambda>i. int i \<in> set ?ks) [0..<length states])
       \<and> (\<forall>j snap. (Constructed j, snap) \<in> set (tmp_states_log st) \<longrightarrow>
            j < length states \<and> (\<exists>e. snap ! j = Some e \<and> frames e = sampled_frames ops md states j
                                  \<and> boxes e = sampled_boxes ops md states j))"
    using seq_loop_stored [OF run'] by (simp add: seq_init_def)
  have pts: "map fst (tmp_states_log st) = Initialised # concat (map (\<lambda>i. [Freed i, Constructed i]) [0..<length states])"
    using seq_loop_points [OF len, of imp ops md temp ?ks] run by (simp add: seq_init_def)
  have smp: "\<forall>i < length states. \<exists>coords bxs. sample ops (states ! i) md None = Inr (coords, bxs)"
    using seq_loop_samples [OF run len] by simp
  have cons: "\<forall>i < length states. \<exists>snap e. (Constructed i, snap) \<in> set (tmp_states_log st)
             \<and> snap ! i = Some e
             \<and> frames e = sampled_frames ops md states i \<and> boxes e = sampled_boxes ops md states i"
  proof (intro allI impI)
    fix i assume i: "i < length states"
    have "Constructed i \<in> set (map fst (tmp_states_log st))" unfolding pts using i by auto
    then obtain snap where m: "(Constructed i, snap) \<in> set (tmp_states_log st)" by auto
    with st obtain e where "snap ! i = Some e" "frames e = sampled_frames ops md states i"
      "boxes e = sampled_boxes ops md states i" by blast
    with m show "\<exists>snap e. (Constructed i, snap) \<in> set (tmp_states_log st)
             \<and> snap ! i = Some e
             \<and> frames e = sampled_frames ops md states i \<and> boxes e = sampled_boxes ops md states i"
      by blast
  qed
  show ?thesis using st smp cons sf sb run by simp
qed

theorem keep_idxs_retention_witness:
  "(case run_sequential_sims_given_initial_states demo_imports (demo_ops False) demo_ladder
           demo_md_params 300 (Some [0, 2]) of Inl _ \<Rightarrow> False | Inr _ \<Rightarrow> True)
   \<and> fst (snd (projr (run_sequential_sims_given_initial_states demo_imports (demo_ops False)
           demo_ladder demo_md_params 300 (Some [0, 2]))))
       = [sampled_frames (demo_ops False) demo_md_params demo_ladder 0,
          sampled_frames (demo_ops False) demo_md_params demo_ladder 2]
   \<and> snd (snd (projr (run_sequential_sims_given_initial_states demo_imports (demo_ops False)
           demo_ladder demo_md_params 300 (Some [0, 2]))))
       = [sampled_boxes (demo_ops False) demo_md_params demo_ladder 0,
          sampled_boxes (demo_ops False) demo_md_params demo_ladder 2]"
proof -
  let ?r = "run_sequential_sims_given_initial_states demo_imports (demo_ops False) demo_ladder
           demo_md_params 300 (Some [0, 2])"
  have ok: "(case ?r of Inl _ \<Rightarrow> False | Inr _ \<Rightarrow> True)" by (rule demo_run_returns)
  then have "?r = Inr (fst (projr ?r), fst (snd (projr ?r)), snd (snd (projr ?r)))"
    by (cases ?r) simp_all
  from keep_idxs_retention [OF this] ok show ?thesis
    by (simp add: demo_ladder_length eval_nat_numeral)
qed

text \<open>
  Claim C9 as stated fails: on the three-window ladder with \<^verbatim>\<open>keep_idxs = [0, 2]\<close> the
  object retained for window 2 is the object that window's \<^verbatim>\<open>EnergyDecomposedState\<close>
  holds in \<^verbatim>\<open>tmp_states\<close>, for the frames and for the boxes.
\<close>

theorem keep_idxs_stores_reference:
  "stored_frames (fst (seq_loop demo_imports (demo_ops False) demo_md_params 300 [0, 2] 0 demo_ladder (seq_init 3))) ! 1
     = frames (the (tmp_states (fst (seq_loop demo_imports (demo_ops False) demo_md_params 300 [0, 2] 0 demo_ladder (seq_init 3))) ! 2))
   \<and> stored_boxes (fst (seq_loop demo_imports (demo_ops False) demo_md_params 300 [0, 2] 0 demo_ladder (seq_init 3))) ! 1
     = boxes (the (tmp_states (fst (seq_loop demo_imports (demo_ops False) demo_md_params 300 [0, 2] 0 demo_ladder (seq_init 3))) ! 2))
   \<and> map obj_id (stored_frames (fst (seq_loop demo_imports (demo_ops False) demo_md_params 300 [0, 2] 0 demo_ladder (seq_init 3))))
     = [FramesOf 0, FramesOf 2]"
  by code_simp

section \<open>Properties of the loop over the windows in rbfe.py\<close>

lemma on_success_simps [simp]:
  "on_success (Inl e) f = Inl e"
  "on_success (Inr x) f = f x"
  by (simp_all add: on_success_def)

lemma on_success_Inr_iff: "(on_success r f = Inr y) = (\<exists>x. r = Inr x \<and> f x = Inr y)"
  by (cases r) simp_all

lemma on_success_Inl_iff:
  "(on_success r f = Inl e) = (r = Inl e \<or> (\<exists>x. r = Inr x \<and> f x = Inl e))"
  by (cases r) simp_all

lemma map_err_Inr:
  assumes "map_err f xs = Inr ys"
  shows "length ys = length xs \<and> (\<forall>i < length xs. f (xs ! i) = Inr (ys ! i))"
  using assms
proof (induction xs arbitrary: ys)
  case Nil
  then show ?case by simp
next
  case (Cons x xs)
  from Cons.prems obtain y ys' where y: "f x = Inr y" and r: "map_err f xs = Inr ys'" and e: "ys = y # ys'"
    by (auto split: sum.splits)
  from Cons.IH [OF r] have "length ys' = length xs" and n: "\<forall>i < length xs. f (xs ! i) = Inr (ys' ! i)"
    by simp_all
  then show ?case using y e by (auto simp: nth_Cons split: nat.splits)
qed

lemma on_success_InrE:
  assumes "on_success r f = Inr y"
  obtains x where "r = Inr x" and "f x = Inr y"
  using assms by (cases r) simp_all

lemma component_loop_Inr:
  assumes "component_loop imp beta row names pf pb cf cb k fns (fig, fw, rv) = Inr (fig', fw', rv')"
  shows "\<exists>ds. map_err (delta_us beta pf pb cf cb) fns = Inr ds \<and> fw' = fw @ map fst ds \<and> rv' = rv @ map snd ds"
  using assms
proof (induction fns arbitrary: k fig fw rv)
  case Nil
  then show ?case by simp
next
  case (Cons fn fns)
  from Cons.prems obtain d1 d2 fig1 where d: "delta_us beta pf pb cf cb fn = Inr (d1, d2)"
    and rest: "component_loop imp beta row names pf pb cf cb (Suc k) fns (fig1, fw @ [d1], rv @ [d2]) = Inr (fig', fw', rv')"
    by (auto simp: on_success_Inr_iff)
  from Cons.IH [OF rest] obtain ds where "map_err (delta_us beta pf pb cf cb) fns = Inr ds"
    "fw' = (fw @ [d1]) @ map fst ds" "rv' = (rv @ [d2]) @ map snd ds" by blast
  then show ?case using d by simp
qed

lemma pair_step_Inr:
  assumes "pair_step imp beta prefix names i cur_f cur_b cur_fns loc = Inr loc'"
  shows "\<exists>pfns pf pb dG err.
           prev_batch_U_fns loc = Some pfns \<and> prev_frames loc = Some pf \<and> prev_boxes loc = Some pb
           \<and> summed_work_bar imp beta (obj_val pf) (obj_val pb) (obj_val cur_f) (obj_val cur_b) pfns cur_fns
                = Inr (dG, err)
           \<and> rbfe_locals.all_dGs loc' = rbfe_locals.all_dGs loc @ [dG]
           \<and> rbfe_locals.all_errs loc' = rbfe_locals.all_errs loc @ [err]
           \<and> rbfe_locals.stored_frames loc' = rbfe_locals.stored_frames loc
           \<and> rbfe_locals.stored_boxes loc' = rbfe_locals.stored_boxes loc"
proof -
  from assms obtain pfns pf pb where p: "prev_batch_U_fns loc = Some pfns" "prev_frames loc = Some pf"
      "prev_boxes loc = Some pb"
    by (auto simp: pair_step_def split: option.splits)
  from assms p obtain fig1 fw rv tf tr df dferr fig2 lst where
      c0: "component_loop imp beta (int i - 1) names (obj_val pf) (obj_val pb) (obj_val cur_f) (obj_val cur_b)
            0 (zip pfns cur_fns) (figure loc, [], []) = Inr (fig1, fw, rv)"
      and tf: "np_sum0 fw = Inr tf" and tr: "np_sum0 rv = Inr tr"
      and bar0: "BAR imp tf tr = Inr (df, dferr)"
      and l: "loc' = loc \<lparr> rbfe_locals.all_dGs := rbfe_locals.all_dGs loc @ [df / beta],
                          rbfe_locals.all_errs := rbfe_locals.all_errs loc @ [dferr / beta],
                          u_idx := lst, figure := fig2 \<rparr>"
    unfolding pair_step_def Let_def
    by (auto simp: on_success_Inr_iff split: option.splits)
  from component_loop_Inr [OF c0] obtain ds where
      ds: "map_err (delta_us beta (obj_val pf) (obj_val pb) (obj_val cur_f) (obj_val cur_b)) (zip pfns cur_fns) = Inr ds"
      "fw = map fst ds" "rv = map snd ds" by auto
  have "summed_work_bar imp beta (obj_val pf) (obj_val pb) (obj_val cur_f) (obj_val cur_b) pfns cur_fns
          = Inr (df / beta, dferr / beta)"
    using ds tf tr bar0 by (simp add: summed_work_bar_def)
  then show ?thesis using p l by simp
qed

lemma rbfe_body_Inr:
  assumes "rbfe_body imp ops proto beta prefix keep names i s loc = Inr loc'"
  shows "\<exists>coords bxs loc1 loc2.
           rbfe_sample ops s proto = Inr (coords, bxs)
           \<and> loc1 = (if int i \<in> set keep
                 then loc \<lparr> rbfe_locals.stored_frames := rbfe_locals.stored_frames loc @ [\<lparr> obj_id = FramesOf i, obj_val = coords \<rparr>],
                            rbfe_locals.stored_boxes := rbfe_locals.stored_boxes loc @ [\<lparr> obj_id = BoxesOf i, obj_val = bxs \<rparr>] \<rparr>
                 else loc)
           \<and> (if 0 < i
               then pair_step imp beta prefix names i \<lparr> obj_id = FramesOf i, obj_val = coords \<rparr>
                      \<lparr> obj_id = BoxesOf i, obj_val = bxs \<rparr>
                      (get_batch_U_fns ops (map (bound_impl ops) (rbfe_InitialState.potentials s)) (rbfe_InitialState.lamb s)) loc1
               else Inr loc1) = Inr loc2
           \<and> loc' = loc2 \<lparr> prev_frames := Some \<lparr> obj_id = FramesOf i, obj_val = coords \<rparr>,
                 prev_boxes := Some \<lparr> obj_id = BoxesOf i, obj_val = bxs \<rparr>,
                 prev_batch_U_fns := Some (get_batch_U_fns ops (map (bound_impl ops) (rbfe_InitialState.potentials s)) (rbfe_InitialState.lamb s)) \<rparr>"
  using assms unfolding rbfe_body_def Let_def
  by (cases "rbfe_sample ops s proto")
     (auto simp: on_success_Inr_iff split del: if_split)

lemma rbfe_body_inv:
  assumes inv: "rbfe_inv imp ops proto beta keep states i loc"
    and body: "rbfe_body imp ops proto beta prefix keep names i (states ! i) loc = Inr loc'"
  shows "rbfe_inv imp ops proto beta keep states (Suc i) loc'"
proof -
  let ?s = "states ! i"
  let ?fns = "get_batch_U_fns ops (map (bound_impl ops) (rbfe_InitialState.potentials ?s)) (rbfe_InitialState.lamb ?s)"
  from rbfe_body_Inr [OF body] obtain coords bxs loc1 loc2 where
      smp: "rbfe_sample ops ?s proto = Inr (coords, bxs)"
      and l1: "loc1 = (if int i \<in> set keep
                 then loc \<lparr> rbfe_locals.stored_frames := rbfe_locals.stored_frames loc @ [\<lparr> obj_id = FramesOf i, obj_val = coords \<rparr>],
                            rbfe_locals.stored_boxes := rbfe_locals.stored_boxes loc @ [\<lparr> obj_id = BoxesOf i, obj_val = bxs \<rparr>] \<rparr>
                 else loc)"
      and l2: "(if 0 < i
               then pair_step imp beta prefix names i \<lparr> obj_id = FramesOf i, obj_val = coords \<rparr>
                      \<lparr> obj_id = BoxesOf i, obj_val = bxs \<rparr> ?fns loc1
               else Inr loc1) = Inr loc2"
      and l': "loc' = loc2 \<lparr> prev_frames := Some \<lparr> obj_id = FramesOf i, obj_val = coords \<rparr>,
                 prev_boxes := Some \<lparr> obj_id = BoxesOf i, obj_val = bxs \<rparr>,
                 prev_batch_U_fns := Some ?fns \<rparr>"
    by blast
  have wf: "rbfe_window_frames ops proto states i = \<lparr> obj_id = FramesOf i, obj_val = coords \<rparr>"
    and wb: "rbfe_window_boxes ops proto states i = \<lparr> obj_id = BoxesOf i, obj_val = bxs \<rparr>"
    and wn: "rbfe_window_fns ops states i = ?fns"
    using smp by (simp_all add: rbfe_window_frames_def rbfe_window_boxes_def rbfe_window_fns_def)
  have sf1: "rbfe_locals.stored_frames loc1
        = map (rbfe_window_frames ops proto states) (filter (\<lambda>j. int j \<in> set keep) [0..<Suc i])"
    and sb1: "rbfe_locals.stored_boxes loc1
        = map (rbfe_window_boxes ops proto states) (filter (\<lambda>j. int j \<in> set keep) [0..<Suc i])"
    using inv l1 wf wb by (simp_all add: rbfe_inv_def)
  have same1: "prev_frames loc1 = prev_frames loc" "prev_boxes loc1 = prev_boxes loc"
    "prev_batch_U_fns loc1 = prev_batch_U_fns loc"
    "rbfe_locals.all_dGs loc1 = rbfe_locals.all_dGs loc" "rbfe_locals.all_errs loc1 = rbfe_locals.all_errs loc"
    using l1 by simp_all
  have smp_all: "\<forall>j < Suc i. \<exists>c b. rbfe_sample ops (states ! j) proto = Inr (c, b)"
    using inv smp by (auto simp: rbfe_inv_def less_Suc_eq)
  show ?thesis
  proof (cases "0 < i")
    case False
    then have i0: "i = 0" by simp
    have "loc2 = loc1" using l2 i0 by simp
    then show ?thesis
      using sf1 sb1 same1 inv l' wf wb wn smp_all i0 by (simp add: rbfe_inv_def)
  next
    case True
    then have ps: "pair_step imp beta prefix names i \<lparr> obj_id = FramesOf i, obj_val = coords \<rparr>
                      \<lparr> obj_id = BoxesOf i, obj_val = bxs \<rparr> ?fns loc1 = Inr loc2"
      using l2 by simp
    have prev: "prev_frames loc1 = Some (rbfe_window_frames ops proto states (i - 1))"
      "prev_boxes loc1 = Some (rbfe_window_boxes ops proto states (i - 1))"
      "prev_batch_U_fns loc1 = Some (rbfe_window_fns ops states (i - 1))"
      using inv True same1 by (simp_all add: rbfe_inv_def)
    from pair_step_Inr [OF ps] prev obtain dG err where
        sw: "summed_work_bar imp beta
              (obj_val (rbfe_window_frames ops proto states (i - 1)))
              (obj_val (rbfe_window_boxes ops proto states (i - 1)))
              coords bxs (rbfe_window_fns ops states (i - 1)) ?fns = Inr (dG, err)"
        and dg: "rbfe_locals.all_dGs loc2 = rbfe_locals.all_dGs loc1 @ [dG]"
        and er: "rbfe_locals.all_errs loc2 = rbfe_locals.all_errs loc1 @ [err]"
        and sf2: "rbfe_locals.stored_frames loc2 = rbfe_locals.stored_frames loc1"
        and sb2: "rbfe_locals.stored_boxes loc2 = rbfe_locals.stored_boxes loc1"
      by auto
    have len: "length (rbfe_locals.all_dGs loc) = i - 1" "length (rbfe_locals.all_errs loc) = i - 1"
      using inv by (simp_all add: rbfe_inv_def)
    have old: "\<forall>j. Suc j < i \<longrightarrow>
            summed_work_bar imp beta
              (obj_val (rbfe_window_frames ops proto states j)) (obj_val (rbfe_window_boxes ops proto states j))
              (obj_val (rbfe_window_frames ops proto states (Suc j)))
              (obj_val (rbfe_window_boxes ops proto states (Suc j)))
              (rbfe_window_fns ops states j) (rbfe_window_fns ops states (Suc j))
            = Inr (rbfe_locals.all_dGs loc ! j, rbfe_locals.all_errs loc ! j)"
      using inv by (simp add: rbfe_inv_def)
    have new: "\<forall>j. Suc j < Suc i \<longrightarrow>
            summed_work_bar imp beta
              (obj_val (rbfe_window_frames ops proto states j)) (obj_val (rbfe_window_boxes ops proto states j))
              (obj_val (rbfe_window_frames ops proto states (Suc j)))
              (obj_val (rbfe_window_boxes ops proto states (Suc j)))
              (rbfe_window_fns ops states j) (rbfe_window_fns ops states (Suc j))
            = Inr (rbfe_locals.all_dGs loc' ! j, rbfe_locals.all_errs loc' ! j)"
    proof (intro allI impI)
      fix j assume j: "Suc j < Suc i"
      show "summed_work_bar imp beta
              (obj_val (rbfe_window_frames ops proto states j)) (obj_val (rbfe_window_boxes ops proto states j))
              (obj_val (rbfe_window_frames ops proto states (Suc j)))
              (obj_val (rbfe_window_boxes ops proto states (Suc j)))
              (rbfe_window_fns ops states j) (rbfe_window_fns ops states (Suc j))
            = Inr (rbfe_locals.all_dGs loc' ! j, rbfe_locals.all_errs loc' ! j)"
      proof (cases "Suc j < i")
        case True
        then have "j < i - 1" by simp
        then have "rbfe_locals.all_dGs loc' ! j = rbfe_locals.all_dGs loc ! j"
          "rbfe_locals.all_errs loc' ! j = rbfe_locals.all_errs loc ! j"
          using l' dg er same1 len by (simp_all add: nth_append)
        then show ?thesis using old True by simp
      next
        case False
        then have ji: "Suc j = i" using j by simp
        then have "rbfe_locals.all_dGs loc' ! j = dG" "rbfe_locals.all_errs loc' ! j = err"
          using l' dg er same1 len by (auto simp: nth_append)
        moreover have "i - 1 = j" using ji by simp
        ultimately show ?thesis using sw wf wb wn ji by simp
      qed
    qed
    show ?thesis
      unfolding rbfe_inv_def
      using sf1 sb1 sf2 sb2 l' wf wb wn smp_all new dg er same1 len True by simp
  qed
qed


lemma rbfe_init_inv: "rbfe_inv imp ops proto beta keep states 0 (rbfe_init fig)"
  by (simp add: rbfe_inv_def rbfe_init_def)

lemma rbfe_loop_inv:
  assumes "rbfe_inv imp ops proto beta keep (pre @ ss) (length pre) loc"
    and "rbfe_loop imp ops proto beta prefix keep names (length pre) ss loc = Inr loc'"
  shows "rbfe_inv imp ops proto beta keep (pre @ ss) (length pre + length ss) loc'"
  using assms
proof (induction ss arbitrary: pre loc)
  case Nil
  then show ?case by simp
next
  case (Cons s ss)
  from Cons.prems(2) obtain l1 where
      b: "rbfe_body imp ops proto beta prefix keep names (length pre) s loc = Inr l1"
      and r: "rbfe_loop imp ops proto beta prefix keep names (Suc (length pre)) ss l1 = Inr loc'"
    by (auto simp: on_success_Inr_iff)
  have "(pre @ s # ss) ! length pre = s" by simp
  with b have "rbfe_body imp ops proto beta prefix keep names (length pre) ((pre @ s # ss) ! length pre) loc = Inr l1"
    by simp
  from rbfe_body_inv [OF Cons.prems(1) this]
  have "rbfe_inv imp ops proto beta keep ((pre @ [s]) @ ss) (length (pre @ [s])) l1" by simp
  moreover have "rbfe_loop imp ops proto beta prefix keep names (length (pre @ [s])) ss l1 = Inr loc'"
    using r by simp
  ultimately have "rbfe_inv imp ops proto beta keep ((pre @ [s]) @ ss) (length (pre @ [s]) + length ss) loc'"
    by (rule Cons.IH)
  then show ?case by simp
qed

lemma rbfe_estimate_Inr:
  assumes "rbfe_estimate_free_energy_given_initial_states imp ops states proto temp prefix keep = Inr res"
  shows "\<exists>loc. rbfe_inv imp ops proto (1 / (rbfe_imports.BOLTZ imp * temp)) keep states (length states) loc
           \<and> rbfe_SimulationResult.all_dGs res = rbfe_locals.all_dGs loc
           \<and> rbfe_SimulationResult.all_errs res = rbfe_locals.all_errs loc
           \<and> rbfe_SimulationResult.frames res = rbfe_locals.stored_frames loc
           \<and> rbfe_SimulationResult.boxes res = rbfe_locals.stored_boxes loc
           \<and> rbfe_SimulationResult.initial_states res = states
           \<and> protocol res = proto"
proof -
  let ?beta = "1 / (rbfe_imports.BOLTZ imp * temp)"
  from assms obtain fig loc names png where
      lp: "rbfe_loop imp ops proto ?beta prefix keep
             names 0 states (rbfe_init fig) = Inr loc"
      and res: "res = \<lparr> rbfe_SimulationResult.all_dGs = rbfe_locals.all_dGs loc,
              rbfe_SimulationResult.all_errs = rbfe_locals.all_errs loc,
              plot_png = png,
              rbfe_SimulationResult.frames = rbfe_locals.stored_frames loc,
              rbfe_SimulationResult.boxes = rbfe_locals.stored_boxes loc,
              rbfe_SimulationResult.initial_states = states,
              protocol = proto \<rparr>"
    unfolding rbfe_estimate_free_energy_given_initial_states_def Let_def
    by (auto simp: on_success_Inr_iff split: if_splits)
  have "rbfe_inv imp ops proto ?beta keep ([] @ states) (length ([] :: 'a rbfe_InitialState list)) (rbfe_init fig)"
    by (simp add: rbfe_init_inv)
  moreover have "rbfe_loop imp ops proto ?beta prefix keep
             names (length ([] :: 'a rbfe_InitialState list)) states (rbfe_init fig) = Inr loc"
    using lp by simp
  ultimately have "rbfe_inv imp ops proto ?beta keep ([] @ states)
      (length ([] :: 'a rbfe_InitialState list) + length states) loc"
    by (rule rbfe_loop_inv)
  then show ?thesis using res by auto
qed


lemma filter_default_keep:
  assumes "0 < n"
  shows "filter (\<lambda>j. int j \<in> set [0, - 1]) [0..<n] = [0]"
proof -
  have "[0..<n] = 0 # [Suc 0..<n]" using assms by (simp add: upt_rec)
  moreover have "filter (\<lambda>j. int j \<in> set [0, - 1]) [Suc 0..<n] = []"
    by (auto simp: filter_empty_conv)
  ultimately show ?thesis by simp
qed

lemma length_setup_initial_states:
  "length (setup_initial_states sys temp schedule sd) = length schedule"
  by (simp add: setup_initial_states_def)

lemma estimate_relative_cases:
  assumes "schedule = (case lambda_schedule of None \<Rightarrow> default_lambda_schedule | Some l \<Rightarrow> l)"
    and "states = setup_initial_states sys (DEFAULT_TEMP imp) schedule sd"
    and "proto = \<lparr> SimulationProtocol.n_frames = frames_per_window, burn_in = 10000,
                    SimulationProtocol.steps_per_frame = 1000 \<rparr>"
    and "keep = (case keep_idxs of None \<Rightarrow> [0, - 1] | Some l \<Rightarrow> l)"
    and "pfx = mol_a_name sys @ ''_'' @ mol_b_name sys @ ''_'' @ prefix"
  shows "estimate_relative_free_energy imp ops sys sd frames_per_window prefix lambda_schedule keep_idxs =
     (if \<not> length keep \<le> length schedule then Inl (Exc (AssertionError []))
      else case rbfe_estimate_free_energy_given_initial_states imp ops states proto (DEFAULT_TEMP imp) pfx keep of
               Inr result \<Rightarrow> Inr result
             | Inl old_exc \<Rightarrow> Inl (SimulationException states proto pfx old_exc))"
  unfolding estimate_relative_free_energy_def Let_def assms by simp

section \<open>The default keep\_idxs of estimate\_relative\_free\_energy\<close>

text \<open>
  Claim C10. A call of \<^verbatim>\<open>estimate_relative_free_energy\<close> with \<^verbatim>\<open>keep_idxs=None\<close> is the
  call with \<^verbatim>\<open>keep_idxs=[0, -1]\<close>. When it returns, the ladder has at least two windows
  and the returned frames and boxes each hold exactly one object, that of window 0:
  the index \<^verbatim>\<open>lamb_idx\<close> is never negative, so \<^verbatim>\<open>-1\<close> selects nothing and the
  trajectory of the last window is not retained.
\<close>

theorem default_keep_idxs_first_window_only:
  assumes run: "estimate_relative_free_energy imp ops sys sd frames_per_window prefix lambda_schedule None = Inr r"
    and schedule: "schedule = (case lambda_schedule of None \<Rightarrow> default_lambda_schedule | Some l \<Rightarrow> l)"
    and states: "states = setup_initial_states sys (DEFAULT_TEMP imp) schedule sd"
    and proto: "proto = \<lparr> SimulationProtocol.n_frames = frames_per_window, burn_in = 10000,
                    SimulationProtocol.steps_per_frame = 1000 \<rparr>"
  shows "estimate_relative_free_energy imp ops sys sd frames_per_window prefix lambda_schedule (Some [0, - 1]) = Inr r
       \<and> 2 \<le> length states
       \<and> rbfe_SimulationResult.frames r = [rbfe_window_frames ops proto states 0]
       \<and> rbfe_SimulationResult.boxes r = [rbfe_window_boxes ops proto states 0]
       \<and> length (rbfe_SimulationResult.frames r) = 1
       \<and> rbfe_window_frames ops proto states (length states - 1) \<notin> set (rbfe_SimulationResult.frames r)
       \<and> rbfe_window_boxes ops proto states (length states - 1) \<notin> set (rbfe_SimulationResult.boxes r)"
proof -
  let ?pfx = "mol_a_name sys @ ''_'' @ mol_b_name sys @ ''_'' @ prefix"
  have same: "estimate_relative_free_energy imp ops sys sd frames_per_window prefix lambda_schedule (Some [0, - 1])
      = estimate_relative_free_energy imp ops sys sd frames_per_window prefix lambda_schedule None"
    by (simp add: estimate_relative_free_energy_def)
  have c: "estimate_relative_free_energy imp ops sys sd frames_per_window prefix lambda_schedule None =
     (if \<not> length [0, - 1 :: int] \<le> length schedule then Inl (Exc (AssertionError []))
      else case rbfe_estimate_free_energy_given_initial_states imp ops states proto (DEFAULT_TEMP imp) ?pfx [0, - 1] of
               Inr result \<Rightarrow> Inr result
             | Inl old_exc \<Rightarrow> Inl (SimulationException states proto ?pfx old_exc))"
    by (rule estimate_relative_cases [OF schedule states proto]) simp_all
  have len: "2 \<le> length states"
    using run c states by (auto simp: length_setup_initial_states split: if_splits)
  have inner: "rbfe_estimate_free_energy_given_initial_states imp ops states proto (DEFAULT_TEMP imp) ?pfx [0, - 1] = Inr r"
    using run c by (auto split: if_splits sum.splits)
  from rbfe_estimate_Inr [OF inner] obtain loc where
      inv: "rbfe_inv imp ops proto (1 / (rbfe_imports.BOLTZ imp * DEFAULT_TEMP imp)) [0, - 1] states (length states) loc"
      and fr: "rbfe_SimulationResult.frames r = rbfe_locals.stored_frames loc"
      and bx: "rbfe_SimulationResult.boxes r = rbfe_locals.stored_boxes loc"
    by blast
  have pos: "0 < length states" using len by (cases states) simp_all
  have f: "rbfe_SimulationResult.frames r = [rbfe_window_frames ops proto states 0]"
    using inv fr filter_default_keep [OF pos] by (simp add: rbfe_inv_def)
  have b: "rbfe_SimulationResult.boxes r = [rbfe_window_boxes ops proto states 0]"
    using inv bx filter_default_keep [OF pos] by (simp add: rbfe_inv_def)
  have ne: "length states - 1 \<noteq> 0" using len by simp
  have "rbfe_window_frames ops proto states (length states - 1) \<noteq> rbfe_window_frames ops proto states 0"
    using ne by (simp add: rbfe_window_frames_def)
  moreover have "rbfe_window_boxes ops proto states (length states - 1) \<noteq> rbfe_window_boxes ops proto states 0"
    using ne by (simp add: rbfe_window_boxes_def)
  ultimately show ?thesis using same run len f b by simp
qed

lemma demo_relative_run:
  "(case estimate_relative_free_energy demo_rbfe_imports (demo_ops False) demo_system 2022 2 ''pre''
           (Some [0, 1 / 2, 1]) None of Inl _ \<Rightarrow> False | Inr _ \<Rightarrow> True)"
  by code_simp

theorem default_keep_idxs_first_window_only_witness:
  "rbfe_SimulationResult.frames
     (projr (estimate_relative_free_energy demo_rbfe_imports (demo_ops False) demo_system 2022 2 ''pre''
           (Some [0, 1 / 2, 1]) None))
   = [rbfe_window_frames (demo_ops False)
        \<lparr> SimulationProtocol.n_frames = 2, burn_in = 10000, SimulationProtocol.steps_per_frame = 1000 \<rparr>
        (setup_initial_states demo_system (DEFAULT_TEMP demo_rbfe_imports) [0, 1 / 2, 1] 2022) 0]
   \<and> length (rbfe_SimulationResult.frames
     (projr (estimate_relative_free_energy demo_rbfe_imports (demo_ops False) demo_system 2022 2 ''pre''
           (Some [0, 1 / 2, 1]) None))) = 1
   \<and> length (setup_initial_states demo_system (DEFAULT_TEMP demo_rbfe_imports) [0, 1 / 2, 1] 2022) = 3"
proof -
  have "estimate_relative_free_energy demo_rbfe_imports (demo_ops False) demo_system 2022 2 ''pre''
           (Some [0, 1 / 2, 1]) None
        = Inr (projr (estimate_relative_free_energy demo_rbfe_imports (demo_ops False) demo_system 2022 2 ''pre''
           (Some [0, 1 / 2, 1]) None))"
    using demo_relative_run by (simp split: sum.splits)
  from default_keep_idxs_first_window_only [OF this refl refl refl]
  show ?thesis by (simp add: length_setup_initial_states)
qed

section \<open>The exception of estimate\_relative\_free\_energy\<close>

text \<open>
  Claim C8. Once the assertion on \<^verbatim>\<open>keep_idxs\<close> has passed, whatever exception the call
  of \<^verbatim>\<open>estimate_free_energy_given_initial_states\<close> raises leaves
  \<^verbatim>\<open>estimate_relative_free_energy\<close> as one \<^verbatim>\<open>SimulationException\<close> that carries the list
  of initial states, the protocol and the combined prefix and is raised from that
  exception; a result is returned unchanged; a window whose sampling raises never yields
  a result; and no exception other than a \<^verbatim>\<open>SimulationException\<close> leaves the function.
\<close>

theorem simulation_exception_wrapping:
  assumes schedule: "schedule = (case lambda_schedule of None \<Rightarrow> default_lambda_schedule | Some l \<Rightarrow> l)"
    and states: "states = setup_initial_states sys (DEFAULT_TEMP imp) schedule sd"
    and proto: "proto = \<lparr> SimulationProtocol.n_frames = frames_per_window, burn_in = 10000,
                    SimulationProtocol.steps_per_frame = 1000 \<rparr>"
    and keep: "keep = (case keep_idxs of None \<Rightarrow> [0, - 1] | Some l \<Rightarrow> l)"
    and pfx: "pfx = mol_a_name sys @ ''_'' @ mol_b_name sys @ ''_'' @ prefix"
    and len: "length keep \<le> length schedule"
  shows "(\<forall>e. rbfe_estimate_free_energy_given_initial_states imp ops states proto (DEFAULT_TEMP imp) pfx keep = Inl e
            \<longrightarrow> estimate_relative_free_energy imp ops sys sd frames_per_window prefix lambda_schedule keep_idxs
                  = Inl (SimulationException states proto pfx e))
       \<and> (\<forall>r. rbfe_estimate_free_energy_given_initial_states imp ops states proto (DEFAULT_TEMP imp) pfx keep = Inr r
            \<longrightarrow> estimate_relative_free_energy imp ops sys sd frames_per_window prefix lambda_schedule keep_idxs
                  = Inr r)
       \<and> (\<forall>i e. i < length states \<and> rbfe_sample ops (states ! i) proto = Inl e
            \<longrightarrow> (\<exists>e'. estimate_relative_free_energy imp ops sys sd frames_per_window prefix lambda_schedule keep_idxs
                  = Inl (SimulationException states proto pfx e')))
       \<and> (\<forall>e. estimate_relative_free_energy imp ops sys sd frames_per_window prefix lambda_schedule keep_idxs
                  \<noteq> Inl (Exc e))"
proof -
  let ?inner = "rbfe_estimate_free_energy_given_initial_states imp ops states proto (DEFAULT_TEMP imp) pfx keep"
  let ?outer = "estimate_relative_free_energy imp ops sys sd frames_per_window prefix lambda_schedule keep_idxs"
  have c: "?outer = (case ?inner of Inr result \<Rightarrow> Inr result
                     | Inl old_exc \<Rightarrow> Inl (SimulationException states proto pfx old_exc))"
    using estimate_relative_cases [OF schedule states proto keep pfx] len by simp
  have a: "\<forall>e. ?inner = Inl e \<longrightarrow> ?outer = Inl (SimulationException states proto pfx e)"
    using c by simp
  have b: "\<forall>r. ?inner = Inr r \<longrightarrow> ?outer = Inr r"
    using c by simp
  have d: "\<forall>e. ?outer \<noteq> Inl (Exc e)"
    using c by (simp split: sum.splits)
  have s: "\<forall>i e. i < length states \<and> rbfe_sample ops (states ! i) proto = Inl e
            \<longrightarrow> (\<exists>e'. ?outer = Inl (SimulationException states proto pfx e'))"
  proof (intro allI impI)
    fix i e assume ie: "i < length states \<and> rbfe_sample ops (states ! i) proto = Inl e"
    show "\<exists>e'. ?outer = Inl (SimulationException states proto pfx e')"
    proof (cases ?inner)
      case (Inl e')
      then show ?thesis using a by blast
    next
      case (Inr r)
      from rbfe_estimate_Inr [OF Inr] obtain loc where
        "rbfe_inv imp ops proto (1 / (rbfe_imports.BOLTZ imp * DEFAULT_TEMP imp)) keep states (length states) loc"
        by blast
      then have "\<forall>j < length states. \<exists>c b. rbfe_sample ops (states ! j) proto = Inr (c, b)"
        by (simp add: rbfe_inv_def)
      with ie show ?thesis by auto
    qed
  qed
  from a b s d show ?thesis by blast
qed

lemma demo_relative_fails:
  "rbfe_estimate_free_energy_given_initial_states demo_rbfe_imports (demo_ops False)
     (setup_initial_states demo_system (DEFAULT_TEMP demo_rbfe_imports) [0, 1 / 2, 1] 2022)
     \<lparr> SimulationProtocol.n_frames = - 1, burn_in = 10000, SimulationProtocol.steps_per_frame = 1000 \<rparr>
     (DEFAULT_TEMP demo_rbfe_imports)
     (mol_a_name demo_system @ ''_'' @ mol_b_name demo_system @ ''_'' @ ''pre'') [0, - 1]
   = Inl (AssertionError [])"
  by code_simp

theorem simulation_exception_wrapping_witness:
  "estimate_relative_free_energy demo_rbfe_imports (demo_ops False) demo_system 2022 (- 1) ''pre''
      (Some [0, 1 / 2, 1]) None
   = Inl (SimulationException
            (setup_initial_states demo_system 300 [0, 1 / 2, 1] 2022)
            \<lparr> SimulationProtocol.n_frames = - 1, burn_in = 10000, SimulationProtocol.steps_per_frame = 1000 \<rparr>
            ''a_b_pre'' (AssertionError []))"
proof -
  have len: "length (case None of None \<Rightarrow> [0, - 1 :: int] | Some l \<Rightarrow> l)
               \<le> length (case Some [0, 1 / 2, 1 :: real] of None \<Rightarrow> default_lambda_schedule | Some l \<Rightarrow> l)"
    by simp
  from simulation_exception_wrapping [where imp = demo_rbfe_imports and sys = demo_system
      and sd = 2022 and frames_per_window = "- 1" and prefix = "''pre''" and ops = "demo_ops False"
      and lambda_schedule = "Some [0, 1 / 2, 1]" and keep_idxs = None,
      OF refl refl refl refl refl len]
  have "rbfe_estimate_free_energy_given_initial_states demo_rbfe_imports (demo_ops False)
     (setup_initial_states demo_system (DEFAULT_TEMP demo_rbfe_imports) [0, 1 / 2, 1] 2022)
     \<lparr> SimulationProtocol.n_frames = - 1, burn_in = 10000, SimulationProtocol.steps_per_frame = 1000 \<rparr>
     (DEFAULT_TEMP demo_rbfe_imports)
     (mol_a_name demo_system @ ''_'' @ mol_b_name demo_system @ ''_'' @ ''pre'') [0, - 1]
   = Inl (AssertionError [])
   \<longrightarrow> estimate_relative_free_energy demo_rbfe_imports (demo_ops False) demo_system 2022 (- 1) ''pre''
      (Some [0, 1 / 2, 1]) None
     = Inl (SimulationException
            (setup_initial_states demo_system (DEFAULT_TEMP demo_rbfe_imports) [0, 1 / 2, 1] 2022)
            \<lparr> SimulationProtocol.n_frames = - 1, burn_in = 10000, SimulationProtocol.steps_per_frame = 1000 \<rparr>
            (mol_a_name demo_system @ ''_'' @ mol_b_name demo_system @ ''_'' @ ''pre'') (AssertionError []))"
    by simp
  with demo_relative_fails show ?thesis
    by (simp add: demo_rbfe_imports_def demo_system_def)
qed

section \<open>The reduced works of an adjacent pair\<close>

lemma map_err_map:
  assumes "\<And>x. x \<in> set xs \<Longrightarrow> f x = Inr (g x)"
  shows "map_err f xs = Inr (map g xs)"
  using assms by (induction xs) simp_all

lemma sum_list_nth_upt:
  "sum_list (map (\<lambda>c. h (xs ! c)) [0..<length xs]) = sum_list (map h xs)"
proof -
  have "map (\<lambda>c. h (xs ! c)) [0..<length xs] = map h (map (\<lambda>c. xs ! c) [0..<length xs])"
    by simp
  also have "\<dots> = map h xs" by (simp only: map_nth)
  finally show ?thesis by simp
qed

lemma reduced_works_Inr:
  assumes "shape u = [2, 2, T]"
  shows "reduced_works u =
           Inr (\<lparr> shape = [T], item = (\<lambda>idx. item u (1 # 0 # idx) - item u (0 # 0 # idx)) \<rparr>,
                \<lparr> shape = [T], item = (\<lambda>idx. item u (0 # 1 # idx) - item u (1 # 1 # idx)) \<rparr>)"
  using assms by (simp add: reduced_works_def getitem2_def np_minus_def)

lemma sum_axis0_Inr:
  assumes "shape a = n # rest"
  shows "sum_axis0 a = Inr \<lparr> shape = rest, item = (\<lambda>idx. sum_list (map (\<lambda>c. item a (c # idx)) [0..<n])) \<rparr>"
  using assms by (simp add: sum_axis0_def)

lemma np_array_Inr:
  assumes "as \<noteq> []" and "\<And>a. a \<in> set as \<Longrightarrow> shape a = sh"
  shows "\<exists>r. np_array as = Inr r \<and> shape r = length as # sh
           \<and> (\<forall>i idx. i < length as \<longrightarrow> item r (i # idx) = item (as ! i) idx)"
proof (cases as)
  case Nil
  then show ?thesis using assms by simp
next
  case (Cons a rest)
  have "list_all (\<lambda>b. shape b = shape a) (a # rest)"
    using assms(2) Cons by (simp add: list_all_iff)
  moreover have "shape a = sh" using assms(2) Cons by simp
  ultimately show ?thesis unfolding Cons by (simp add: np_array_def)
qed

lemma np_sum0_Inr:
  assumes "\<And>a. a \<in> set as \<Longrightarrow> shape a = sh"
  shows "\<exists>t. np_sum0 as = Inr t \<and> (\<forall>idx. item t idx = sum_list (map (\<lambda>a. item a idx) as))"
proof (cases "as = []")
  case True
  then show ?thesis by (simp add: np_sum0_def np_array_def sum_axis0_def)
next
  case False
  from np_array_Inr [OF False assms] obtain r where
      r: "np_array as = Inr r" and sh: "shape r = length as # sh"
      and it: "\<forall>i idx. i < length as \<longrightarrow> item r (i # idx) = item (as ! i) idx"
    by blast
  have eq: "\<And>idx. map (\<lambda>c. item r (c # idx)) [0..<length as] = map (\<lambda>c. item (as ! c) idx) [0..<length as]"
    using it by simp
  have "\<And>idx. sum_list (map (\<lambda>c. item r (c # idx)) [0..<length as]) = sum_list (map (\<lambda>a. item a idx) as)"
    unfolding eq by (rule sum_list_nth_upt)
  then show ?thesis
    using r sum_axis0_Inr [OF sh] by (simp add: np_sum0_def)
qed

lemma get_batch_U_fns_item:
  assumes "c < length bps" and "f < length xs" and "length xs = length bxs"
  shows "item ((get_batch_U_fns ops bps lam ! c) xs bxs) [f] = U_total ops [bps ! c] lam (xs ! f) (bxs ! f)"
  using assms by (simp add: get_batch_U_fns_def array1_def U_total_def)

lemma get_batch_U_fns_shape:
  assumes "c < length bps"
  shows "shape ((get_batch_U_fns ops bps lam ! c) xs bxs) = [length (zip xs bxs)]"
  using assms by (simp add: get_batch_U_fns_def array1_def)

lemma length_get_batch_U_fns: "length (get_batch_U_fns ops bps lam) = length bps"
  by (simp add: get_batch_U_fns_def)

lemma delta_us_Inr:
  assumes "shape (cur_U_fn pf pb) = shape (prev_U_fn pf pb)"
    and "shape (prev_U_fn cf cb) = shape (cur_U_fn cf cb)"
  shows "delta_us beta pf pb cf cb (prev_U_fn, cur_U_fn) =
           Inr (\<lparr> shape = shape (cur_U_fn pf pb),
                   item = (\<lambda>idx. beta * (item (cur_U_fn pf pb) idx - item (prev_U_fn pf pb) idx)) \<rparr>,
                \<lparr> shape = shape (prev_U_fn cf cb),
                   item = (\<lambda>idx. beta * (item (prev_U_fn cf cb) idx - item (cur_U_fn cf cb) idx)) \<rparr>)"
  using assms by (simp add: delta_us_def np_minus_def np_scale_def)

lemma sum_list_scaled_diff:
  fixes p q :: "nat \<Rightarrow> real"
  shows "sum_list (map (\<lambda>c. beta * (p c - q c)) l) = beta * (sum_list (map p l) - sum_list (map q l))"
  by (induction l) (simp_all add: algebra_simps)

lemma U_total_single_sum:
  "sum_list (map (\<lambda>c. U_total ops [bps ! c] lam x bx) [0..<length bps]) = U_total ops bps lam x bx"
proof -
  have "sum_list (map (\<lambda>c. (\<lambda>bp. U_total ops [bp] lam x bx) (bps ! c)) [0..<length bps])
        = sum_list (map (\<lambda>bp. U_total ops [bp] lam x bx) bps)"
    by (rule sum_list_nth_upt)
  then show ?thesis by (simp add: U_total_def)
qed

lemma batch_works:
  assumes n: "length bpsA = length bpsB" and pl: "length pf = length pb" and cl: "length cf = length cb"
  shows "\<exists>works tf tr.
      map_err (delta_us beta pf pb cf cb) (zip (get_batch_U_fns ops bpsA lamA) (get_batch_U_fns ops bpsB lamB))
        = Inr works
      \<and> length works = length bpsA
      \<and> (\<forall>c f. c < length bpsA \<and> f < length pf \<longrightarrow>
            item (fst (works ! c)) [f]
              = beta * (U_total ops [bpsB ! c] lamB (pf ! f) (pb ! f) - U_total ops [bpsA ! c] lamA (pf ! f) (pb ! f)))
      \<and> (\<forall>c f. c < length bpsA \<and> f < length cf \<longrightarrow>
            item (snd (works ! c)) [f]
              = beta * (U_total ops [bpsA ! c] lamA (cf ! f) (cb ! f) - U_total ops [bpsB ! c] lamB (cf ! f) (cb ! f)))
      \<and> np_sum0 (map fst works) = Inr tf
      \<and> np_sum0 (map snd works) = Inr tr
      \<and> (\<forall>f < length pf. item tf [f]
              = beta * (U_total ops bpsB lamB (pf ! f) (pb ! f) - U_total ops bpsA lamA (pf ! f) (pb ! f)))
      \<and> (\<forall>f < length cf. item tr [f]
              = beta * (U_total ops bpsA lamA (cf ! f) (cb ! f) - U_total ops bpsB lamB (cf ! f) (cb ! f)))"
proof -
  let ?A = "get_batch_U_fns ops bpsA lamA"
  let ?B = "get_batch_U_fns ops bpsB lamB"
  have lz: "length (zip ?A ?B) = length bpsA" using n by (simp add: length_get_batch_U_fns)
  have shp: "\<And>c xs bxs. c < length bpsA \<Longrightarrow> shape ((?A ! c) xs bxs) = [length (zip xs bxs)]"
    "\<And>c xs bxs. c < length bpsA \<Longrightarrow> shape ((?B ! c) xs bxs) = [length (zip xs bxs)]"
    using n by (simp_all add: get_batch_U_fns_shape)
  have d: "\<And>c. c < length bpsA \<Longrightarrow>
      delta_us beta pf pb cf cb (zip ?A ?B ! c) =
           Inr (\<lparr> shape = [length (zip pf pb)],
                   item = (\<lambda>idx. beta * (item ((?B ! c) pf pb) idx - item ((?A ! c) pf pb) idx)) \<rparr>,
                \<lparr> shape = [length (zip cf cb)],
                   item = (\<lambda>idx. beta * (item ((?A ! c) cf cb) idx - item ((?B ! c) cf cb) idx)) \<rparr>)"
    using n shp by (simp add: length_get_batch_U_fns delta_us_Inr)
  have "\<And>x. x \<in> set (zip ?A ?B) \<Longrightarrow> delta_us beta pf pb cf cb x = Inr (projr (delta_us beta pf pb cf cb x))"
  proof -
    fix x assume "x \<in> set (zip ?A ?B)"
    then obtain c where "c < length bpsA" and "x = zip ?A ?B ! c"
      using lz by (metis in_set_conv_nth)
    then show "delta_us beta pf pb cf cb x = Inr (projr (delta_us beta pf pb cf cb x))"
      using d by simp
  qed
  then have "map_err (delta_us beta pf pb cf cb) (zip ?A ?B)
               = Inr (map (\<lambda>x. projr (delta_us beta pf pb cf cb x)) (zip ?A ?B))"
    by (rule map_err_map)
  then obtain works where w: "map_err (delta_us beta pf pb cf cb) (zip ?A ?B) = Inr works" by blast
  from map_err_Inr [OF w] n have lw: "length works = length bpsA"
    and nw: "\<forall>c < length bpsA. delta_us beta pf pb cf cb (zip ?A ?B ! c) = Inr (works ! c)"
    by (simp_all add: length_get_batch_U_fns)
  have pairw: "\<And>c. c < length bpsA \<Longrightarrow> works ! c =
           (\<lparr> shape = [length (zip pf pb)],
                   item = (\<lambda>idx. beta * (item ((?B ! c) pf pb) idx - item ((?A ! c) pf pb) idx)) \<rparr>,
            \<lparr> shape = [length (zip cf cb)],
                   item = (\<lambda>idx. beta * (item ((?A ! c) cf cb) idx - item ((?B ! c) cf cb) idx)) \<rparr>)"
  proof -
    fix c assume c: "c < length bpsA"
    from nw c have "delta_us beta pf pb cf cb (zip ?A ?B ! c) = Inr (works ! c)" by blast
    with d [OF c] show "works ! c =
           (\<lparr> shape = [length (zip pf pb)],
                   item = (\<lambda>idx. beta * (item ((?B ! c) pf pb) idx - item ((?A ! c) pf pb) idx)) \<rparr>,
            \<lparr> shape = [length (zip cf cb)],
                   item = (\<lambda>idx. beta * (item ((?A ! c) cf cb) idx - item ((?B ! c) cf cb) idx)) \<rparr>)"
      by simp
  qed
  have fwd: "\<And>c f. c < length bpsA \<Longrightarrow> f < length pf \<Longrightarrow>
            item (fst (works ! c)) [f]
              = beta * (U_total ops [bpsB ! c] lamB (pf ! f) (pb ! f) - U_total ops [bpsA ! c] lamA (pf ! f) (pb ! f))"
    using n pl by (simp add: pairw get_batch_U_fns_item)
  have rev: "\<And>c f. c < length bpsA \<Longrightarrow> f < length cf \<Longrightarrow>
            item (snd (works ! c)) [f]
              = beta * (U_total ops [bpsA ! c] lamA (cf ! f) (cb ! f) - U_total ops [bpsB ! c] lamB (cf ! f) (cb ! f))"
    using n cl by (simp add: pairw get_batch_U_fns_item)
  have shf: "\<And>a. a \<in> set (map fst works) \<Longrightarrow> shape a = [length (zip pf pb)]"
  proof -
    fix a assume "a \<in> set (map fst works)"
    then obtain c where "c < length bpsA" and "a = fst (works ! c)"
      using lw by (auto simp: in_set_conv_nth)
    then show "shape a = [length (zip pf pb)]" by (simp add: pairw)
  qed
  have shr: "\<And>a. a \<in> set (map snd works) \<Longrightarrow> shape a = [length (zip cf cb)]"
  proof -
    fix a assume "a \<in> set (map snd works)"
    then obtain c where "c < length bpsA" and "a = snd (works ! c)"
      using lw by (auto simp: in_set_conv_nth)
    then show "shape a = [length (zip cf cb)]" by (simp add: pairw)
  qed
  from np_sum0_Inr [of "map fst works", OF shf] obtain tf where
      tf: "np_sum0 (map fst works) = Inr tf"
      and tfi: "\<forall>idx. item tf idx = sum_list (map (\<lambda>a. item a idx) (map fst works))"
    by blast
  from np_sum0_Inr [of "map snd works", OF shr] obtain tr where
      tr: "np_sum0 (map snd works) = Inr tr"
      and tri: "\<forall>idx. item tr idx = sum_list (map (\<lambda>a. item a idx) (map snd works))"
    by blast
  have tff: "\<forall>f < length pf. item tf [f]
              = beta * (U_total ops bpsB lamB (pf ! f) (pb ! f) - U_total ops bpsA lamA (pf ! f) (pb ! f))"
  proof (intro allI impI)
    fix f assume f: "f < length pf"
    have "item tf [f] = sum_list (map (\<lambda>w. item (fst w) [f]) works)"
      using tfi by (simp add: comp_def)
    also have "\<dots> = sum_list (map (\<lambda>c. item (fst (works ! c)) [f]) [0..<length works])"
      by (rule sum_list_nth_upt [symmetric])
    also have "\<dots> = sum_list (map (\<lambda>c. beta * (U_total ops [bpsB ! c] lamB (pf ! f) (pb ! f)
                                    - U_total ops [bpsA ! c] lamA (pf ! f) (pb ! f))) [0..<length bpsA])"
    proof -
      have "map (\<lambda>c. item (fst (works ! c)) [f]) [0..<length works]
            = map (\<lambda>c. beta * (U_total ops [bpsB ! c] lamB (pf ! f) (pb ! f)
                                    - U_total ops [bpsA ! c] lamA (pf ! f) (pb ! f))) [0..<length bpsA]"
        unfolding lw using fwd f by simp
      then show ?thesis by (rule arg_cong)
    qed
    also have "\<dots> = beta * (sum_list (map (\<lambda>c. U_total ops [bpsB ! c] lamB (pf ! f) (pb ! f)) [0..<length bpsA])
                      - sum_list (map (\<lambda>c. U_total ops [bpsA ! c] lamA (pf ! f) (pb ! f)) [0..<length bpsA]))"
      by (rule sum_list_scaled_diff)
    also have "\<dots> = beta * (U_total ops bpsB lamB (pf ! f) (pb ! f) - U_total ops bpsA lamA (pf ! f) (pb ! f))"
      using U_total_single_sum [of ops bpsB lamB] U_total_single_sum [of ops bpsA lamA] n by simp
    finally show "item tf [f]
              = beta * (U_total ops bpsB lamB (pf ! f) (pb ! f) - U_total ops bpsA lamA (pf ! f) (pb ! f))" .
  qed
  have trf: "\<forall>f < length cf. item tr [f]
              = beta * (U_total ops bpsA lamA (cf ! f) (cb ! f) - U_total ops bpsB lamB (cf ! f) (cb ! f))"
  proof (intro allI impI)
    fix f assume f: "f < length cf"
    have "item tr [f] = sum_list (map (\<lambda>w. item (snd w) [f]) works)"
      using tri by (simp add: comp_def)
    also have "\<dots> = sum_list (map (\<lambda>c. item (snd (works ! c)) [f]) [0..<length works])"
      by (rule sum_list_nth_upt [symmetric])
    also have "\<dots> = sum_list (map (\<lambda>c. beta * (U_total ops [bpsA ! c] lamA (cf ! f) (cb ! f)
                                    - U_total ops [bpsB ! c] lamB (cf ! f) (cb ! f))) [0..<length bpsA])"
    proof -
      have "map (\<lambda>c. item (snd (works ! c)) [f]) [0..<length works]
            = map (\<lambda>c. beta * (U_total ops [bpsA ! c] lamA (cf ! f) (cb ! f)
                                    - U_total ops [bpsB ! c] lamB (cf ! f) (cb ! f))) [0..<length bpsA]"
        unfolding lw using rev f by simp
      then show ?thesis by (rule arg_cong)
    qed
    also have "\<dots> = beta * (sum_list (map (\<lambda>c. U_total ops [bpsA ! c] lamA (cf ! f) (cb ! f)) [0..<length bpsA])
                      - sum_list (map (\<lambda>c. U_total ops [bpsB ! c] lamB (cf ! f) (cb ! f)) [0..<length bpsA]))"
      by (rule sum_list_scaled_diff)
    also have "\<dots> = beta * (U_total ops bpsA lamA (cf ! f) (cb ! f) - U_total ops bpsB lamB (cf ! f) (cb ! f))"
      using U_total_single_sum [of ops bpsB lamB] U_total_single_sum [of ops bpsA lamA] n by simp
    finally show "item tr [f]
              = beta * (U_total ops bpsA lamA (cf ! f) (cb ! f) - U_total ops bpsB lamB (cf ! f) (cb ! f))" .
  qed
  from w lw fwd rev tf tr tff trf show ?thesis by blast
qed


text \<open>
  Claim C4. In free\_energy.py the tensor of a pair, of shape \<open>P x 2 x 2 x T\<close>, is summed
  over its components and the two works are read from the sum: the forward work at
  frame \<open>f\<close> is \<open>u_kln[1, 0, f] - u_kln[0, 0, f]\<close>, the reverse work is
  \<open>u_kln[0, 1, f] - u_kln[1, 1, f]\<close>, where the first index is the energy function and
  the second the state the frames were sampled under. In rbfe.py, for the batch energy
  functions of a previous state A and a current state B with as many potentials, the
  forward work of each term at a frame \<open>x\<close> sampled under A is
  \<open>beta * (U_B(x) - U_A(x))\<close>, the reverse work at a frame sampled under B is
  \<open>beta * (U_A(x) - U_B(x))\<close>, and the works summed over the terms are the same
  expressions of the total energies. None of these steps raises.
\<close>

theorem reduced_work_construction:
  assumes sh: "shape uc = [P, 2, 2, T]"
    and n: "length bpsA = length bpsB" and pl: "length pf = length pb" and cl: "length cf = length cb"
  shows "\<exists>u_kln w_fwd w_rev works tf tr.
      sum_axis0 uc = Inr u_kln
      \<and> reduced_works u_kln = Inr (w_fwd, w_rev)
      \<and> (\<forall>k l f. item u_kln [k, l, f] = sum_list (map (\<lambda>c. item uc [c, k, l, f]) [0..<P]))
      \<and> shape w_fwd = [T] \<and> shape w_rev = [T]
      \<and> (\<forall>f. item w_fwd [f] = item u_kln [1, 0, f] - item u_kln [0, 0, f])
      \<and> (\<forall>f. item w_rev [f] = item u_kln [0, 1, f] - item u_kln [1, 1, f])
      \<and> map_err (delta_us beta pf pb cf cb) (zip (get_batch_U_fns ops bpsA lamA) (get_batch_U_fns ops bpsB lamB))
        = Inr works
      \<and> length works = length bpsA
      \<and> (\<forall>c f. c < length bpsA \<and> f < length pf \<longrightarrow>
            item (fst (works ! c)) [f]
              = beta * (U_total ops [bpsB ! c] lamB (pf ! f) (pb ! f) - U_total ops [bpsA ! c] lamA (pf ! f) (pb ! f)))
      \<and> (\<forall>c f. c < length bpsA \<and> f < length cf \<longrightarrow>
            item (snd (works ! c)) [f]
              = beta * (U_total ops [bpsA ! c] lamA (cf ! f) (cb ! f) - U_total ops [bpsB ! c] lamB (cf ! f) (cb ! f)))
      \<and> np_sum0 (map fst works) = Inr tf
      \<and> np_sum0 (map snd works) = Inr tr
      \<and> (\<forall>f < length pf. item tf [f]
              = beta * (U_total ops bpsB lamB (pf ! f) (pb ! f) - U_total ops bpsA lamA (pf ! f) (pb ! f)))
      \<and> (\<forall>f < length cf. item tr [f]
              = beta * (U_total ops bpsA lamA (cf ! f) (cb ! f) - U_total ops bpsB lamB (cf ! f) (cb ! f)))"
proof -
  let ?u = "\<lparr> shape = [2, 2, T], item = (\<lambda>idx. sum_list (map (\<lambda>c. item uc (c # idx)) [0..<P])) \<rparr>"
  have s: "sum_axis0 uc = Inr ?u" using sh by (rule sum_axis0_Inr)
  have r: "reduced_works ?u =
           Inr (\<lparr> shape = [T], item = (\<lambda>idx. item ?u (1 # 0 # idx) - item ?u (0 # 0 # idx)) \<rparr>,
                \<lparr> shape = [T], item = (\<lambda>idx. item ?u (0 # 1 # idx) - item ?u (1 # 1 # idx)) \<rparr>)"
    by (rule reduced_works_Inr) simp
  from batch_works [OF n pl cl, of beta ops lamA lamB] obtain works tf tr where
    b: "map_err (delta_us beta pf pb cf cb) (zip (get_batch_U_fns ops bpsA lamA) (get_batch_U_fns ops bpsB lamB))
        = Inr works
      \<and> length works = length bpsA
      \<and> (\<forall>c f. c < length bpsA \<and> f < length pf \<longrightarrow>
            item (fst (works ! c)) [f]
              = beta * (U_total ops [bpsB ! c] lamB (pf ! f) (pb ! f) - U_total ops [bpsA ! c] lamA (pf ! f) (pb ! f)))
      \<and> (\<forall>c f. c < length bpsA \<and> f < length cf \<longrightarrow>
            item (snd (works ! c)) [f]
              = beta * (U_total ops [bpsA ! c] lamA (cf ! f) (cb ! f) - U_total ops [bpsB ! c] lamB (cf ! f) (cb ! f)))
      \<and> np_sum0 (map fst works) = Inr tf
      \<and> np_sum0 (map snd works) = Inr tr
      \<and> (\<forall>f < length pf. item tf [f]
              = beta * (U_total ops bpsB lamB (pf ! f) (pb ! f) - U_total ops bpsA lamA (pf ! f) (pb ! f)))
      \<and> (\<forall>f < length cf. item tr [f]
              = beta * (U_total ops bpsA lamA (cf ! f) (cb ! f) - U_total ops bpsB lamB (cf ! f) (cb ! f)))"
    by blast
  have a: "sum_axis0 uc = Inr ?u
      \<and> reduced_works ?u = Inr (\<lparr> shape = [T], item = (\<lambda>idx. item ?u (1 # 0 # idx) - item ?u (0 # 0 # idx)) \<rparr>,
                \<lparr> shape = [T], item = (\<lambda>idx. item ?u (0 # 1 # idx) - item ?u (1 # 1 # idx)) \<rparr>)
      \<and> (\<forall>k l f. item ?u [k, l, f] = sum_list (map (\<lambda>c. item uc [c, k, l, f]) [0..<P]))
      \<and> shape \<lparr> shape = [T], item = (\<lambda>idx. item ?u (1 # 0 # idx) - item ?u (0 # 0 # idx)) \<rparr> = [T]
      \<and> shape \<lparr> shape = [T], item = (\<lambda>idx. item ?u (0 # 1 # idx) - item ?u (1 # 1 # idx)) \<rparr> = [T]
      \<and> (\<forall>f. item \<lparr> shape = [T], item = (\<lambda>idx. item ?u (1 # 0 # idx) - item ?u (0 # 0 # idx)) \<rparr> [f]
             = item ?u [1, 0, f] - item ?u [0, 0, f])
      \<and> (\<forall>f. item \<lparr> shape = [T], item = (\<lambda>idx. item ?u (0 # 1 # idx) - item ?u (1 # 1 # idx)) \<rparr> [f]
             = item ?u [0, 1, f] - item ?u [1, 1, f])"
    using s r by simp
  from a b show ?thesis by blast
qed

theorem reduced_work_construction_witness:
  "\<exists>w_fwd w_rev tf tr.
      reduced_works (projr (sum_axis0
          \<lparr> shape = [2, 2, 2, 1], item = (\<lambda>idx. real (foldr (\<lambda>i acc. i + 2 * acc) idx 0)) \<rparr>))
        = Inr (w_fwd, w_rev)
      \<and> item w_fwd [0] = 4 \<and> item w_rev [0] = - 4
      \<and> np_sum0 (map fst (projr (map_err
            (delta_us 2 [[[Finite 0, Finite 0, Finite 0]]] [demo_box] [[[Finite 1, Finite 1, Finite 1]]] [demo_box])
            (zip (get_batch_U_fns (demo_ops False) [1, 1] 0) (get_batch_U_fns (demo_ops False) [2, 3] (1 / 2))))))
        = Inr tf
      \<and> np_sum0 (map snd (projr (map_err
            (delta_us 2 [[[Finite 0, Finite 0, Finite 0]]] [demo_box] [[[Finite 1, Finite 1, Finite 1]]] [demo_box])
            (zip (get_batch_U_fns (demo_ops False) [1, 1] 0) (get_batch_U_fns (demo_ops False) [2, 3] (1 / 2))))))
        = Inr tr
      \<and> item tf [0] = 8 \<and> item tr [0] = - 8"
proof -
  from reduced_work_construction [where uc = "\<lparr> shape = [2, 2, 2, 1], item = (\<lambda>idx. real (foldr (\<lambda>i acc. i + 2 * acc) idx 0)) \<rparr>"
      and P = 2 and T = 1 and bpsA = "[1, 1]" and bpsB = "[2, 3]"
      and pf = "[[[Finite 0, Finite 0, Finite 0]]]" and pb = "[demo_box]"
      and cf = "[[[Finite 1, Finite 1, Finite 1]]]" and cb = "[demo_box]"
      and beta = 2 and ops = "demo_ops False" and lamA = 0 and lamB = "1 / 2"]
  obtain u_kln w_fwd w_rev works tf tr where
      "sum_axis0 \<lparr> shape = [2, 2, 2, 1], item = (\<lambda>idx. real (foldr (\<lambda>i acc. i + 2 * acc) idx 0)) \<rparr> = Inr u_kln"
      and "reduced_works u_kln = Inr (w_fwd, w_rev)"
      and "\<forall>k l f. item u_kln [k, l, f]
             = sum_list (map (\<lambda>c. real (foldr (\<lambda>i acc. i + 2 * acc) [c, k, l, f] 0)) [0..<2])"
      and "\<forall>f. item w_fwd [f] = item u_kln [1, 0, f] - item u_kln [0, 0, f]"
      and "\<forall>f. item w_rev [f] = item u_kln [0, 1, f] - item u_kln [1, 1, f]"
      and "map_err (delta_us 2 [[[Finite 0, Finite 0, Finite 0]]] [demo_box] [[[Finite 1, Finite 1, Finite 1]]] [demo_box])
            (zip (get_batch_U_fns (demo_ops False) [1, 1] 0) (get_batch_U_fns (demo_ops False) [2, 3] (1 / 2)))
           = Inr works"
      and "np_sum0 (map fst works) = Inr tf" and "np_sum0 (map snd works) = Inr tr"
      and "item tf [0] = 2 * (U_total (demo_ops False) [2, 3] (1 / 2) [[Finite 0, Finite 0, Finite 0]] demo_box
                              - U_total (demo_ops False) [1, 1] 0 [[Finite 0, Finite 0, Finite 0]] demo_box)"
      and "item tr [0] = 2 * (U_total (demo_ops False) [1, 1] 0 [[Finite 1, Finite 1, Finite 1]] demo_box
                              - U_total (demo_ops False) [2, 3] (1 / 2) [[Finite 1, Finite 1, Finite 1]] demo_box)"
    by auto
  then show ?thesis
    by (auto simp: U_total_def demo_ops_def eval_nat_numeral)
qed

section \<open>The reported total of a pair\<close>

lemma rows_np_array:
  assumes "np_array as = Inr u"
  shows "rows u = as"
proof (cases as)
  case Nil
  then show ?thesis using assms by (auto simp: np_array_def rows_def)
next
  case (Cons a rest)
  have all: "list_all (\<lambda>b. shape b = shape a) as"
    using assms Cons by (auto simp: np_array_def split: if_splits)
  have u: "u = \<lparr> shape = length as # shape a,
                     item = (\<lambda>idx. case idx of
                                [] \<Rightarrow> 0
                              | i # rest \<Rightarrow> (if i < length as then item (as ! i) rest else 0)) \<rparr>"
    using assms all unfolding Cons by (auto simp: np_array_def split: if_splits)
  have "rows u = map (\<lambda>i. \<lparr> shape = shape a, item = (\<lambda>idx. item u (i # idx)) \<rparr>) [0..<length as]"
    unfolding u by (simp add: rows_def)
  also have "\<dots> = map (\<lambda>i. as ! i) [0..<length as]"
  proof (rule map_cong [OF refl])
    fix i assume "i \<in> set [0..<length as]"
    then have i: "i < length as" by simp
    then have "shape (as ! i) = shape a" using all by (simp add: list_all_length)
    moreover have "(\<lambda>idx. item u (i # idx)) = item (as ! i)" unfolding u using i by (simp add: fun_eq_iff)
    ultimately show "\<lparr> shape = shape a, item = (\<lambda>idx. item u (i # idx)) \<rparr> = as ! i" by simp
  qed
  also have "\<dots> = as" by (rule map_nth)
  finally show ?thesis .
qed

lemma pair_analysis_first:
  assumes "\<not> 0 < i"
  shows "pair_analysis imp i st = (st, None)"
  using assms by (simp add: pair_analysis_def)

lemma pair_analysis_later:
  assumes "snd (pair_analysis imp i st) = None" and "0 < i"
  shows "\<exists>t. compute_energy_decomposed_u_kln imp [tmp_states st ! (i - 1), tmp_states st ! i] = Inr t
           \<and> u_kln_by_component_by_lambda (fst (pair_analysis imp i st))
               = u_kln_by_component_by_lambda st @ [t]"
proof (cases "compute_energy_decomposed_u_kln imp [tmp_states st ! (i - 1), tmp_states st ! i]")
  case (Inl e)
  then show ?thesis using assms by (simp add: pair_analysis_def)
next
  case (Inr t)
  then show ?thesis using assms by (simp add: pair_analysis_def)
qed

lemma freed_states_prev:
  assumes "0 < i"
  shows "freed_states i ts ! (i - 1) = ts ! (i - 1)"
  using assms by (simp add: freed_states_def)

lemma seq_body_tensor:
  assumes sn: "snd (seq_body imp ops md temp keep i s st) = None"
    and i: "i < length (tmp_states st)"
    and r: "sample ops s md None = Inr (coords, bxs)"
  shows "tmp_states (fst (seq_body imp ops md temp keep i s st)) ! i
           = Some (built_state imp ops temp i s coords bxs)"
    and "length (tmp_states (fst (seq_body imp ops md temp keep i s st))) = length (tmp_states st)"
    and "\<not> 0 < i \<longrightarrow> u_kln_by_component_by_lambda (fst (seq_body imp ops md temp keep i s st))
                       = u_kln_by_component_by_lambda st"
    and "0 < i \<longrightarrow> (\<exists>t. compute_energy_decomposed_u_kln imp
                            [tmp_states st ! (i - 1), Some (built_state imp ops temp i s coords bxs)] = Inr t
                        \<and> u_kln_by_component_by_lambda (fst (seq_body imp ops md temp keep i s st))
                            = u_kln_by_component_by_lambda st @ [t])"
proof -
  let ?X = "keep_samples keep i \<lparr> obj_id = FramesOf i, obj_val = coords \<rparr>
                  \<lparr> obj_id = BoxesOf i, obj_val = bxs \<rparr> st
                \<lparr> tmp_states := (freed_states i (tmp_states st))[i := Some (built_state imp ops temp i s coords bxs)],
                  tmp_states_log := tmp_states_log st @
                    [(Freed i, freed_states i (tmp_states st)),
                     (Constructed i, (freed_states i (tmp_states st))[i := Some (built_state imp ops temp i s coords bxs)])] \<rparr>"
  have b: "seq_body imp ops md temp keep i s st = pair_analysis imp i ?X"
    by (rule seq_body_Inr [OF r i])
  have tx: "tmp_states ?X = (freed_states i (tmp_states st))[i := Some (built_state imp ops temp i s coords bxs)]"
    by simp
  have ux: "u_kln_by_component_by_lambda ?X = u_kln_by_component_by_lambda st"
    by (simp add: keep_samples_fields)
  have ti: "tmp_states ?X ! i = Some (built_state imp ops temp i s coords bxs)"
    unfolding tx using i by (simp add: length_freed_states)
  show "tmp_states (fst (seq_body imp ops md temp keep i s st)) ! i
           = Some (built_state imp ops temp i s coords bxs)"
    unfolding b pair_analysis_fields(1) by (rule ti)
  show "length (tmp_states (fst (seq_body imp ops md temp keep i s st))) = length (tmp_states st)"
    unfolding b pair_analysis_fields(1) tx by (simp add: length_freed_states)
  show "\<not> 0 < i \<longrightarrow> u_kln_by_component_by_lambda (fst (seq_body imp ops md temp keep i s st))
                       = u_kln_by_component_by_lambda st"
    unfolding b by (simp add: pair_analysis_first keep_samples_fields)
  show "0 < i \<longrightarrow> (\<exists>t. compute_energy_decomposed_u_kln imp
                            [tmp_states st ! (i - 1), Some (built_state imp ops temp i s coords bxs)] = Inr t
                        \<and> u_kln_by_component_by_lambda (fst (seq_body imp ops md temp keep i s st))
                            = u_kln_by_component_by_lambda st @ [t])"
  proof
    assume p: "0 < i"
    have sn': "snd (pair_analysis imp i ?X) = None" using sn unfolding b .
    have prev: "tmp_states ?X ! (i - 1) = tmp_states st ! (i - 1)"
      unfolding tx using p freed_states_prev [of i "tmp_states st"] by simp
    from pair_analysis_later [OF sn' p] obtain t where
        c: "compute_energy_decomposed_u_kln imp [tmp_states ?X ! (i - 1), tmp_states ?X ! i] = Inr t"
        and u: "u_kln_by_component_by_lambda (fst (pair_analysis imp i ?X))
               = u_kln_by_component_by_lambda ?X @ [t]"
      by blast
    have "compute_energy_decomposed_u_kln imp
            [tmp_states st ! (i - 1), Some (built_state imp ops temp i s coords bxs)] = Inr t"
      using c unfolding prev ti .
    moreover have "u_kln_by_component_by_lambda (fst (seq_body imp ops md temp keep i s st))
                            = u_kln_by_component_by_lambda st @ [t]"
      unfolding b u ux ..
    ultimately show "\<exists>t. compute_energy_decomposed_u_kln imp
                            [tmp_states st ! (i - 1), Some (built_state imp ops temp i s coords bxs)] = Inr t
                        \<and> u_kln_by_component_by_lambda (fst (seq_body imp ops md temp keep i s st))
                            = u_kln_by_component_by_lambda st @ [t]"
      by blast
  qed
qed

lemma window_state_built:
  assumes "sample ops (states ! i) md None = Inr (coords, bxs)"
  shows "window_state imp ops md temp states i = built_state imp ops temp i (states ! i) coords bxs"
  using assms by (simp add: window_state_def built_state_def sampled_frames_def sampled_boxes_def)

lemma window_state_append:
  assumes "i \<le> length pre"
  shows "window_state imp ops md temp ((pre @ [s]) @ ss) i = window_state imp ops md temp (pre @ s # ss) i"
  by simp

lemma seq_loop_tensors:
  assumes "seq_loop imp ops md temp keep (length pre) ss st = (st', None)"
    and "length pre + length ss = length (tmp_states st)"
    and "length (u_kln_by_component_by_lambda st) = length pre - 1"
    and "\<forall>j. Suc j < length pre \<longrightarrow>
           pair_tensor imp ops md temp (pre @ ss) j = Inr (u_kln_by_component_by_lambda st ! j)"
    and "0 < length pre \<longrightarrow>
           tmp_states st ! (length pre - 1) = Some (window_state imp ops md temp (pre @ ss) (length pre - 1))"
  shows "length (u_kln_by_component_by_lambda st') = (length pre + length ss) - 1
       \<and> (\<forall>j. Suc j < length pre + length ss \<longrightarrow>
           pair_tensor imp ops md temp (pre @ ss) j = Inr (u_kln_by_component_by_lambda st' ! j))"
  using assms
proof (induction ss arbitrary: pre st)
  case Nil
  then show ?case by simp
next
  case (Cons s ss)
  let ?i = "length pre"
  let ?S = "pre @ s # ss"
  let ?b = "seq_body imp ops md temp keep ?i s st"
  have i: "?i < length (tmp_states st)" using Cons.prems(2) by simp
  have sn: "snd ?b = None" using Cons.prems(1) by (cases ?b; cases "snd ?b") auto
  then obtain coords bxs where r: "sample ops s md None = Inr (coords, bxs)"
    using seq_body_None by blast
  have eq: "seq_loop imp ops md temp keep (length (pre @ [s])) ss (fst ?b) = (st', None)"
    using Cons.prems(1) sn by (cases ?b) simp
  have nth: "?S ! ?i = s" by simp
  have ws: "window_state imp ops md temp ?S ?i = built_state imp ops temp ?i s coords bxs"
    using window_state_built [of ops ?S ?i md coords bxs imp temp] r nth by simp
  note bt = seq_body_tensor [OF sn i r]
  have len: "length (pre @ [s]) + length ss = length (tmp_states (fst ?b))"
    using bt(2) Cons.prems(2) by simp
  have tl: "0 < length (pre @ [s]) \<longrightarrow>
           tmp_states (fst ?b) ! (length (pre @ [s]) - 1)
             = Some (window_state imp ops md temp ((pre @ [s]) @ ss) (length (pre @ [s]) - 1))"
    using bt(1) ws by simp
  have ul: "length (u_kln_by_component_by_lambda (fst ?b)) = length (pre @ [s]) - 1"
    and ut: "\<forall>j. Suc j < length (pre @ [s]) \<longrightarrow>
           pair_tensor imp ops md temp ((pre @ [s]) @ ss) j = Inr (u_kln_by_component_by_lambda (fst ?b) ! j)"
  proof -
    show "length (u_kln_by_component_by_lambda (fst ?b)) = length (pre @ [s]) - 1"
    proof (cases "0 < ?i")
      case True
      with bt(4) obtain t where "u_kln_by_component_by_lambda (fst ?b) = u_kln_by_component_by_lambda st @ [t]"
        by blast
      then show ?thesis using Cons.prems(3) True by simp
    next
      case False
      with bt(3) have "u_kln_by_component_by_lambda (fst ?b) = u_kln_by_component_by_lambda st" by blast
      then show ?thesis using Cons.prems(3) False by simp
    qed
    show "\<forall>j. Suc j < length (pre @ [s]) \<longrightarrow>
           pair_tensor imp ops md temp ((pre @ [s]) @ ss) j = Inr (u_kln_by_component_by_lambda (fst ?b) ! j)"
    proof (intro allI impI)
      fix j assume j: "Suc j < length (pre @ [s])"
      then have p: "0 < ?i" by auto
      with bt(4) obtain t where
          c: "compute_energy_decomposed_u_kln imp
                [tmp_states st ! (?i - 1), Some (built_state imp ops temp ?i s coords bxs)] = Inr t"
          and u: "u_kln_by_component_by_lambda (fst ?b) = u_kln_by_component_by_lambda st @ [t]"
        by blast
      show "pair_tensor imp ops md temp ((pre @ [s]) @ ss) j = Inr (u_kln_by_component_by_lambda (fst ?b) ! j)"
      proof (cases "Suc j < ?i")
        case True
        then have "j < length (u_kln_by_component_by_lambda st)" using Cons.prems(3) by simp
        then have "u_kln_by_component_by_lambda (fst ?b) ! j = u_kln_by_component_by_lambda st ! j"
          unfolding u by (simp add: nth_append)
        then show ?thesis using Cons.prems(4) True by simp
      next
        case False
        then have ji: "Suc j = ?i" using j by simp
        then have j': "j = ?i - 1" by simp
        have "j = length (u_kln_by_component_by_lambda st)" using Cons.prems(3) j' by simp
        then have n: "u_kln_by_component_by_lambda (fst ?b) ! j = t" unfolding u by simp
        have prev: "tmp_states st ! (?i - 1) = Some (window_state imp ops md temp ?S (?i - 1))"
          using Cons.prems(5) p by simp
        have "pair_tensor imp ops md temp ?S j = Inr t"
          unfolding pair_tensor_def ji using c prev ws j' by simp
        then show ?thesis using n by simp
      qed
    qed
  qed
  from Cons.IH [OF eq len ul ut tl] show ?case by simp
qed

lemma run_sequential_tensors:
  assumes "run_sequential_sims_given_initial_states imp ops states md temp keep_idxs = Inr (u, sf, sb)"
  shows "length (rows u) = length states - 1
       \<and> (\<forall>j. Suc j < length states \<longrightarrow> pair_tensor imp ops md temp states j = Inr (rows u ! j))"
proof -
  from run_sequential_Inr [OF assms] obtain st where
      lp: "seq_loop imp ops md temp (case keep_idxs of None \<Rightarrow> [] | Some l \<Rightarrow> l) 0 states
                 (seq_init (length states)) = (st, None)"
      and arr: "np_array (u_kln_by_component_by_lambda st) = Inr u"
    by blast
  have lp': "seq_loop imp ops md temp (case keep_idxs of None \<Rightarrow> [] | Some l \<Rightarrow> l)
               (length ([] :: 'a InitialState list)) states (seq_init (length states)) = (st, None)"
    using lp by simp
  have "length (u_kln_by_component_by_lambda st) = (length ([] :: 'a InitialState list) + length states) - 1
       \<and> (\<forall>j. Suc j < length ([] :: 'a InitialState list) + length states \<longrightarrow>
           pair_tensor imp ops md temp ([] @ states) j = Inr (u_kln_by_component_by_lambda st ! j))"
    by (rule seq_loop_tensors [OF lp']) (simp_all add: seq_init_def)
  then show ?thesis using rows_np_array [OF arr] by simp
qed

lemma pair_bar_Inr:
  assumes "pair_bar imp beta uc = Inr (dG, err)"
  shows "\<exists>u_kln w_fwd w_rev df df_err.
           sum_axis0 uc = Inr u_kln \<and> reduced_works u_kln = Inr (w_fwd, w_rev)
           \<and> bar_with_bootstrapped_uncertainty imp w_fwd w_rev = Inr (df, df_err)
           \<and> dG = df / beta \<and> err = df_err / beta"
  using assms unfolding pair_bar_def by (auto simp: on_success_Inr_iff)

lemma estimate_Inr:
  assumes "estimate_free_energy_given_initial_states imp ops states md temp prefix keep_idxs = Inr res"
  shows "\<exists>u sf sb pairs.
           run_sequential_sims_given_initial_states imp ops states md temp keep_idxs = Inr (u, sf, sb)
           \<and> map_err (pair_bar imp (1 / (fe_imports.BOLTZ imp * temp))) (rows u) = Inr pairs
           \<and> SimulationResult.all_dGs res = map fst pairs
           \<and> SimulationResult.all_errs res = map snd pairs"
  using assms unfolding estimate_free_energy_given_initial_states_def Let_def
  by (auto simp: on_success_Inr_iff split: if_splits)


text \<open>
  Claim C5. When free\_energy.py's \<^verbatim>\<open>estimate_free_energy_given_initial_states\<close> returns,
  there is one reported total per adjacent pair, and the total of pair \<open>j\<close> is the
  estimate that \<^verbatim>\<open>bar_with_bootstrapped_uncertainty\<close> returns for the two works read from
  the sum over the components of that pair's energy tensor, divided by \<open>beta\<close>; its error
  likewise. When rbfe.py's function returns, the total of pair \<open>j\<close> is \<open>summed_work_bar\<close>
  of the frames, boxes and batch energy functions of the windows \<open>j\<close> and \<open>j + 1\<close>:
  BAR of the works summed over the energy terms, divided by \<open>beta\<close>. No estimate of a
  single term enters either total.
\<close>

theorem reported_total_from_summed_works:
  "(estimate_free_energy_given_initial_states imp ops states md temp prefix keep_idxs = Inr res \<longrightarrow>
      length (SimulationResult.all_dGs res) = length states - 1
      \<and> length (SimulationResult.all_errs res) = length states - 1
      \<and> (\<forall>j. Suc j < length states \<longrightarrow>
            (\<exists>uc u_kln w_fwd w_rev df df_err.
               pair_tensor imp ops md temp states j = Inr uc
               \<and> sum_axis0 uc = Inr u_kln
               \<and> reduced_works u_kln = Inr (w_fwd, w_rev)
               \<and> bar_with_bootstrapped_uncertainty imp w_fwd w_rev = Inr (df, df_err)
               \<and> SimulationResult.all_dGs res ! j = df / (1 / (fe_imports.BOLTZ imp * temp))
               \<and> SimulationResult.all_errs res ! j = df_err / (1 / (fe_imports.BOLTZ imp * temp)))))
   \<and> (rbfe_estimate_free_energy_given_initial_states rimp rops rstates proto rtemp rprefix keep = Inr rres \<longrightarrow>
      length (rbfe_SimulationResult.all_dGs rres) = length rstates - 1
      \<and> length (rbfe_SimulationResult.all_errs rres) = length rstates - 1
      \<and> (\<forall>j. Suc j < length rstates \<longrightarrow>
            summed_work_bar rimp (1 / (rbfe_imports.BOLTZ rimp * rtemp))
              (obj_val (rbfe_window_frames rops proto rstates j))
              (obj_val (rbfe_window_boxes rops proto rstates j))
              (obj_val (rbfe_window_frames rops proto rstates (Suc j)))
              (obj_val (rbfe_window_boxes rops proto rstates (Suc j)))
              (rbfe_window_fns rops rstates j) (rbfe_window_fns rops rstates (Suc j))
            = Inr (rbfe_SimulationResult.all_dGs rres ! j, rbfe_SimulationResult.all_errs rres ! j)))"
proof (intro conjI impI)
  assume e: "estimate_free_energy_given_initial_states imp ops states md temp prefix keep_idxs = Inr res"
  let ?beta = "1 / (fe_imports.BOLTZ imp * temp)"
  from estimate_Inr [OF e] obtain u sf sb pairs where
      run: "run_sequential_sims_given_initial_states imp ops states md temp keep_idxs = Inr (u, sf, sb)"
      and pairs: "map_err (pair_bar imp ?beta) (rows u) = Inr pairs"
      and dg: "SimulationResult.all_dGs res = map fst pairs"
      and er: "SimulationResult.all_errs res = map snd pairs"
    by blast
  from run_sequential_tensors [OF run] have
      lr: "length (rows u) = length states - 1"
      and pt: "\<forall>j. Suc j < length states \<longrightarrow> pair_tensor imp ops md temp states j = Inr (rows u ! j)"
    by simp_all
  from map_err_Inr [OF pairs] have
      lp: "length pairs = length (rows u)"
      and pn: "\<forall>j < length (rows u). pair_bar imp ?beta (rows u ! j) = Inr (pairs ! j)"
    by simp_all
  show "length (SimulationResult.all_dGs res) = length states - 1" using dg lp lr by simp
  show "length (SimulationResult.all_errs res) = length states - 1" using er lp lr by simp
  show "\<forall>j. Suc j < length states \<longrightarrow>
            (\<exists>uc u_kln w_fwd w_rev df df_err.
               pair_tensor imp ops md temp states j = Inr uc
               \<and> sum_axis0 uc = Inr u_kln
               \<and> reduced_works u_kln = Inr (w_fwd, w_rev)
               \<and> bar_with_bootstrapped_uncertainty imp w_fwd w_rev = Inr (df, df_err)
               \<and> SimulationResult.all_dGs res ! j = df / ?beta
               \<and> SimulationResult.all_errs res ! j = df_err / ?beta)"
  proof (intro allI impI)
    fix j assume j: "Suc j < length states"
    then have jl: "j < length (rows u)" using lr by simp
    have t: "pair_tensor imp ops md temp states j = Inr (rows u ! j)" using pt j by blast
    have "pair_bar imp ?beta (rows u ! j) = Inr (fst (pairs ! j), snd (pairs ! j))"
      using pn jl by simp
    from pair_bar_Inr [OF this] obtain u_kln w_fwd w_rev df df_err where
        "sum_axis0 (rows u ! j) = Inr u_kln" and "reduced_works u_kln = Inr (w_fwd, w_rev)"
        and "bar_with_bootstrapped_uncertainty imp w_fwd w_rev = Inr (df, df_err)"
        and "fst (pairs ! j) = df / ?beta" and "snd (pairs ! j) = df_err / ?beta"
      by blast
    moreover have "SimulationResult.all_dGs res ! j = fst (pairs ! j)"
      "SimulationResult.all_errs res ! j = snd (pairs ! j)"
      using dg er jl lp by simp_all
    ultimately show "\<exists>uc u_kln w_fwd w_rev df df_err.
               pair_tensor imp ops md temp states j = Inr uc
               \<and> sum_axis0 uc = Inr u_kln
               \<and> reduced_works u_kln = Inr (w_fwd, w_rev)
               \<and> bar_with_bootstrapped_uncertainty imp w_fwd w_rev = Inr (df, df_err)
               \<and> SimulationResult.all_dGs res ! j = df / ?beta
               \<and> SimulationResult.all_errs res ! j = df_err / ?beta"
      using t by auto
  qed
next
  assume e: "rbfe_estimate_free_energy_given_initial_states rimp rops rstates proto rtemp rprefix keep = Inr rres"
  from rbfe_estimate_Inr [OF e] obtain loc where
      inv: "rbfe_inv rimp rops proto (1 / (rbfe_imports.BOLTZ rimp * rtemp)) keep rstates (length rstates) loc"
      and dg: "rbfe_SimulationResult.all_dGs rres = rbfe_locals.all_dGs loc"
      and er: "rbfe_SimulationResult.all_errs rres = rbfe_locals.all_errs loc"
    by blast
  show "length (rbfe_SimulationResult.all_dGs rres) = length rstates - 1"
    using inv dg by (simp add: rbfe_inv_def)
  show "length (rbfe_SimulationResult.all_errs rres) = length rstates - 1"
    using inv er by (simp add: rbfe_inv_def)
  show "\<forall>j. Suc j < length rstates \<longrightarrow>
            summed_work_bar rimp (1 / (rbfe_imports.BOLTZ rimp * rtemp))
              (obj_val (rbfe_window_frames rops proto rstates j))
              (obj_val (rbfe_window_boxes rops proto rstates j))
              (obj_val (rbfe_window_frames rops proto rstates (Suc j)))
              (obj_val (rbfe_window_boxes rops proto rstates (Suc j)))
              (rbfe_window_fns rops rstates j) (rbfe_window_fns rops rstates (Suc j))
            = Inr (rbfe_SimulationResult.all_dGs rres ! j, rbfe_SimulationResult.all_errs rres ! j)"
    using inv unfolding dg er rbfe_inv_def by blast
qed

lemma demo_estimate_returns:
  "(case estimate_free_energy_given_initial_states demo_imports (demo_ops False) demo_ladder
           demo_md_params 300 ''pre'' (Some [0, 2]) of Inl _ \<Rightarrow> False | Inr _ \<Rightarrow> True)"
  by code_simp

lemma demo_rbfe_estimate_returns:
  "(case rbfe_estimate_free_energy_given_initial_states demo_rbfe_imports (demo_ops False)
           [demo_rbfe_state 0, demo_rbfe_state 1, demo_rbfe_state 2] demo_protocol 300 ''pre'' [0, 2]
      of Inl _ \<Rightarrow> False | Inr _ \<Rightarrow> True)"
  by code_simp

theorem reported_total_from_summed_works_witness:
  "length (SimulationResult.all_dGs (projr (estimate_free_energy_given_initial_states demo_imports
       (demo_ops False) demo_ladder demo_md_params 300 ''pre'' (Some [0, 2])))) = 2
   \<and> (\<exists>uc u_kln w_fwd w_rev df df_err.
         pair_tensor demo_imports (demo_ops False) demo_md_params 300 demo_ladder 0 = Inr uc
         \<and> sum_axis0 uc = Inr u_kln
         \<and> reduced_works u_kln = Inr (w_fwd, w_rev)
         \<and> bar_with_bootstrapped_uncertainty demo_imports w_fwd w_rev = Inr (df, df_err)
         \<and> SimulationResult.all_dGs (projr (estimate_free_energy_given_initial_states demo_imports
              (demo_ops False) demo_ladder demo_md_params 300 ''pre'' (Some [0, 2]))) ! 0
             = df / (1 / (fe_imports.BOLTZ demo_imports * 300)))
   \<and> length (rbfe_SimulationResult.all_dGs (projr (rbfe_estimate_free_energy_given_initial_states
       demo_rbfe_imports (demo_ops False) [demo_rbfe_state 0, demo_rbfe_state 1, demo_rbfe_state 2]
       demo_protocol 300 ''pre'' [0, 2]))) = 2
   \<and> summed_work_bar demo_rbfe_imports (1 / (rbfe_imports.BOLTZ demo_rbfe_imports * 300))
        (obj_val (rbfe_window_frames (demo_ops False) demo_protocol
                    [demo_rbfe_state 0, demo_rbfe_state 1, demo_rbfe_state 2] 0))
        (obj_val (rbfe_window_boxes (demo_ops False) demo_protocol
                    [demo_rbfe_state 0, demo_rbfe_state 1, demo_rbfe_state 2] 0))
        (obj_val (rbfe_window_frames (demo_ops False) demo_protocol
                    [demo_rbfe_state 0, demo_rbfe_state 1, demo_rbfe_state 2] (Suc 0)))
        (obj_val (rbfe_window_boxes (demo_ops False) demo_protocol
                    [demo_rbfe_state 0, demo_rbfe_state 1, demo_rbfe_state 2] (Suc 0)))
        (rbfe_window_fns (demo_ops False) [demo_rbfe_state 0, demo_rbfe_state 1, demo_rbfe_state 2] 0)
        (rbfe_window_fns (demo_ops False) [demo_rbfe_state 0, demo_rbfe_state 1, demo_rbfe_state 2] (Suc 0))
      = Inr (rbfe_SimulationResult.all_dGs (projr (rbfe_estimate_free_energy_given_initial_states
               demo_rbfe_imports (demo_ops False) [demo_rbfe_state 0, demo_rbfe_state 1, demo_rbfe_state 2]
               demo_protocol 300 ''pre'' [0, 2])) ! 0,
             rbfe_SimulationResult.all_errs (projr (rbfe_estimate_free_energy_given_initial_states
               demo_rbfe_imports (demo_ops False) [demo_rbfe_state 0, demo_rbfe_state 1, demo_rbfe_state 2]
               demo_protocol 300 ''pre'' [0, 2])) ! 0)"
proof -
  let ?FE = "estimate_free_energy_given_initial_states demo_imports
       (demo_ops False) demo_ladder demo_md_params 300 ''pre'' (Some [0, 2])"
  let ?RB = "rbfe_estimate_free_energy_given_initial_states
       demo_rbfe_imports (demo_ops False) [demo_rbfe_state 0, demo_rbfe_state 1, demo_rbfe_state 2]
       demo_protocol 300 ''pre'' [0, 2]"
  have a: "?FE = Inr (projr ?FE)" using demo_estimate_returns by (simp split: sum.splits)
  have b: "?RB = Inr (projr ?RB)" using demo_rbfe_estimate_returns by (simp split: sum.splits)
  note t = reported_total_from_summed_works [where imp = demo_imports and ops = "demo_ops False"
      and states = demo_ladder and md = demo_md_params and temp = 300 and prefix = "''pre''"
      and keep_idxs = "Some [0, 2]" and res = "projr ?FE"
      and rimp = demo_rbfe_imports and rops = "demo_ops False"
      and rstates = "[demo_rbfe_state 0, demo_rbfe_state 1, demo_rbfe_state 2]"
      and proto = demo_protocol and rtemp = 300 and rprefix = "''pre''" and keep = "[0, 2]"
      and rres = "projr ?RB"]
  note fe = t [THEN conjunct1, THEN mp, OF a]
  note rb = t [THEN conjunct2, THEN mp, OF b]
  have l: "Suc 0 < length demo_ladder" by (simp add: demo_ladder_def)
  from fe have f1: "length (SimulationResult.all_dGs (projr ?FE)) = 2"
    by (simp add: demo_ladder_def)
  from fe [THEN conjunct2, THEN conjunct2, THEN spec, THEN mp, OF l]
  have f2: "\<exists>uc u_kln w_fwd w_rev df df_err.
         pair_tensor demo_imports (demo_ops False) demo_md_params 300 demo_ladder 0 = Inr uc
         \<and> sum_axis0 uc = Inr u_kln
         \<and> reduced_works u_kln = Inr (w_fwd, w_rev)
         \<and> bar_with_bootstrapped_uncertainty demo_imports w_fwd w_rev = Inr (df, df_err)
         \<and> SimulationResult.all_dGs (projr ?FE) ! 0 = df / (1 / (fe_imports.BOLTZ demo_imports * 300))"
    by blast
  from rb have r1: "length (rbfe_SimulationResult.all_dGs (projr ?RB)) = 2" by simp
  have l2: "Suc 0 < length [demo_rbfe_state 0, demo_rbfe_state 1, demo_rbfe_state 2]" by simp
  note r2 = rb [THEN conjunct2, THEN conjunct2, THEN spec, THEN mp, OF l2]
  from f1 f2 r1 r2 show ?thesis by blast
qed

end
